theory Spec2Isabelle
  imports Main "HOL-Library.Word"
begin

section \<open>Python values, exceptions and the observable world\<close>

text \<open>
  The flashing dialog of Brick Viewer (\<^verbatim>\<open>src/brickv/flashing.py\<close>) drives devices through
  generated bindings. Every binding call either returns a value or raises. The devices are
  external, so they are a parameter of the model: a record of transition functions over an
  arbitrary hardware state \<open>'d\<close>. Each call the dialog makes is appended to a trace together
  with the answer it got, next to the calls on the progress dialog, the message boxes and
  \<^verbatim>\<open>time.sleep\<close>. Durations are in milliseconds.
\<close>

type_synonym byte = "8 word"
type_synonym bytes = "byte list"

text \<open>
  \<^verbatim>\<open>Error\<close> is the exception class of the bindings (its \<^verbatim>\<open>value\<close>, its \<^verbatim>\<open>message\<close> and
  what \<^verbatim>\<open>str\<close> prints); every other exception is \<^verbatim>\<open>Exception\<close> with what \<^verbatim>\<open>str\<close> prints.
\<close>

datatype exn = Error int string string | Exception string

fun str_exn :: "exn \<Rightarrow> string" where
  "str_exn (Error v m s) = s"
| "str_exn (Exception s) = s"

datatype 'a outcome = Return 'a | Raise exn

datatype progress_call = SetLabelText string | SetMaximum nat | SetValue nat | Show | Cancel

datatype event =
    Progress progress_call
  | PopupOk string string
  | PopupFail string string
  | Sleep nat
  | ProcessEvents
  | Excepthook exn
  | SetBootloaderMode int "exn + int"
  | GetBootloaderMode "exn + int"
  | SetWriteFirmwarePointer nat "exn + unit"
  | WriteFirmware bytes "exn + int"
  | CopyFirmware "exn + int"
  | Reset "exn + unit"
  | SetResponseExpected int bool
  | WriteBrickletPlugin string nat bytes "exn + unit"
  | ReadBrickletPlugin string nat "exn + bytes"
  | WriteUid int "exn + unit"
  | ReadUid "exn + int"
  | WriteBrickletUid string string "exn + unit"
  | ReadBrickletUid string "exn + string"

record 'd world =
  dev :: 'd
  trace :: "event list"

definition emit :: "event \<Rightarrow> 'd world \<Rightarrow> 'd world" where
  "emit e w = w\<lparr>trace := trace w @ [e]\<rparr>"

definition progress :: "progress_call \<Rightarrow> 'd world \<Rightarrow> 'd world" where
  "progress c w = emit (Progress c) w"

definition popup_ok :: "string \<Rightarrow> string \<Rightarrow> 'd world \<Rightarrow> 'd world" where
  "popup_ok title message w = emit (PopupOk title message) w"

definition popup_fail :: "string \<Rightarrow> string \<Rightarrow> 'd world \<Rightarrow> 'd world" where
  "popup_fail title message w = emit (PopupFail title message) w"

definition sleep :: "nat \<Rightarrow> 'd world \<Rightarrow> 'd world" where
  "sleep ms w = emit (Sleep ms) w"

definition process_events :: "'d world \<Rightarrow> 'd world" where
  "process_events w = emit ProcessEvents w"

text \<open>A binding call: run the device's transition, record the call with its answer.\<close>

definition call :: "('d \<Rightarrow> (exn + 'a) \<times> 'd) \<Rightarrow> ((exn + 'a) \<Rightarrow> event) \<Rightarrow> 'd world
    \<Rightarrow> (exn + 'a) \<times> 'd world" where
  "call f ev w = (case f (dev w) of (r, d) \<Rightarrow> (r, \<lparr>dev = d, trace = trace w @ [ev r]\<rparr>))"

text \<open>Python's \<^verbatim>\<open>xs[a:b]\<close> for \<open>0 \<le> a\<close>, \<open>0 \<le> b\<close>.\<close>

definition py_slice :: "'a list \<Rightarrow> nat \<Rightarrow> nat \<Rightarrow> 'a list" where
  "py_slice xs a b = take (b - a) (drop a xs)"

text \<open>\<^verbatim>\<open>s.endswith(suf)\<close>.\<close>

definition endswith :: "string \<Rightarrow> string \<Rightarrow> bool" where
  "endswith s suf = (length suf \<le> length s \<and> drop (length s - length suf) s = suf)"

section \<open>\<^verbatim>\<open>error_to_name\<close>\<close>

text \<open>
  The numeric constants of the bindings' \<^verbatim>\<open>Error\<close> class are declared in
  \<^verbatim>\<open>ip_connection.py\<close>, so they are a parameter.
\<close>

record error_consts =
  TIMEOUT :: int
  NOT_CONNECTED :: int
  INVALID_PARAMETER :: int
  NOT_SUPPORTED :: int

fun error_to_name :: "error_consts \<Rightarrow> int \<Rightarrow> string \<Rightarrow> string" where
  "error_to_name ec v m =
     (if v = TIMEOUT ec then ''Timeout''
      else if v = NOT_CONNECTED ec then ''No TCP/IP connection''
      else if v = INVALID_PARAMETER ec then ''Invalid parameter''
      else if v = NOT_SUPPORTED ec then ''Not supported''
      else m)"

section \<open>Classic Bricklets: \<^verbatim>\<open>write_bricklet_plugin_classic\<close>\<close>

text \<open>The parent Brick, through which the plugin of a classic Bricklet is written.\<close>

record 'd brick =
  write_bricklet_plugin :: "string \<Rightarrow> nat \<Rightarrow> bytes \<Rightarrow> 'd \<Rightarrow> (exn + unit) \<times> 'd"
  read_bricklet_plugin :: "string \<Rightarrow> nat \<Rightarrow> 'd \<Rightarrow> (exn + bytes) \<times> 'd"

text \<open>\<^verbatim>\<open>BrickMaster.FUNCTION_WRITE_BRICKLET_PLUGIN\<close>, the function ID the source's comment gives.\<close>

definition FUNCTION_WRITE_BRICKLET_PLUGIN :: int where
  "FUNCTION_WRITE_BRICKLET_PLUGIN = 246"

definition plugin_chunk_size :: nat where
  "plugin_chunk_size = 32"

text \<open>The \<^verbatim>\<open>while offset < len(plugin)\<close> loop that cuts the plugin into padded chunks.\<close>

function split_chunks :: "bytes \<Rightarrow> nat \<Rightarrow> bytes list \<Rightarrow> bytes list" where
  "split_chunks plugin offset plugin_chunks =
     (if offset < length plugin then
        let chunk = py_slice plugin offset (offset + plugin_chunk_size);
            chunk = (if length chunk < plugin_chunk_size
                     then chunk @ replicate (plugin_chunk_size - length chunk) 0
                     else chunk)
        in split_chunks plugin (offset + plugin_chunk_size) (plugin_chunks @ [chunk])
      else plugin_chunks)"
  by pat_completeness auto
termination
  by (relation "measure (\<lambda>(plugin, offset, plugin_chunks). length plugin - offset)")
     (auto simp: plugin_chunk_size_def)

declare split_chunks.simps [simp del]

text \<open>
  The write loop. \<^verbatim>\<open>except Error\<close> catches the bindings' exception only, any other exception
  leaves the function. The result is \<open>None\<close> when the loop ran to its end, and the function's
  result otherwise.
\<close>

fun classic_write_loop :: "error_consts \<Rightarrow> 'd brick \<Rightarrow> string \<Rightarrow> bytes list \<Rightarrow> nat \<Rightarrow> 'd world
    \<Rightarrow> bool option outcome option \<times> 'd world" where
  "classic_write_loop ec brick port [] position w = (None, w)"
| "classic_write_loop ec brick port (chunk # chunks) position w =
     (case call (write_bricklet_plugin brick port position chunk)
                (WriteBrickletPlugin port position chunk) w of
        (Inl (Error v m s), w1) \<Rightarrow>
          (Some (Return (Some False)),
           popup_fail ''Bricklet'' (''Could not write Bricklet plugin: '' @ error_to_name ec v m)
             (progress Cancel w1))
      | (Inl (Exception s), w1) \<Rightarrow> (Some (Raise (Exception s)), w1)
      | (Inr u, w1) \<Rightarrow>
          classic_write_loop ec brick port chunks (position + 1)
            (process_events (sleep 15 (progress (SetValue (position + 1)) w1))))"

text \<open>The verify loop: read every chunk back and compare.\<close>

fun classic_verify_loop :: "error_consts \<Rightarrow> 'd brick \<Rightarrow> string \<Rightarrow> bytes list \<Rightarrow> nat \<Rightarrow> 'd world
    \<Rightarrow> bool option outcome option \<times> 'd world" where
  "classic_verify_loop ec brick port [] position w = (None, w)"
| "classic_verify_loop ec brick port (chunk # chunks) position w =
     (case call (read_bricklet_plugin brick port position) (ReadBrickletPlugin port position) w of
        (Inl (Error v m s), w1) \<Rightarrow>
          (Some (Return (Some False)),
           popup_fail ''Bricklet''
             (''Could not read Bricklet plugin back for verification: '' @ error_to_name ec v m)
             (progress Cancel w1))
      | (Inl (Exception s), w1) \<Rightarrow> (Some (Raise (Exception s)), w1)
      | (Inr read_chunk, w1) \<Rightarrow>
          if read_chunk \<noteq> chunk then
            (Some (Return (Some False)),
             popup_fail ''Bricklet'' ''Could not flash Bricklet plugin: Verification error''
               (progress Cancel w1))
          else
            classic_verify_loop ec brick port chunks (position + 1)
              (process_events (sleep 15 (progress (SetValue (position + 1)) w1))))"

definition write_bricklet_plugin_classic :: "error_consts \<Rightarrow> bytes \<Rightarrow> 'd brick \<Rightarrow> string \<Rightarrow> string
    \<Rightarrow> 'd world \<Rightarrow> bool option outcome \<times> 'd world" where
  "write_bricklet_plugin_classic ec plugin brick port name w =
     (if length plugin > 4084 then
        (Return None,
         popup_fail ''Bricklet''
           ''Could not write Bricklet plugin: Plugin is larger than 4084 bytes (the maximum plugin size for classic Bricklets).''
           (progress Cancel w))
      else
        (let w1 = progress Show (progress (SetValue 0) (progress (SetMaximum 0)
                    (progress (SetLabelText (''Writing plugin: '' @ name)) w)));
             w2 = emit (SetResponseExpected FUNCTION_WRITE_BRICKLET_PLUGIN True) w1;
             plugin_chunks = split_chunks plugin 0 [];
             w3 = progress (SetMaximum (length plugin_chunks)) w2
         in (case classic_write_loop ec brick port plugin_chunks 0 w3 of
               (Some r, w4) \<Rightarrow> (r, w4)
             | (None, w4) \<Rightarrow>
                 (let w5 = sleep 100 w4;
                      w6 = progress Show (progress (SetValue 0)
                             (progress (SetMaximum (length plugin_chunks))
                               (progress (SetLabelText (''Verifying written plugin: '' @ name)) w5)));
                      w7 = sleep 100 w6
                  in (case classic_verify_loop ec brick port plugin_chunks 0 w7 of
                        (Some r, w8) \<Rightarrow> (r, w8)
                      | (None, w8) \<Rightarrow> (Return (Some True), w8))))))"

section \<open>Firmware archives and decimal printing\<close>

text \<open>
  A \<^verbatim>\<open>*.zbin\<close> file is a zip archive. Reading zip files is the work of Python's library, so the
  model takes what \<^verbatim>\<open>zipfile.ZipFile\<close> gives: an exception, or an archive with its
  \<^verbatim>\<open>namelist()\<close> and its \<^verbatim>\<open>read\<close>, which may raise.
\<close>

datatype zipfile = ZipFile (namelist: "string list") (read: "string \<Rightarrow> exn + bytes")

text \<open>
  The loop \<^verbatim>\<open>for name in zf.namelist()\<close>: the first entry whose name ends in
  \<^verbatim>\<open>firmware.bin\<close> is read. The loop variable replaces the function's parameter \<^verbatim>\<open>name\<close>.
\<close>

fun find_firmware :: "zipfile \<Rightarrow> string list \<Rightarrow> string \<Rightarrow> exn + string \<times> bytes option" where
  "find_firmware zf [] name = Inr (name, None)"
| "find_firmware zf (n # ns) name =
     (if endswith n ''firmware.bin'' then
        (case read zf n of Inl e \<Rightarrow> Inl e | Inr plugin_data \<Rightarrow> Inr (n, Some plugin_data))
      else find_firmware zf ns n)"

text \<open>Python's \<^verbatim>\<open>str\<close> of an integer.\<close>

definition digit_char :: "nat \<Rightarrow> char" where
  "digit_char n = char_of (48 + n)"

function str_nat :: "nat \<Rightarrow> string" where
  "str_nat n = (if n < 10 then [digit_char n] else str_nat (n div 10) @ [digit_char (n mod 10)])"
  by pat_completeness auto
termination
  by (relation "measure id") auto

declare str_nat.simps [simp del]

definition str_int :: "int \<Rightarrow> string" where
  "str_int i = (if i < 0 then CHR ''-'' # str_nat (nat (- i)) else str_nat (nat i))"

section \<open>Bricklets with a co-processor: the bootloader mode loops\<close>

text \<open>The functions of a Bricklet's binding that the flashing dialog calls.\<close>

record 'd bricklet =
  set_bootloader_mode :: "int \<Rightarrow> 'd \<Rightarrow> (exn + int) \<times> 'd"
  get_bootloader_mode :: "'d \<Rightarrow> (exn + int) \<times> 'd"
  set_write_firmware_pointer :: "nat \<Rightarrow> 'd \<Rightarrow> (exn + unit) \<times> 'd"
  write_firmware :: "bytes \<Rightarrow> 'd \<Rightarrow> (exn + int) \<times> 'd"
  copy_firmware :: "'d \<Rightarrow> (exn + int) \<times> 'd"
  reset :: "'d \<Rightarrow> (exn + unit) \<times> 'd"
  write_uid :: "int \<Rightarrow> 'd \<Rightarrow> (exn + unit) \<times> 'd"
  read_uid :: "'d \<Rightarrow> (exn + int) \<times> 'd"

definition BOOTLOADER_MODE_BOOTLOADER :: int where
  "BOOTLOADER_MODE_BOOTLOADER = 0"

definition BOOTLOADER_MODE_FIRMWARE :: int where
  "BOOTLOADER_MODE_FIRMWARE = 1"

text \<open>
  \<^verbatim>\<open>set_comcu_bootloader_mode\<close> and \<^verbatim>\<open>wait_for_comcu_bootloader_mode\<close> are \<^verbatim>\<open>while True\<close>
  loops that leave through \<^verbatim>\<open>return\<close> or through \<^verbatim>\<open>if counter == 10: break\<close>. They are
  modelled as they are written, as partial functions: \<open>None\<close> is a loop that never ends.
\<close>

partial_function (option) set_comcu_bootloader_mode_loop ::
    "'d bricklet \<Rightarrow> int \<Rightarrow> nat \<Rightarrow> 'd world \<Rightarrow> (int option \<times> 'd world) option" where
  "set_comcu_bootloader_mode_loop bricklet mode counter w =
     (case call (set_bootloader_mode bricklet mode) (SetBootloaderMode mode) w of
        (Inr r, w1) \<Rightarrow> Some (Some r, w1)
      | (Inl e, w1) \<Rightarrow>
          if counter = 10 then Some (None, w1)
          else set_comcu_bootloader_mode_loop bricklet mode (counter + 1) (sleep 250 w1))"

declare set_comcu_bootloader_mode_loop.simps [code]

definition set_comcu_bootloader_mode ::
    "'d bricklet \<Rightarrow> int \<Rightarrow> 'd world \<Rightarrow> (int option \<times> 'd world) option" where
  "set_comcu_bootloader_mode bricklet mode w = set_comcu_bootloader_mode_loop bricklet mode 0 w"

partial_function (option) wait_for_comcu_bootloader_mode_loop ::
    "'d bricklet \<Rightarrow> int \<Rightarrow> nat \<Rightarrow> 'd world \<Rightarrow> (bool \<times> 'd world) option" where
  "wait_for_comcu_bootloader_mode_loop bricklet mode counter w =
     (case call (get_bootloader_mode bricklet) GetBootloaderMode w of
        (r, w1) \<Rightarrow>
          if r = Inr mode then Some (True, w1)
          else if counter = 10 then Some (False, w1)
          else wait_for_comcu_bootloader_mode_loop bricklet mode (counter + 1) (sleep 250 w1))"

declare wait_for_comcu_bootloader_mode_loop.simps [code]

definition wait_for_comcu_bootloader_mode ::
    "'d bricklet \<Rightarrow> int \<Rightarrow> 'd world \<Rightarrow> (bool \<times> 'd world) option" where
  "wait_for_comcu_bootloader_mode bricklet mode w =
     wait_for_comcu_bootloader_mode_loop bricklet mode 0 w"

section \<open>Bricklets with a co-processor: \<^verbatim>\<open>write_bricklet_plugin_comcu\<close>\<close>

text \<open>
  The backward scan for the magic number, \<^verbatim>\<open>for i in reversed(range(4, len(plugin)-12))\<close>.
  For a plugin shorter than 12 bytes the range is empty in Python, and so is \<open>[4..<0]\<close>.
\<close>

fun find_magic :: "bytes \<Rightarrow> nat list \<Rightarrow> int" where
  "find_magic plugin [] = - 1"
| "find_magic plugin (i # is) =
     (if plugin ! i = 0x12 \<and> plugin ! (i - 1) = 0x34 \<and> plugin ! (i - 2) = 0x56
         \<and> plugin ! (i - 3) = 0x78
      then int i else find_magic plugin is)"

definition regular_plugin_upto :: "bytes \<Rightarrow> int" where
  "regular_plugin_upto plugin = find_magic plugin (rev [4..<length plugin - 12])"

definition XMC1_PAGE_SIZE :: nat where
  "XMC1_PAGE_SIZE = 256"

definition MAX_SKIPPED_ZERO_BYTES :: nat where
  "MAX_SKIPPED_ZERO_BYTES = 20 * 1024"

text \<open>The source divides with \<^verbatim>\<open>/\<close>; the quotient is the float 80.0, an exact integer.\<close>

definition MAX_SKIPPED_PAGES :: nat where
  "MAX_SKIPPED_PAGES = MAX_SKIPPED_ZERO_BYTES div XMC1_PAGE_SIZE"

text \<open>
  One 64-byte block, \<^verbatim>\<open>for subpage_attempt in range(3)\<close>: set the pointer and write, stop at
  the first try that does not raise. The result is \<^verbatim>\<open>last_exception\<close>.
\<close>

fun comcu_write_block :: "'d bricklet \<Rightarrow> bytes \<Rightarrow> nat \<Rightarrow> nat \<Rightarrow> nat list \<Rightarrow> exn option \<Rightarrow> 'd world
    \<Rightarrow> exn option \<times> 'd world" where
  "comcu_write_block bricklet plugin block_start block_end [] last_exception w =
     (last_exception, w)"
| "comcu_write_block bricklet plugin block_start block_end (subpage_attempt # rest)
       last_exception w =
     (case call (set_write_firmware_pointer bricklet block_start)
                (SetWriteFirmwarePointer block_start) w of
        (Inl e, w1) \<Rightarrow> comcu_write_block bricklet plugin block_start block_end rest (Some e) w1
      | (Inr u, w1) \<Rightarrow>
          (case call (write_firmware bricklet (py_slice plugin block_start block_end))
                     (WriteFirmware (py_slice plugin block_start block_end)) w1 of
             (Inl e, w2) \<Rightarrow>
               comcu_write_block bricklet plugin block_start block_end rest (Some e) w2
           | (Inr status, w2) \<Rightarrow> (None, w2)))"

text \<open>
  One page, \<^verbatim>\<open>for block_offset in range(0, XMC1_PAGE_SIZE, 64)\<close>. A block that raised three
  times ends the whole function with \<^verbatim>\<open>False\<close>.
\<close>

fun comcu_write_page :: "'d bricklet \<Rightarrow> bytes \<Rightarrow> nat \<Rightarrow> nat list \<Rightarrow> 'd world
    \<Rightarrow> bool option \<times> 'd world" where
  "comcu_write_page bricklet plugin position [] w = (None, w)"
| "comcu_write_page bricklet plugin position (block_offset # rest) w =
     (let block_start = position + block_offset;
          block_end = block_start + 64
      in (case comcu_write_block bricklet plugin block_start block_end [0, 1, 2] None w of
            (Some last_exception, w1) \<Rightarrow>
              (Some False,
               popup_fail ''Bricklet'' (''Could not write plugin: '' @ str_exn last_exception)
                 (progress Cancel w1))
          | (None, w1) \<Rightarrow> comcu_write_page bricklet plugin position rest w1))"

text \<open>The page loop, \<^verbatim>\<open>while position < plugin_len\<close>, with the skipping of zero pages.\<close>

function comcu_write_loop :: "'d bricklet \<Rightarrow> bytes \<Rightarrow> bool \<Rightarrow> nat \<Rightarrow> nat \<Rightarrow> 'd world
    \<Rightarrow> bool option \<times> 'd world" where
  "comcu_write_loop bricklet plugin allow_skipping position skipped_pages w =
     (if position < length plugin then
        if allow_skipping \<and> skipped_pages < MAX_SKIPPED_PAGES
           \<and> length plugin - position > XMC1_PAGE_SIZE
           \<and> list_all (\<lambda>b. b = 0) (py_slice plugin position (position + XMC1_PAGE_SIZE))
        then comcu_write_loop bricklet plugin allow_skipping (position + XMC1_PAGE_SIZE)
               (skipped_pages + 1) w
        else
          (case comcu_write_page bricklet plugin position [0, 64, 128, 192] w of
             (Some r, w1) \<Rightarrow> (Some r, w1)
           | (None, w1) \<Rightarrow>
               comcu_write_loop bricklet plugin allow_skipping (position + XMC1_PAGE_SIZE) 0
                 (progress (SetValue (position + XMC1_PAGE_SIZE)) w1))
      else (None, w))"
  by pat_completeness auto
termination
  by (relation "measure (\<lambda>(bricklet, plugin, allow_skipping, position, skipped_pages, w).
        length plugin - position)")
     (auto simp: XMC1_PAGE_SIZE_def)

declare comcu_write_loop.simps [simp del]

text \<open>
  How one pass of \<^verbatim>\<open>for attempt in range(2)\<close> ends: with a \<^verbatim>\<open>return\<close>, with
  \<^verbatim>\<open>flash_success = True; break\<close>, or with \<^verbatim>\<open>continue\<close> (and the \<^verbatim>\<open>error_str\<close> it leaves).
\<close>

datatype attempt_end = Returned bool | Break | Continue string

fun comcu_error_str :: "int \<Rightarrow> string" where
  "comcu_error_str mode_ret =
     (if mode_ret = 1 then ''Invalid mode (Error 1)''
      else if mode_ret = 3 then ''Entry function not present (Error 3)''
      else if mode_ret = 4 then ''Device identifier incorrect (Error 4)''
      else if mode_ret = 5 then ''CRC Mismatch (Error 5)''
      else ''Error '' @ str_int mode_ret)"

definition attempt_str_of :: "nat \<Rightarrow> string" where
  "attempt_str_of attempt =
     (if attempt = 0 then [] else '' (attempt '' @ str_nat (attempt + 1) @ '')'')"

definition comcu_attempt :: "'d bricklet \<Rightarrow> bytes \<Rightarrow> string \<Rightarrow> nat \<Rightarrow> 'd world
    \<Rightarrow> (attempt_end \<times> 'd world) option" where
  "comcu_attempt bricklet plugin name attempt w =
     (let attempt_str = attempt_str_of attempt;
          allow_skipping = (attempt = 0)
      in (case set_comcu_bootloader_mode bricklet BOOTLOADER_MODE_BOOTLOADER w of
            None \<Rightarrow> None
          | Some (set_ret, w1) \<Rightarrow>
         (case (if set_ret = None then Some (False, w1)
                else wait_for_comcu_bootloader_mode bricklet BOOTLOADER_MODE_BOOTLOADER w1) of
            None \<Rightarrow> None
          | Some (False, w2) \<Rightarrow>
              Some (Returned False,
                    popup_fail ''Bricklet''
                      (''Device did not enter bootloader mode in 2.5 seconds'' @ attempt_str)
                      (progress Cancel w2))
          | Some (True, w2) \<Rightarrow>
         (let w3 = progress Show (progress (SetValue 0) (progress (SetMaximum (length plugin))
                     (progress (SetLabelText (''Writing plugin'' @ attempt_str @ '': '' @ name))
                        w2)))
          in (case comcu_write_loop bricklet plugin allow_skipping 0 (MAX_SKIPPED_PAGES + 1) w3 of
                (Some r, w4) \<Rightarrow> Some (Returned r, w4)
              | (None, w4) \<Rightarrow>
         (let w5 = progress Show (progress (SetValue 0) (progress (SetMaximum 0)
                     (progress (SetLabelText
                        (''Changing from bootloader mode to firmware mode'' @ attempt_str)) w4)))
          in (case set_comcu_bootloader_mode bricklet BOOTLOADER_MODE_FIRMWARE w5 of
                None \<Rightarrow> None
              | Some (None, w6) \<Rightarrow>
                  Some (Returned False,
                        popup_fail ''Bricklet'' ''Device did not enter firmware mode in 2.5 seconds''
                          (progress Cancel w6))
              | Some (Some mode_ret, w6) \<Rightarrow>
                  if mode_ret = 0 \<or> mode_ret = 2 then Some (Break, w6)
                  else if mode_ret = 5 then Some (Continue (comcu_error_str mode_ret), w6)
                  else
                    Some (Returned False,
                          popup_fail ''Bricklet''
                            (''Could not change from bootloader mode to firmware mode: ''
                               @ comcu_error_str mode_ret)
                            (progress Cancel w6)))))))))"

text \<open>
  \<^verbatim>\<open>for attempt in range(2)\<close>. When the attempts are used up the loop ends without
  \<^verbatim>\<open>break\<close>, which is passed on as \<open>Continue\<close> with the last \<^verbatim>\<open>error_str\<close>.
\<close>

fun comcu_attempts :: "'d bricklet \<Rightarrow> bytes \<Rightarrow> string \<Rightarrow> nat list \<Rightarrow> string \<Rightarrow> 'd world
    \<Rightarrow> (attempt_end \<times> 'd world) option" where
  "comcu_attempts bricklet plugin name [] error_str w = Some (Continue error_str, w)"
| "comcu_attempts bricklet plugin name (attempt # rest) error_str w =
     (case comcu_attempt bricklet plugin name attempt w of
        None \<Rightarrow> None
      | Some (Continue e, w1) \<Rightarrow> comcu_attempts bricklet plugin name rest e w1
      | Some (r, w1) \<Rightarrow> Some (r, w1))"

text \<open>
  The whole function. Its outer \<^verbatim>\<open>except:\<close> is reached by \<^verbatim>\<open>zf.read\<close> only: every device
  call below it has a handler of its own.
\<close>

definition write_bricklet_plugin_comcu :: "exn + zipfile \<Rightarrow> 'd bricklet \<Rightarrow> string \<Rightarrow> 'd world
    \<Rightarrow> (bool \<times> 'd world) option" where
  "write_bricklet_plugin_comcu zip_file bricklet name w =
     (let w1 = progress Show (progress (SetValue 0) (progress (SetMaximum 0)
                 (progress (SetLabelText ''Starting bootloader mode'') w)))
      in (case zip_file of
            Inl e \<Rightarrow>
              Some (False,
                    popup_fail ''Bricklet'' (''Could not read *.zbin file: '' @ str_exn e)
                      (progress Cancel w1))
          | Inr zf \<Rightarrow>
         (case find_firmware zf (namelist zf) name of
            Inl e \<Rightarrow> Some (False, emit (Excepthook e) (progress Cancel w1))
          | Inr (name, None) \<Rightarrow>
              Some (False,
                    popup_fail ''Bricklet'' ''Could not find firmware in *.zbin file''
                      (progress Cancel w1))
          | Inr (name, Some plugin) \<Rightarrow>
              if regular_plugin_upto plugin = - 1 then
                Some (False,
                      popup_fail ''Bricklet'' ''Could not find magic number in firmware''
                        (progress Cancel w1))
              else if length plugin mod XMC1_PAGE_SIZE \<noteq> 0 then
                Some (False,
                      popup_fail ''Bricklet'' ''Firmware size is not a multiple of the page size''
                        (progress Cancel w1))
              else
                (case comcu_attempts bricklet plugin name [0, 1] [] w1 of
                   None \<Rightarrow> None
                 | Some (Returned r, w2) \<Rightarrow> Some (r, w2)
                 | Some (Continue error_str, w2) \<Rightarrow>
                     Some (False,
                           popup_fail ''Bricklet''
                             (''Could not change from bootloader mode to firmware mode: ''
                                @ error_str)
                             (progress Cancel w2))
                 | Some (Break, w2) \<Rightarrow>
                     (case wait_for_comcu_bootloader_mode bricklet BOOTLOADER_MODE_FIRMWARE w2 of
                        None \<Rightarrow> None
                      | Some (False, w3) \<Rightarrow>
                          Some (False,
                                popup_fail ''Bricklet''
                                  ''Device did not enter firmware mode in 2.5 seconds''
                                  (progress Cancel w3))
                      | Some (True, w3) \<Rightarrow> Some (True, w3))))))"

section \<open>TNG modules: \<^verbatim>\<open>write_bricklet_plugin_tng\<close>\<close>







section \<open>Writing a UID: \<^verbatim>\<open>uid_save_clicked\<close>\<close>

text \<open>
  \<^verbatim>\<open>BASE58\<close>, \<^verbatim>\<open>base58decode\<close> and \<^verbatim>\<open>base58encode\<close> are imported from
  \<^verbatim>\<open>ip_connection.py\<close>, as are the two UID functions of the connection for classic
  Bricklets. They are parameters; \<^verbatim>\<open>base58decode\<close> may raise.
\<close>

record base58_lib =
  BASE58 :: string
  base58decode :: "string \<Rightarrow> exn + int"
  base58encode :: "int \<Rightarrow> string"

record 'd ipcon =
  write_bricklet_uid :: "string \<Rightarrow> string \<Rightarrow> 'd \<Rightarrow> (exn + unit) \<times> 'd"
  read_bricklet_uid :: "string \<Rightarrow> 'd \<Rightarrow> (exn + string) \<times> 'd"

text \<open>\<^verbatim>\<open>for c in uid: if c not in BASE58\<close>: the first character outside the alphabet.\<close>

fun first_not_base58 :: "base58_lib \<Rightarrow> string \<Rightarrow> char option" where
  "first_not_base58 lib [] = None"
| "first_not_base58 lib (c # cs) =
     (if c \<notin> set (BASE58 lib) then Some c else first_not_base58 lib cs)"

text \<open>\<^verbatim>\<open>read_current_uid\<close>.\<close>

definition read_current_uid :: "base58_lib \<Rightarrow> bool \<Rightarrow> bool \<Rightarrow> 'd bricklet \<Rightarrow> 'd ipcon \<Rightarrow> string
    \<Rightarrow> 'd world \<Rightarrow> (exn + string) \<times> 'd world" where
  "read_current_uid lib has_comcu is_tng bricklet ipc port w =
     (if has_comcu \<or> is_tng then
        (case call (read_uid bricklet) ReadUid w of
           (Inl e, w1) \<Rightarrow> (Inl e, w1)
         | (Inr v, w1) \<Rightarrow> (Inr (base58encode lib v), w1))
      else call (read_bricklet_uid ipc port) (ReadBrickletUid port) w)"

text \<open>
  \<^verbatim>\<open>uid_save_clicked\<close>, for the text \<open>uid\<close> of the edit field. The function returns nothing;
  \<^verbatim>\<open>except Error\<close> lets every other exception through.
\<close>

definition uid_save_clicked :: "base58_lib \<Rightarrow> error_consts \<Rightarrow> bool \<Rightarrow> bool \<Rightarrow> 'd bricklet
    \<Rightarrow> 'd ipcon \<Rightarrow> string \<Rightarrow> string \<Rightarrow> 'd world \<Rightarrow> unit outcome \<times> 'd world" where
  "uid_save_clicked lib ec has_comcu is_tng bricklet ipc port uid w =
     (if length uid = 0 then (Return (), popup_fail ''Bricklet'' ''UID cannot be empty'' w)
      else
     (case first_not_base58 lib uid of
        Some c \<Rightarrow>
          (Return (),
           popup_fail ''Bricklet'' (''UID cannot contain '' @ [CHR 0x27, c, CHR 0x27]) w)
      | None \<Rightarrow>
     (case base58decode lib uid of
        Inl e \<Rightarrow> (Return (), popup_fail ''Bricklet'' ''UID is invalid'' w)
      | Inr v \<Rightarrow>
          if v > 0xFFFFFFFF then (Return (), popup_fail ''Bricklet'' ''UID is too long'' w)
          else
     (case (if has_comcu \<or> is_tng then
              (case base58decode lib uid of
                 Inl e \<Rightarrow> (Inl e, w)
               | Inr v2 \<Rightarrow> call (write_uid bricklet v2) (WriteUid v2) w)
            else call (write_bricklet_uid ipc port uid) (WriteBrickletUid port uid) w) of
        (Inl (Error ev em es), w1) \<Rightarrow>
          (Return (),
           popup_fail ''Bricklet'' (''Could not write UID: '' @ error_to_name ec ev em) w1)
      | (Inl (Exception s), w1) \<Rightarrow> (Raise (Exception s), w1)
      | (Inr u, w1) \<Rightarrow>
     (case read_current_uid lib has_comcu is_tng bricklet ipc port w1 of
        (Inl (Error ev em es), w2) \<Rightarrow>
          (Return (),
           popup_fail ''Bricklet'' (''Could not read written UID: '' @ error_to_name ec ev em) w2)
      | (Inl (Exception s), w2) \<Rightarrow> (Raise (Exception s), w2)
      | (Inr uid_read, w2) \<Rightarrow>
          if uid = uid_read then
            (Return (),
             popup_ok ''Bricklet''
               (''Successfully wrote UID.'' @ [CHR 0x0A]
                  @ ''New UID will be used after reset of the connected Brick.'') w2)
          else
            (Return (),
             popup_fail ''Bricklet'' ''Could not write UID: Verification failed'' w2))))))"

section \<open>Observations on traces\<close>

text \<open>
  The calls that reach a device. \<^verbatim>\<open>set_response_expected\<close> only sets a flag in the binding
  object, so it is not one of them.
\<close>

fun is_device_call :: "event \<Rightarrow> bool" where
  "is_device_call (Progress c) = False"
| "is_device_call (PopupOk t m) = False"
| "is_device_call (PopupFail t m) = False"
| "is_device_call (Sleep ms) = False"
| "is_device_call ProcessEvents = False"
| "is_device_call (Excepthook e) = False"
| "is_device_call (SetResponseExpected f b) = False"
| "is_device_call e = True"

fun is_popup :: "event \<Rightarrow> bool" where
  "is_popup (PopupOk t m) = True"
| "is_popup (PopupFail t m) = True"
| "is_popup e = False"

definition device_calls :: "event list \<Rightarrow> event list" where
  "device_calls es = filter is_device_call es"

definition popups :: "event list \<Rightarrow> event list" where
  "popups es = filter is_popup es"

text \<open>What a run appended to the trace.\<close>

definition new_events :: "'d world \<Rightarrow> 'd world \<Rightarrow> event list" where
  "new_events w w' = drop (length (trace w)) (trace w')"

text \<open>
  The first \<open>m\<close> chunk writes, and the first \<open>m\<close> chunk reads, of the classic protocol when
  each one succeeds: chunk \<open>i\<close> at position \<open>pos + i\<close>.
\<close>

definition ok_writes :: "string \<Rightarrow> nat \<Rightarrow> bytes list \<Rightarrow> nat \<Rightarrow> event list" where
  "ok_writes port pos chunks m =
     map (\<lambda>i. WriteBrickletPlugin port (pos + i) (chunks ! i) (Inr ())) [0..<m]"

definition ok_reads :: "string \<Rightarrow> nat \<Rightarrow> bytes list \<Rightarrow> nat \<Rightarrow> event list" where
  "ok_reads port pos chunks m =
     map (\<lambda>i. ReadBrickletPlugin port (pos + i) (Inr (chunks ! i))) [0..<m]"

fun is_plugin_write :: "event \<Rightarrow> bool" where
  "is_plugin_write (WriteBrickletPlugin port pos chunk r) = True"
| "is_plugin_write e = False"

fun is_plugin_read :: "event \<Rightarrow> bool" where
  "is_plugin_read (ReadBrickletPlugin port pos r) = True"
| "is_plugin_read e = False"

section \<open>Concrete devices, for evaluating the model\<close>

text \<open>
  A Brick that stores the chunks it is given and reads them back, except that the chunk at
  position \<open>bad\<close> reads back empty.
\<close>

definition test_ec :: error_consts where
  "test_ec = \<lparr>TIMEOUT = - 1, NOT_CONNECTED = - 8, INVALID_PARAMETER = - 9, NOT_SUPPORTED = - 10\<rparr>"

definition memory_brick :: "nat option \<Rightarrow> ((nat \<times> bytes) list) brick" where
  "memory_brick bad =
     \<lparr>write_bricklet_plugin = (\<lambda>port pos chunk d. (Inr (), (pos, chunk) # d)),
      read_bricklet_plugin = (\<lambda>port pos d.
        (Inr (if Some pos = bad then [] else (case map_of d pos of Some c \<Rightarrow> c | None \<Rightarrow> [])), d))\<rparr>"

definition brick_world :: "((nat \<times> bytes) list) world" where
  "brick_world = \<lparr>dev = [], trace = []\<rparr>"

definition plugin100 :: bytes where
  "plugin100 = map of_nat [1..<101]"

definition classic_run :: "nat option \<Rightarrow> bool option outcome \<times> ((nat \<times> bytes) list) world" where
  "classic_run bad =
     write_bricklet_plugin_classic test_ec plugin100 (memory_brick bad) ''a'' ''plugin.bin'' brick_world"

text \<open>
  The tries of the bootloader mode loops that did not end the loop, each followed by the
  sleep of 250 ms.
\<close>

definition failed_sets :: "int \<Rightarrow> exn list \<Rightarrow> event list" where
  "failed_sets mode excs = concat (map (\<lambda>e. [SetBootloaderMode mode (Inl e), Sleep 250]) excs)"

definition failed_polls :: "(exn + int) list \<Rightarrow> event list" where
  "failed_polls rs = concat (map (\<lambda>x. [GetBootloaderMode x, Sleep 250]) rs)"

text \<open>A Bricklet that never answers: every call raises the bindings' timeout error.\<close>

definition timeout_error :: exn where
  "timeout_error = Error (- 1) ''Did not receive response in time'' ''Did not receive response in time (-1)''"

definition dead_bricklet :: "unit bricklet" where
  "dead_bricklet =
     \<lparr>set_bootloader_mode = (\<lambda>m d. (Inl timeout_error, d)),
      get_bootloader_mode = (\<lambda>d. (Inl timeout_error, d)),
      set_write_firmware_pointer = (\<lambda>p d. (Inl timeout_error, d)),
      write_firmware = (\<lambda>data d. (Inl timeout_error, d)),
      copy_firmware = (\<lambda>d. (Inl timeout_error, d)),
      reset = (\<lambda>d. (Inl timeout_error, d)),
      write_uid = (\<lambda>v d. (Inl timeout_error, d)),
      read_uid = (\<lambda>d. (Inl timeout_error, d))\<rparr>"

definition dead_world :: "unit world" where
  "dead_world = \<lparr>dev = (), trace = []\<rparr>"

text \<open>
  A simulated co-processor Bricklet. It answers every call; whether it changes mode when asked,
  and which status its next requests for firmware mode return, is part of its state.
\<close>

record sim =
  sim_mode :: int
  sim_enters_bootloader :: bool
  sim_fw_status :: "int list"
  sim_enters_firmware :: bool
  sim_pointer :: nat
  sim_flash :: "(nat \<times> bytes) list"
  sim_copy_status :: int
  sim_uid :: int

definition sim_bricklet :: "sim bricklet" where
  "sim_bricklet =
     \<lparr>set_bootloader_mode = (\<lambda>m d.
        if m = BOOTLOADER_MODE_BOOTLOADER then
          (Inr 0, if sim_enters_bootloader d then d\<lparr>sim_mode := 0\<rparr> else d)
        else
          (case sim_fw_status d of
             [] \<Rightarrow> (Inr 0, if sim_enters_firmware d then d\<lparr>sim_mode := 1\<rparr> else d)
           | s # ss \<Rightarrow>
               (Inr s, (if (s = 0 \<or> s = 2) \<and> sim_enters_firmware d then d\<lparr>sim_mode := 1\<rparr> else d)
                         \<lparr>sim_fw_status := ss\<rparr>))),
      get_bootloader_mode = (\<lambda>d. (Inr (sim_mode d), d)),
      set_write_firmware_pointer = (\<lambda>p d. (Inr (), d\<lparr>sim_pointer := p\<rparr>)),
      write_firmware = (\<lambda>data d. (Inr 0, d\<lparr>sim_flash := sim_flash d @ [(sim_pointer d, data)]\<rparr>)),
      copy_firmware = (\<lambda>d. (Inr (sim_copy_status d), d)),
      reset = (\<lambda>d. (Inr (), d)),
      write_uid = (\<lambda>v d. (Inr (), d\<lparr>sim_uid := v\<rparr>)),
      read_uid = (\<lambda>d. (Inr (sim_uid d), d))\<rparr>"

definition sim0 :: sim where
  "sim0 = \<lparr>sim_mode = 1, sim_enters_bootloader = True, sim_fw_status = [],
           sim_enters_firmware = True, sim_pointer = 0, sim_flash = [], sim_copy_status = 0,
           sim_uid = 0\<rparr>"

definition sim_world :: "sim \<Rightarrow> sim world" where
  "sim_world d = \<lparr>dev = d, trace = []\<rparr>"

definition stuck_sim :: sim where
  "stuck_sim = sim0\<lparr>sim_enters_bootloader := False\<rparr>"

fun bw :: "nat option \<Rightarrow> event list \<Rightarrow> (nat \<times> bytes) list" where
  "bw p [] = []"
| "bw p (SetWriteFirmwarePointer q (Inr u) # es) = bw (Some q) es"
| "bw p (WriteFirmware data (Inr status) # es) =
     (case p of Some q \<Rightarrow> [(q, data)] | None \<Rightarrow> []) @ bw p es"
| "bw p (e # es) = bw p es"

definition block_writes :: "event list \<Rightarrow> (nat \<times> bytes) list" where
  "block_writes es = bw None es"

definition page_writes :: "bytes \<Rightarrow> nat \<Rightarrow> (nat \<times> bytes) list" where
  "page_writes plugin position =
     map (\<lambda>block_offset. (position + block_offset,
                            py_slice plugin (position + block_offset) (position + block_offset + 64)))
       [0, 64, 128, 192]"

fun is_write_event :: "event \<Rightarrow> bool" where
  "is_write_event (SetWriteFirmwarePointer q r) = True"
| "is_write_event (WriteFirmware data r) = True"
| "is_write_event e = False"

fun is_mode_event :: "event \<Rightarrow> bool" where
  "is_mode_event (SetBootloaderMode m r) = True"
| "is_mode_event (GetBootloaderMode r) = True"
| "is_mode_event e = False"

function pages_to_write :: "bytes \<Rightarrow> bool \<Rightarrow> nat \<Rightarrow> nat \<Rightarrow> nat list" where
  "pages_to_write plugin allow_skipping position skipped_pages =
     (if position < length plugin then
        if allow_skipping \<and> skipped_pages < MAX_SKIPPED_PAGES
           \<and> length plugin - position > XMC1_PAGE_SIZE
           \<and> list_all (\<lambda>b. b = 0) (py_slice plugin position (position + XMC1_PAGE_SIZE))
        then pages_to_write plugin allow_skipping (position + XMC1_PAGE_SIZE) (skipped_pages + 1)
        else position # pages_to_write plugin allow_skipping (position + XMC1_PAGE_SIZE) 0
      else [])"
  by pat_completeness auto
termination
  by (relation "measure (\<lambda>(plugin, allow_skipping, position, skipped_pages).
        length plugin - position)")
     (auto simp: XMC1_PAGE_SIZE_def)

definition planned_writes :: "bytes \<Rightarrow> bool \<Rightarrow> nat \<Rightarrow> nat \<Rightarrow> (nat \<times> bytes) list" where
  "planned_writes plugin allow_skipping position skipped_pages =
     concat (map (page_writes plugin) (pages_to_write plugin allow_skipping position skipped_pages))"

definition skips_page :: "bytes \<Rightarrow> bool \<Rightarrow> nat \<Rightarrow> nat \<Rightarrow> bool" where
  "skips_page plugin allow_skipping position skipped_pages =
     (allow_skipping \<and> skipped_pages < MAX_SKIPPED_PAGES
      \<and> length plugin - position > XMC1_PAGE_SIZE
      \<and> list_all (\<lambda>b. b = 0) (py_slice plugin position (position + XMC1_PAGE_SIZE)))"

fun fw_replies :: "event list \<Rightarrow> int list" where
  "fw_replies [] = []"
| "fw_replies (SetBootloaderMode m (Inr s) # es) =
     (if m = BOOTLOADER_MODE_FIRMWARE then s # fw_replies es else fw_replies es)"
| "fw_replies (e # es) = fw_replies es"

definition quiet :: "event list \<Rightarrow> bool" where
  "quiet es = ((\<forall>e \<in> set es. \<not> is_write_event e) \<and> fw_replies es = [] \<and> popups es = [])"

definition confirmation :: "bool \<Rightarrow> (exn + int) list \<Rightarrow> exn + int \<Rightarrow> event list" where
  "confirmation ok rs last_res =
     failed_polls rs @ [GetBootloaderMode last_res]
     @ (if ok then []
        else [Progress Cancel,
              PopupFail ''Bricklet'' ''Device did not enter firmware mode in 2.5 seconds''])"

definition starting :: "event list" where
  "starting = [Progress (SetLabelText ''Starting bootloader mode''), Progress (SetMaximum 0),
               Progress (SetValue 0), Progress Show]"

definition crc_failure :: "event list" where
  "crc_failure =
     [Progress Cancel,
      PopupFail ''Bricklet''
        ''Could not change from bootloader mode to firmware mode: CRC Mismatch (Error 5)'']"

definition whole_image :: "bytes \<Rightarrow> (nat \<times> bytes) list" where
  "whole_image plugin =
     concat (map (\<lambda>k. page_writes plugin (256 * k)) [0..<length plugin div 256])"

text \<open>
  A Bricklet that cooperates, as long as its state satisfies \<open>good\<close>: it answers every call,
  it is in bootloader mode after a request for bootloader mode, it is in firmware mode after
  it answered a request for firmware mode with 0 or 2, it reports the mode it is in
  (\<open>mode\<close>), and writing does not change its mode.
\<close>

definition cooperating :: "'d bricklet \<Rightarrow> ('d \<Rightarrow> bool) \<Rightarrow> ('d \<Rightarrow> int) \<Rightarrow> bool" where
  "cooperating bricklet good mode =
     ((\<forall>d. good d \<longrightarrow>
         (\<exists>s d'. set_bootloader_mode bricklet BOOTLOADER_MODE_BOOTLOADER d = (Inr s, d')
            \<and> good d' \<and> mode d' = BOOTLOADER_MODE_BOOTLOADER))
    \<and> (\<forall>d. good d \<longrightarrow>
         (\<exists>s d'. set_bootloader_mode bricklet BOOTLOADER_MODE_FIRMWARE d = (Inr s, d')
            \<and> good d' \<and> (s = 0 \<or> s = 2 \<longrightarrow> mode d' = BOOTLOADER_MODE_FIRMWARE)))
    \<and> (\<forall>d. good d \<longrightarrow>
         (\<exists>d'. get_bootloader_mode bricklet d = (Inr (mode d), d')
            \<and> good d' \<and> mode d' = mode d))
    \<and> (\<forall>p d. good d \<longrightarrow>
         (\<exists>d'. set_write_firmware_pointer bricklet p d = (Inr (), d')
            \<and> good d' \<and> mode d' = mode d))
    \<and> (\<forall>data d. good d \<longrightarrow>
         (\<exists>s d'. write_firmware bricklet data d = (Inr s, d')
            \<and> good d' \<and> mode d' = mode d)))"

text \<open>The magic number \<^verbatim>\<open>0x78 0x56 0x34 0x12\<close> lies in the image with its last byte at \<open>i\<close>.\<close>

definition magic_ends_at :: "bytes \<Rightarrow> nat \<Rightarrow> bool" where
  "magic_ends_at plugin i =
     (plugin ! i = 0x12 \<and> plugin ! (i - 1) = 0x34 \<and> plugin ! (i - 2) = 0x56
      \<and> plugin ! (i - 3) = 0x78)"

text \<open>
  A firmware image of one page that holds the magic number, an archive that holds an image,
  and the states in which the simulated Bricklet changes its mode when asked.
\<close>

definition magic_page :: bytes where
  "magic_page = replicate 240 1 @ [0x78, 0x56, 0x34, 0x12] @ replicate 12 0"

definition test_zip :: "bytes \<Rightarrow> zipfile" where
  "test_zip img = ZipFile [''readme.txt'', ''bricklet_firmware.bin''] (\<lambda>n. Inr img)"

definition sim_follows :: "sim \<Rightarrow> bool" where
  "sim_follows d = (sim_enters_bootloader d \<and> sim_enters_firmware d)"

definition crc_sim :: sim where
  "crc_sim = sim0\<lparr>sim_fw_status := [5, 5]\<rparr>"

text \<open>A page of zeros: an image without the magic number.\<close>

definition zero_page :: bytes where
  "zero_page = replicate 256 0"



section \<open>Traces of the classic protocol\<close>

lemma trace_emit [simp]: "trace (emit e w) = trace w @ [e]"
  by (simp add: emit_def)

lemma dev_emit [simp]: "dev (emit e w) = dev w"
  by (simp add: emit_def)

lemmas ui_defs = progress_def popup_ok_def popup_fail_def sleep_def process_events_def

lemma call_trace: "call f ev w = (r, w') \<Longrightarrow> trace w' = trace w @ [ev r]"
  by (auto simp: call_def split: prod.splits)

lemma device_calls_append [simp]: "device_calls (xs @ ys) = device_calls xs @ device_calls ys"
  by (simp add: device_calls_def)

lemma popups_append [simp]: "popups (xs @ ys) = popups xs @ popups ys"
  by (simp add: popups_def)

lemma device_calls_Cons [simp]:
  "device_calls (e # es) = (if is_device_call e then e # device_calls es else device_calls es)"
  by (simp add: device_calls_def)

lemma popups_Cons [simp]:
  "popups (e # es) = (if is_popup e then e # popups es else popups es)"
  by (simp add: popups_def)

lemma device_calls_Nil [simp]: "device_calls [] = []"
  by (simp add: device_calls_def)

lemma popups_Nil [simp]: "popups [] = []"
  by (simp add: popups_def)

lemma new_events_append: "trace w' = trace w @ es \<Longrightarrow> new_events w w' = es"
  by (simp add: new_events_def)

lemma ok_writes_Suc:
  "ok_writes port pos (c # cs) (Suc m) =
     WriteBrickletPlugin port pos c (Inr ()) # ok_writes port (Suc pos) cs m"
  by (simp add: ok_writes_def map_upt_Suc del: upt_Suc)

lemma ok_reads_Suc:
  "ok_reads port pos (c # cs) (Suc m) =
     ReadBrickletPlugin port pos (Inr c) # ok_reads port (Suc pos) cs m"
  by (simp add: ok_reads_def map_upt_Suc del: upt_Suc)

lemma classic_write_loop_trace:
  "classic_write_loop ec brick port chunks pos w = (r, w') \<Longrightarrow>
   \<exists>es m. trace w' = trace w @ es \<and> m \<le> length chunks \<and> (r \<noteq> Some (Return (Some False)) \<longrightarrow> popups es = []) \<and>
     (case r of
        None \<Rightarrow> m = length chunks \<and> device_calls es = ok_writes port pos chunks m
      | Some x \<Rightarrow> m < length chunks \<and> x \<noteq> Return (Some True) \<and>
          (\<exists>e. device_calls es =
                 ok_writes port pos chunks m @ [WriteBrickletPlugin port (pos + m) (chunks ! m) (Inl e)]))"
proof (induction chunks arbitrary: pos w)
  case Nil
  then show ?case by (auto simp: ok_writes_def)
next
  case (Cons chunk chunks)
  obtain res w1 where c: "call (write_bricklet_plugin brick port pos chunk)
      (WriteBrickletPlugin port pos chunk) w = (res, w1)"
    by (cases "call (write_bricklet_plugin brick port pos chunk)
      (WriteBrickletPlugin port pos chunk) w") auto
  have t1: "trace w1 = trace w @ [WriteBrickletPlugin port pos chunk res]"
    using call_trace[OF c] .
  show ?case
  proof (cases res)
    case (Inl e)
    show ?thesis
    proof (cases e)
      case (Error v m s)
      with Inl c Cons.prems t1 show ?thesis
        by (intro exI[of _ "[WriteBrickletPlugin port pos chunk res, Progress Cancel,
              PopupFail ''Bricklet'' (''Could not write Bricklet plugin: '' @ error_to_name ec v m)]"]
            exI[of _ 0])
           (auto simp: ui_defs ok_writes_def)
    next
      case (Exception s)
      with Inl c Cons.prems t1 show ?thesis
        by (intro exI[of _ "[WriteBrickletPlugin port pos chunk res]"] exI[of _ 0])
           (auto simp: ui_defs ok_writes_def)
    qed
  next
    case (Inr u)
    let ?w2 = "process_events (sleep 15 (progress (SetValue (pos + 1)) w1))"
    from Inr c Cons.prems have rec: "classic_write_loop ec brick port chunks (pos + 1) ?w2 = (r, w')"
      by simp
    from Cons.IH[OF rec] obtain es m where
      es: "trace w' = trace ?w2 @ es" and m: "m \<le> length chunks"
      and pp: "(r \<noteq> Some (Return (Some False)) \<longrightarrow> popups es = [])"
      and st: "(case r of
        None \<Rightarrow> m = length chunks \<and> device_calls es = ok_writes port (pos + 1) chunks m
      | Some x \<Rightarrow> m < length chunks \<and> x \<noteq> Return (Some True) \<and>
          (\<exists>e. device_calls es =
                 ok_writes port (pos + 1) chunks m @ [WriteBrickletPlugin port (pos + 1 + m) (chunks ! m) (Inl e)]))"
      by blast
    let ?es = "[WriteBrickletPlugin port pos chunk (Inr ()), Progress (SetValue (pos + 1)), Sleep 15, ProcessEvents] @ es"
    have "trace w' = trace w @ ?es"
      using es t1 Inr by (simp add: ui_defs)
    moreover have "Suc m \<le> length (chunk # chunks)" using m by simp
    moreover have "(r \<noteq> Some (Return (Some False)) \<longrightarrow> popups ?es = [])"
      using pp by simp
    moreover have "(case r of
        None \<Rightarrow> Suc m = length (chunk # chunks) \<and> device_calls ?es = ok_writes port pos (chunk # chunks) (Suc m)
      | Some x \<Rightarrow> Suc m < length (chunk # chunks) \<and> x \<noteq> Return (Some True) \<and>
          (\<exists>e. device_calls ?es =
                 ok_writes port pos (chunk # chunks) (Suc m) @ [WriteBrickletPlugin port (pos + Suc m) ((chunk # chunks) ! Suc m) (Inl e)]))"
      using st by (auto simp: ok_writes_Suc split: option.splits)
    ultimately show ?thesis by blast
  qed
qed

lemma classic_verify_loop_trace:
  "classic_verify_loop ec brick port chunks pos w = (r, w') \<Longrightarrow>
   \<exists>es m. trace w' = trace w @ es \<and> m \<le> length chunks \<and>
     (case r of
        None \<Rightarrow> m = length chunks \<and> device_calls es = ok_reads port pos chunks m \<and> popups es = []
      | Some x \<Rightarrow> m < length chunks \<and> x \<noteq> Return (Some True) \<and>
          (\<exists>res. device_calls es = ok_reads port pos chunks m @ [ReadBrickletPlugin port (pos + m) res]
             \<and> (\<forall>rc. res = Inr rc \<longrightarrow> rc \<noteq> chunks ! m \<and> x = Return (Some False) \<and>
                   popups es = [PopupFail ''Bricklet''
                     ''Could not flash Bricklet plugin: Verification error''])))"
proof (induction chunks arbitrary: pos w)
  case Nil
  then show ?case by (auto simp: ok_reads_def)
next
  case (Cons chunk chunks)
  obtain res w1 where c: "call (read_bricklet_plugin brick port pos)
      (ReadBrickletPlugin port pos) w = (res, w1)"
    by (cases "call (read_bricklet_plugin brick port pos) (ReadBrickletPlugin port pos) w") auto
  have t1: "trace w1 = trace w @ [ReadBrickletPlugin port pos res]"
    using call_trace[OF c] .
  show ?case
  proof (cases res)
    case (Inl e)
    show ?thesis
    proof (cases e)
      case (Error v m s)
      with Inl c Cons.prems t1 show ?thesis
        by (intro exI[of _ "[ReadBrickletPlugin port pos res, Progress Cancel,
              PopupFail ''Bricklet'' (''Could not read Bricklet plugin back for verification: ''
                 @ error_to_name ec v m)]"]
            exI[of _ 0])
           (auto simp: ui_defs ok_reads_def)
    next
      case (Exception s)
      with Inl c Cons.prems t1 show ?thesis
        by (intro exI[of _ "[ReadBrickletPlugin port pos res]"] exI[of _ 0])
           (auto simp: ui_defs ok_reads_def)
    qed
  next
    case (Inr read_chunk)
    show ?thesis
    proof (cases "read_chunk = chunk")
      case False
      with Inr c Cons.prems t1 show ?thesis
        by (intro exI[of _ "[ReadBrickletPlugin port pos res, Progress Cancel,
              PopupFail ''Bricklet'' ''Could not flash Bricklet plugin: Verification error'']"]
            exI[of _ 0])
           (auto simp: ui_defs ok_reads_def)
    next
      case True
      let ?w2 = "process_events (sleep 15 (progress (SetValue (pos + 1)) w1))"
      from True Inr c Cons.prems
      have rec: "classic_verify_loop ec brick port chunks (pos + 1) ?w2 = (r, w')"
        by simp
      from Cons.IH[OF rec] obtain es m where
        es: "trace w' = trace ?w2 @ es" and m: "m \<le> length chunks"
        and st: "(case r of
          None \<Rightarrow> m = length chunks \<and> device_calls es = ok_reads port (pos + 1) chunks m
                   \<and> popups es = []
        | Some x \<Rightarrow> m < length chunks \<and> x \<noteq> Return (Some True) \<and>
            (\<exists>res. device_calls es =
                ok_reads port (pos + 1) chunks m @ [ReadBrickletPlugin port (pos + 1 + m) res]
             \<and> (\<forall>rc. res = Inr rc \<longrightarrow> rc \<noteq> chunks ! m \<and> x = Return (Some False) \<and>
                   popups es = [PopupFail ''Bricklet''
                     ''Could not flash Bricklet plugin: Verification error''])))"
        by blast
      let ?es = "[ReadBrickletPlugin port pos (Inr chunk), Progress (SetValue (pos + 1)),
                  Sleep 15, ProcessEvents] @ es"
      have "trace w' = trace w @ ?es"
        using es t1 Inr True by (simp add: ui_defs)
      moreover have "Suc m \<le> length (chunk # chunks)" using m by simp
      moreover have "(case r of
          None \<Rightarrow> Suc m = length (chunk # chunks)
                   \<and> device_calls ?es = ok_reads port pos (chunk # chunks) (Suc m)
                   \<and> popups ?es = []
        | Some x \<Rightarrow> Suc m < length (chunk # chunks) \<and> x \<noteq> Return (Some True) \<and>
            (\<exists>res. device_calls ?es =
                ok_reads port pos (chunk # chunks) (Suc m)
                  @ [ReadBrickletPlugin port (pos + Suc m) res]
             \<and> (\<forall>rc. res = Inr rc \<longrightarrow> rc \<noteq> (chunk # chunks) ! Suc m \<and> x = Return (Some False) \<and>
                   popups ?es = [PopupFail ''Bricklet''
                     ''Could not flash Bricklet plugin: Verification error''])))"
        using st by (auto simp: ok_reads_Suc split: option.splits)
      ultimately show ?thesis by blast
    qed
  qed
qed

lemma pad_chunk:
  "(if length (take 32 (drop offset plugin)) < 32
    then take 32 (drop offset plugin) @ replicate (32 - length (take 32 (drop offset plugin))) (0::byte)
    else take 32 (drop offset plugin)) = take 32 (drop offset plugin @ replicate 32 0)"
  by (cases "length plugin - offset < 32") (simp_all add: min_def)

lemma split_chunks_step:
  "offset < length plugin \<Longrightarrow>
   split_chunks plugin offset acc =
     split_chunks plugin (offset + 32) (acc @ [take 32 (drop offset plugin @ replicate 32 0)])"
  apply (subst split_chunks.simps)
  apply (simp only: Let_def plugin_chunk_size_def py_slice_def if_True add_diff_cancel_left')
  apply (simp only: pad_chunk)
  done

lemma split_chunks_stop:
  "\<not> offset < length plugin \<Longrightarrow> split_chunks plugin offset acc = acc"
  by (subst split_chunks.simps) simp

lemma div32_add32: "((m::nat) + 32) div 32 = Suc (m div 32)"
  by simp

lemma ceil_step: "0 < n \<Longrightarrow> Suc ((n - 32 + 31) div 32) = (n + 31) div (32::nat)"
proof (cases "n < 32")
  case True
  assume "0 < n"
  with True have "(n + 31) div 32 = 1"
    by (intro div_nat_eqI) auto
  with True show ?thesis by simp
next
  case False
  then have e: "n + 31 = (n - 32 + 31) + 32" by simp
  show ?thesis by (subst e) (simp only: div32_add32)
qed

lemma ceil_step_offset: "offset < L \<Longrightarrow> Suc ((L - (offset + 32) + 31) div 32) = (L - offset + 31) div (32::nat)"
  using ceil_step[of "L - offset"] by (simp add: diff_diff_eq)

lemma split_chunks_length:
  "length (split_chunks plugin offset acc) = length acc + (length plugin - offset + 31) div 32"
proof (induction "length plugin - offset" arbitrary: offset acc rule: less_induct)
  case less
  show ?case
  proof (cases "offset < length plugin")
    case True
    have lt: "length plugin - (offset + 32) < length plugin - offset" using True by simp
    have ar: "Suc ((length plugin - (offset + 32) + 31) div 32) = (length plugin - offset + 31) div 32"
      using True by (rule ceil_step_offset)
    from less[OF lt] ar show ?thesis
      by (simp add: split_chunks_step[OF True])
  next
    case False
    then show ?thesis by (simp add: split_chunks_stop)
  qed
qed

lemma split_chunks_all_32:
  "\<forall>c \<in> set acc. length c = 32 \<Longrightarrow> \<forall>c \<in> set (split_chunks plugin offset acc). length c = 32"
proof (induction "length plugin - offset" arbitrary: offset acc rule: less_induct)
  case less
  show ?case
  proof (cases "offset < length plugin")
    case True
    have lt: "length plugin - (offset + 32) < length plugin - offset" using True by simp
    have "\<forall>c \<in> set (acc @ [take 32 (drop offset plugin @ replicate 32 0)]). length c = 32"
      using less.prems by auto
    from less.hyps[OF lt this] show ?thesis
      by (simp only: split_chunks_step[OF True])
  next
    case False
    with less.prems show ?thesis by (simp add: split_chunks_stop)
  qed
qed

lemma split_chunks_concat:
  "concat (split_chunks plugin offset acc) =
     concat acc @ drop offset plugin @ replicate ((32 - (length plugin - offset) mod 32) mod 32) 0"
proof (induction "length plugin - offset" arbitrary: offset acc rule: less_induct)
  case less
  show ?case
  proof (cases "offset < length plugin")
    case True
    have lt: "length plugin - (offset + 32) < length plugin - offset" using True by simp
    note IH = less.hyps[OF lt, of "acc @ [take 32 (drop offset plugin @ replicate 32 0)]"]
    show ?thesis
    proof (cases "length plugin - offset < 32")
      case short: True
      have a: "(32 - (length plugin - offset) mod 32) mod 32 = 32 - (length plugin - offset)"
        using short True by simp
      have b: "drop (offset + 32) plugin = []" using short by simp
      have c: "(length plugin - (offset + 32)) = 0" using short by simp
      have t: "take 32 (drop offset plugin @ replicate 32 0)
                 = drop offset plugin @ replicate (32 - (length plugin - offset)) 0"
        using short by simp
      have "concat (split_chunks plugin offset acc) =
              concat (split_chunks plugin (offset + 32) (acc @ [take 32 (drop offset plugin @ replicate 32 0)]))"
        by (simp only: split_chunks_step[OF True])
      also have "\<dots> = concat (acc @ [take 32 (drop offset plugin @ replicate 32 0)])"
        using short by (simp add: split_chunks_stop)
      finally show ?thesis using short True by (simp add: t a)
    next
      case long: False
      have m: "(length plugin - (offset + 32)) mod 32 = (length plugin - offset) mod 32"
      proof -
        have "length plugin - offset = (length plugin - (offset + 32)) + 32" using long by simp
        then show ?thesis by (metis mod_add_self2)
      qed
      have d: "take 32 (drop offset plugin) @ drop (offset + 32) plugin = drop offset plugin"
        by (metis add.commute append_take_drop_id drop_drop)
      have t: "take 32 (drop offset plugin @ replicate 32 0) = take 32 (drop offset plugin)"
        using long by simp
      have "concat (split_chunks plugin offset acc) =
              concat (split_chunks plugin (offset + 32) (acc @ [take 32 (drop offset plugin @ replicate 32 0)]))"
        by (simp only: split_chunks_step[OF True])
      also have "\<dots> = concat (acc @ [take 32 (drop offset plugin)]) @ drop (offset + 32) plugin
            @ replicate ((32 - (length plugin - offset) mod 32) mod 32) 0"
        by (simp only: t less.hyps[OF lt] m)
      also have "\<dots> = concat acc @ (take 32 (drop offset plugin) @ drop (offset + 32) plugin)
            @ replicate ((32 - (length plugin - offset) mod 32) mod 32) 0"
        by simp
      finally show ?thesis by (simp only: d)
    qed
  next
    case False
    then show ?thesis by (simp add: split_chunks_stop)
  qed
qed

lemma ok_writes_0 [simp]: "ok_writes port pos chunks 0 = []"
  by (simp add: ok_writes_def)

lemma ok_reads_0 [simp]: "ok_reads port pos chunks 0 = []"
  by (simp add: ok_reads_def)

lemma classic_run_cases:
  assumes len: "length plugin \<le> 4084"
    and run: "write_bricklet_plugin_classic ec plugin brick port name w = (r, w')"
  shows "(\<exists>m e. m < length (split_chunks plugin 0 []) \<and> r \<noteq> Return (Some True) \<and>
            device_calls (new_events w w') =
              ok_writes port 0 (split_chunks plugin 0 []) m
              @ [WriteBrickletPlugin port m (split_chunks plugin 0 [] ! m) (Inl e)])
       \<or> (\<exists>m res. m < length (split_chunks plugin 0 []) \<and> r \<noteq> Return (Some True) \<and>
            device_calls (new_events w w') =
              ok_writes port 0 (split_chunks plugin 0 []) (length (split_chunks plugin 0 []))
              @ ok_reads port 0 (split_chunks plugin 0 []) m
              @ [ReadBrickletPlugin port m res] \<and>
            (\<forall>rc. res = Inr rc \<longrightarrow> rc \<noteq> split_chunks plugin 0 [] ! m \<and> r = Return (Some False) \<and>
               popups (new_events w w') = [PopupFail ''Bricklet''
                     ''Could not flash Bricklet plugin: Verification error'']))
       \<or> (r = Return (Some True) \<and> popups (new_events w w') = [] \<and>
            device_calls (new_events w w') =
              ok_writes port 0 (split_chunks plugin 0 []) (length (split_chunks plugin 0 []))
              @ ok_reads port 0 (split_chunks plugin 0 []) (length (split_chunks plugin 0 [])))"
proof -
  let ?chunks = "split_chunks plugin 0 []"
  let ?w3 = "progress (SetMaximum (length ?chunks))
     (emit (SetResponseExpected FUNCTION_WRITE_BRICKLET_PLUGIN True)
       (progress Show (progress (SetValue 0) (progress (SetMaximum 0)
                    (progress (SetLabelText (''Writing plugin: '' @ name)) w)))))"
  let ?pre = "[Progress (SetLabelText (''Writing plugin: '' @ name)), Progress (SetMaximum 0),
     Progress (SetValue 0), Progress Show, SetResponseExpected FUNCTION_WRITE_BRICKLET_PLUGIN True,
     Progress (SetMaximum (length ?chunks))]"
  have t3: "trace ?w3 = trace w @ ?pre" by (simp add: ui_defs)
  obtain rw w4 where wl: "classic_write_loop ec brick port ?chunks 0 ?w3 = (rw, w4)"
    by (cases "classic_write_loop ec brick port ?chunks 0 ?w3") auto
  from classic_write_loop_trace[OF wl] obtain esw mw where
    t4: "trace w4 = trace ?w3 @ esw" and mw: "mw \<le> length ?chunks"
    and pw: "rw \<noteq> Some (Return (Some False)) \<longrightarrow> popups esw = []"
    and sw: "(case rw of
        None \<Rightarrow> mw = length ?chunks \<and> device_calls esw = ok_writes port 0 ?chunks mw
      | Some x \<Rightarrow> mw < length ?chunks \<and> x \<noteq> Return (Some True) \<and>
          (\<exists>e. device_calls esw =
                 ok_writes port 0 ?chunks mw @ [WriteBrickletPlugin port (0 + mw) (?chunks ! mw) (Inl e)]))"
    by blast
  show ?thesis
  proof (cases rw)
    case (Some x)
    with run len wl have "r = x" "w' = w4"
      by (auto simp: write_bricklet_plugin_classic_def Let_def)
    with t4 t3 have ne: "new_events w w' = ?pre @ esw"
      by (simp add: new_events_def)
    from sw Some obtain e where "mw < length ?chunks" "x \<noteq> Return (Some True)"
      "device_calls esw = ok_writes port 0 ?chunks mw @ [WriteBrickletPlugin port mw (?chunks ! mw) (Inl e)]"
      by auto
    with ne \<open>r = x\<close> show ?thesis
      by (intro disjI1 exI[of _ mw] exI[of _ e]) (simp add: ui_defs)
  next
    case None
    let ?w7 = "sleep 100 (progress Show (progress (SetValue 0)
                             (progress (SetMaximum (length ?chunks))
                               (progress (SetLabelText (''Verifying written plugin: '' @ name))
                                  (sleep 100 w4)))))"
    let ?mid = "[Sleep 100, Progress (SetLabelText (''Verifying written plugin: '' @ name)),
        Progress (SetMaximum (length ?chunks)), Progress (SetValue 0), Progress Show, Sleep 100]"
    have t7: "trace ?w7 = trace w4 @ ?mid" by (simp add: ui_defs)
    obtain rv w8 where vl: "classic_verify_loop ec brick port ?chunks 0 ?w7 = (rv, w8)"
      by (cases "classic_verify_loop ec brick port ?chunks 0 ?w7") auto
    from classic_verify_loop_trace[OF vl] obtain esv mv where
      t8: "trace w8 = trace ?w7 @ esv" and mv: "mv \<le> length ?chunks"
      and sv: "(case rv of
        None \<Rightarrow> mv = length ?chunks \<and> device_calls esv = ok_reads port 0 ?chunks mv \<and> popups esv = []
      | Some x \<Rightarrow> mv < length ?chunks \<and> x \<noteq> Return (Some True) \<and>
          (\<exists>res. device_calls esv = ok_reads port 0 ?chunks mv @ [ReadBrickletPlugin port (0 + mv) res]
             \<and> (\<forall>rc. res = Inr rc \<longrightarrow> rc \<noteq> ?chunks ! mv \<and> x = Return (Some False) \<and>
                   popups esv = [PopupFail ''Bricklet''
                     ''Could not flash Bricklet plugin: Verification error''])))"
      by blast
    from None sw pw have dw: "device_calls esw = ok_writes port 0 ?chunks (length ?chunks)"
      and pw0: "popups esw = []" by auto
    have w'eq: "w' = w8" and req: "r = (case rv of Some x \<Rightarrow> x | None \<Rightarrow> Return (Some True))"
      using run len wl vl None
      by (auto simp: write_bricklet_plugin_classic_def Let_def split: option.splits)
    from t8 t7 t4 t3 w'eq have ne: "new_events w w' = ?pre @ esw @ ?mid @ esv"
      by (simp add: new_events_def)
    have dc: "device_calls (new_events w w') = ok_writes port 0 ?chunks (length ?chunks) @ device_calls esv"
      unfolding ne using dw by (simp add: ui_defs)
    have pp: "popups (new_events w w') = popups esv"
      unfolding ne using pw0 by (simp add: ui_defs)
    show ?thesis
    proof (cases rv)
      case rvNone: None
      with sv req dc pp show ?thesis by auto
    next
      case (Some x)
      with sv obtain res where "mv < length ?chunks" "x \<noteq> Return (Some True)"
        "device_calls esv = ok_reads port 0 ?chunks mv @ [ReadBrickletPlugin port mv res]"
        "\<forall>rc. res = Inr rc \<longrightarrow> rc \<noteq> ?chunks ! mv \<and> x = Return (Some False) \<and>
                   popups esv = [PopupFail ''Bricklet''
                     ''Could not flash Bricklet plugin: Verification error'']"
        by auto
      with Some req dc pp show ?thesis
        by (intro disjI2 disjI1 exI[of _ mv] exI[of _ res]) simp
    qed
  qed
qed

lemma filter_write_device_calls: "filter is_plugin_write (device_calls es) = filter is_plugin_write es"
  by (induction es) (auto elim: is_plugin_write.elims)

lemma filter_read_device_calls: "filter is_plugin_read (device_calls es) = filter is_plugin_read es"
  by (induction es) (auto elim: is_plugin_read.elims)

lemma filter_ok_writes [simp]:
  "filter is_plugin_write (ok_writes port pos chunks m) = ok_writes port pos chunks m"
  "filter is_plugin_read (ok_writes port pos chunks m) = []"
  by (simp_all add: ok_writes_def filter_map comp_def)

lemma filter_ok_reads [simp]:
  "filter is_plugin_read (ok_reads port pos chunks m) = ok_reads port pos chunks m"
  "filter is_plugin_write (ok_reads port pos chunks m) = []"
  by (simp_all add: ok_reads_def filter_map comp_def)

lemma length_ok [simp]:
  "length (ok_writes port pos chunks m) = m" "length (ok_reads port pos chunks m) = m"
  by (simp_all add: ok_writes_def ok_reads_def)

section \<open>Claims on classic Bricklets\<close>

text \<open>
  Claim C3. A plugin longer than 4084 bytes is refused at once: the function cancels the
  progress dialog, reports the size limit and returns (Python's \<^verbatim>\<open>None\<close>, which the caller
  takes as failure). Nothing else happens: no call reaches a device, so no chunk is written.
\<close>

theorem classic_size_limit_before_any_write:
  assumes "length plugin > 4084"
  shows "fst (write_bricklet_plugin_classic ec plugin brick port name w) = Return None
       \<and> dev (snd (write_bricklet_plugin_classic ec plugin brick port name w)) = dev w
       \<and> new_events w (snd (write_bricklet_plugin_classic ec plugin brick port name w)) =
           [Progress Cancel,
            PopupFail ''Bricklet''
              ''Could not write Bricklet plugin: Plugin is larger than 4084 bytes (the maximum plugin size for classic Bricklets).'']
       \<and> device_calls
            (new_events w (snd (write_bricklet_plugin_classic ec plugin brick port name w))) = []"
  using assms by (simp add: write_bricklet_plugin_classic_def ui_defs new_events_def)

theorem classic_size_limit_before_any_write_witness:
  "length (replicate 4085 (0::byte)) > 4084
   \<and> fst (write_bricklet_plugin_classic test_ec (replicate 4085 0) (memory_brick None) ''a''
          ''plugin.bin'' brick_world) = Return None
   \<and> device_calls (new_events brick_world
        (snd (write_bricklet_plugin_classic test_ec (replicate 4085 0) (memory_brick None) ''a''
          ''plugin.bin'' brick_world))) = []"
proof -
  have h: "length (replicate 4085 (0::byte)) > 4084" by simp
  from classic_size_limit_before_any_write[OF h, of test_ec "memory_brick None" "''a''"
      "''plugin.bin''" brick_world] h
  show ?thesis by blast
qed

lemma classic_write_loop_stores:
  assumes W: "\<forall>pos chunk d. \<exists>d'. write_bricklet_plugin brick port pos chunk d = (Inr (), d')
                \<and> mem d' = (mem d)(pos \<mapsto> chunk)"
  shows "\<exists>w'. classic_write_loop ec brick port chunks position w = (None, w')
     \<and> (\<forall>i < length chunks. mem (dev w') (position + i) = Some (chunks ! i))
     \<and> (\<forall>q < position. mem (dev w') q = mem (dev w) q)"
proof (induction chunks arbitrary: position w)
  case Nil
  show ?case by simp
next
  case (Cons c cs)
  from W obtain d' where d': "write_bricklet_plugin brick port position c (dev w) = (Inr (), d')"
    and m': "mem d' = (mem (dev w))(position \<mapsto> c)" by blast
  let ?w1 = "\<lparr>dev = d', trace = trace w @ [WriteBrickletPlugin port position c (Inr ())]\<rparr>"
  let ?w2 = "process_events (sleep 15 (progress (SetValue (position + 1)) ?w1))"
  have step: "classic_write_loop ec brick port (c # cs) position w =
      classic_write_loop ec brick port cs (position + 1) ?w2"
    using d' by (simp add: call_def)
  have dev2: "dev ?w2 = d'" by (simp add: ui_defs)
  from Cons.IH[of "position + 1" ?w2] obtain w' where
    r: "classic_write_loop ec brick port cs (position + 1) ?w2 = (None, w')"
    and s: "\<forall>i < length cs. mem (dev w') (position + 1 + i) = Some (cs ! i)"
    and u: "\<forall>q < position + 1. mem (dev w') q = mem d' q"
    unfolding dev2 by blast
  have a: "\<forall>i < length (c # cs). mem (dev w') (position + i) = Some ((c # cs) ! i)"
  proof (intro allI impI)
    fix i assume i: "i < length (c # cs)"
    show "mem (dev w') (position + i) = Some ((c # cs) ! i)"
    proof (cases i)
      case 0
      with u m' show ?thesis by simp
    next
      case (Suc j)
      with i s show ?thesis by simp
    qed
  qed
  have b: "\<forall>q < position. mem (dev w') q = mem (dev w) q"
    using u m' by simp
  from step r a b show ?case by simp
qed

lemma classic_verify_loop_reads:
  assumes R: "\<forall>pos d c. mem d pos = Some c \<longrightarrow>
                (\<exists>d'. read_bricklet_plugin brick port pos d = (Inr c, d') \<and> mem d' = mem d)"
    and S: "\<forall>i < length chunks. mem (dev w) (position + i) = Some (chunks ! i)"
  shows "\<exists>w'. classic_verify_loop ec brick port chunks position w = (None, w')
           \<and> mem (dev w') = mem (dev w)"
  using S
proof (induction chunks arbitrary: position w)
  case Nil
  show ?case by simp
next
  case (Cons c cs)
  from Cons.prems have "mem (dev w) position = Some c" by auto
  with R obtain d' where d': "read_bricklet_plugin brick port position (dev w) = (Inr c, d')"
    and m': "mem d' = mem (dev w)" by blast
  let ?w1 = "\<lparr>dev = d', trace = trace w @ [ReadBrickletPlugin port position (Inr c)]\<rparr>"
  let ?w2 = "process_events (sleep 15 (progress (SetValue (position + 1)) ?w1))"
  have step: "classic_verify_loop ec brick port (c # cs) position w =
      classic_verify_loop ec brick port cs (position + 1) ?w2"
    using d' by (simp add: call_def)
  have dev2: "dev ?w2 = d'" by (simp add: ui_defs)
  have "\<forall>i < length cs. mem (dev ?w2) (position + 1 + i) = Some (cs ! i)"
  proof (intro allI impI)
    fix i assume "i < length cs"
    with Cons.prems have "mem (dev w) (position + Suc i) = Some ((c # cs) ! Suc i)"
      by (metis Suc_less_eq length_Cons)
    then show "mem (dev ?w2) (position + 1 + i) = Some (cs ! i)"
      unfolding dev2 m' by simp
  qed
  from Cons.IH[OF this] obtain w' where
    "classic_verify_loop ec brick port cs (position + 1) ?w2 = (None, w')"
    "mem (dev w') = mem (dev ?w2)" by blast
  with step dev2 m' show ?case by simp
qed

lemma classic_cooperating_brick:
  assumes len: "length plugin \<le> 4084"
    and W: "\<forall>pos chunk d. \<exists>d'. write_bricklet_plugin brick port pos chunk d = (Inr (), d')
                \<and> mem d' = (mem d)(pos \<mapsto> chunk)"
    and R: "\<forall>pos d c. mem d pos = Some c \<longrightarrow>
                (\<exists>d'. read_bricklet_plugin brick port pos d = (Inr c, d') \<and> mem d' = mem d)"
    and run: "write_bricklet_plugin_classic ec plugin brick port name w = (r, w')"
  shows "r = Return (Some True)
       \<and> (\<forall>i < length (split_chunks plugin 0 []).
             mem (dev w') i = Some (split_chunks plugin 0 [] ! i))"
proof -
  let ?chunks = "split_chunks plugin 0 []"
  let ?w3 = "progress (SetMaximum (length ?chunks))
     (emit (SetResponseExpected FUNCTION_WRITE_BRICKLET_PLUGIN True)
       (progress Show (progress (SetValue 0) (progress (SetMaximum 0)
                    (progress (SetLabelText (''Writing plugin: '' @ name)) w)))))"
  from classic_write_loop_stores[OF W, of ec ?chunks 0 ?w3] obtain w4 where
    wl: "classic_write_loop ec brick port ?chunks 0 ?w3 = (None, w4)"
    and st: "\<forall>i < length ?chunks. mem (dev w4) i = Some (?chunks ! i)"
    by auto
  let ?w7 = "sleep 100 (progress Show (progress (SetValue 0)
                             (progress (SetMaximum (length ?chunks))
                               (progress (SetLabelText (''Verifying written plugin: '' @ name))
                                  (sleep 100 w4)))))"
  have dev7: "dev ?w7 = dev w4" by (simp add: ui_defs)
  have "\<forall>i < length ?chunks. mem (dev ?w7) (0 + i) = Some (?chunks ! i)"
    unfolding dev7 using st by simp
  from classic_verify_loop_reads[OF R this, of ec] obtain w8 where
    vl: "classic_verify_loop ec brick port ?chunks 0 ?w7 = (None, w8)"
    and m8: "mem (dev w8) = mem (dev ?w7)" by blast
  from run len wl vl have "r = Return (Some True)" "w' = w8"
    by (auto simp: write_bricklet_plugin_classic_def Let_def)
  with m8 dev7 st show ?thesis by simp
qed

text \<open>
  Claim C4. A plugin of \<open>n \<le> 4084\<close> bytes is cut into \<open>ceil(n/32) = (n + 31) div 32\<close> chunks of
  32 bytes each, which together are the plugin followed by zeros. Every run has one of three
  shapes: a chunk write raised after the writes before it succeeded; or all chunks were
  written, in order, and a chunk read raised or gave something else than the chunk after the
  reads before it gave their chunks back; or all chunks were written at positions 0, 1, ...,
  all were read back at the same positions, and the result is \<^verbatim>\<open>True\<close>. So no run issues more
  than \<open>ceil(n/32)\<close> chunk writes or chunk reads. With a Brick that stores what is written and
  reads back what it stores (\<open>mem\<close> is its memory), the run has the third shape: exactly
  \<open>ceil(n/32)\<close> writes and \<open>ceil(n/32)\<close> reads are issued, the result is \<^verbatim>\<open>True\<close>, and the
  chunks are in the Brick's memory.
\<close>

theorem classic_chunks_written_and_read_back:
  assumes "length plugin \<le> 4084"
    and "write_bricklet_plugin_classic ec plugin brick port name w = (r, w')"
  shows "length (split_chunks plugin 0 []) = (length plugin + 31) div 32
       \<and> (\<forall>c \<in> set (split_chunks plugin 0 []). length c = 32)
       \<and> concat (split_chunks plugin 0 []) =
           plugin @ replicate ((32 - length plugin mod 32) mod 32) 0
       \<and> length (filter is_plugin_write (new_events w w')) \<le> (length plugin + 31) div 32
       \<and> length (filter is_plugin_read (new_events w w')) \<le> (length plugin + 31) div 32
       \<and> (r = Return (Some True) \<longrightarrow>
            device_calls (new_events w w') =
              map (\<lambda>i. WriteBrickletPlugin port i (split_chunks plugin 0 [] ! i) (Inr ()))
                [0..<(length plugin + 31) div 32]
              @ map (\<lambda>i. ReadBrickletPlugin port i (Inr (split_chunks plugin 0 [] ! i)))
                [0..<(length plugin + 31) div 32])
       \<and> ((\<exists>m e. m < (length plugin + 31) div 32 \<and> r \<noteq> Return (Some True) \<and>
              device_calls (new_events w w') =
                map (\<lambda>i. WriteBrickletPlugin port i (split_chunks plugin 0 [] ! i) (Inr ())) [0..<m]
                @ [WriteBrickletPlugin port m (split_chunks plugin 0 [] ! m) (Inl e)])
          \<or> (\<exists>m res. m < (length plugin + 31) div 32 \<and> r \<noteq> Return (Some True) \<and>
              res \<noteq> Inr (split_chunks plugin 0 [] ! m) \<and>
              device_calls (new_events w w') =
                map (\<lambda>i. WriteBrickletPlugin port i (split_chunks plugin 0 [] ! i) (Inr ()))
                  [0..<(length plugin + 31) div 32]
                @ map (\<lambda>i. ReadBrickletPlugin port i (Inr (split_chunks plugin 0 [] ! i))) [0..<m]
                @ [ReadBrickletPlugin port m res])
          \<or> (r = Return (Some True) \<and>
              device_calls (new_events w w') =
                map (\<lambda>i. WriteBrickletPlugin port i (split_chunks plugin 0 [] ! i) (Inr ()))
                  [0..<(length plugin + 31) div 32]
                @ map (\<lambda>i. ReadBrickletPlugin port i (Inr (split_chunks plugin 0 [] ! i)))
                  [0..<(length plugin + 31) div 32]))
       \<and> ((\<forall>pos chunk d. \<exists>d'. write_bricklet_plugin brick port pos chunk d = (Inr (), d')
                \<and> mem d' = (mem d)(pos \<mapsto> chunk))
          \<and> (\<forall>pos d c. mem d pos = Some c \<longrightarrow>
                (\<exists>d'. read_bricklet_plugin brick port pos d = (Inr c, d') \<and> mem d' = mem d))
          \<longrightarrow> r = Return (Some True)
              \<and> device_calls (new_events w w') =
                  map (\<lambda>i. WriteBrickletPlugin port i (split_chunks plugin 0 [] ! i) (Inr ()))
                    [0..<(length plugin + 31) div 32]
                  @ map (\<lambda>i. ReadBrickletPlugin port i (Inr (split_chunks plugin 0 [] ! i)))
                    [0..<(length plugin + 31) div 32]
              \<and> length (filter is_plugin_write (new_events w w')) = (length plugin + 31) div 32
              \<and> length (filter is_plugin_read (new_events w w')) = (length plugin + 31) div 32
              \<and> (\<forall>i < (length plugin + 31) div 32.
                    mem (dev w') i = Some (split_chunks plugin 0 [] ! i)))"
proof -
  let ?chunks = "split_chunks plugin 0 []"
  let ?k = "(length plugin + 31) div 32"
  let ?all = "map (\<lambda>i. WriteBrickletPlugin port i (?chunks ! i) (Inr ())) [0..<?k]
              @ map (\<lambda>i. ReadBrickletPlugin port i (Inr (?chunks ! i))) [0..<?k]"
  have k: "length ?chunks = ?k"
    by (simp add: split_chunks_length)
  have a32: "\<forall>c \<in> set ?chunks. length c = 32"
    by (rule split_chunks_all_32) simp
  have cc: "concat ?chunks = plugin @ replicate ((32 - length plugin mod 32) mod 32) 0"
    by (simp add: split_chunks_concat)
  note cases = classic_run_cases[OF assms]
  have bw: "length (filter is_plugin_write (new_events w w')) \<le> ?k"
    unfolding k[symmetric] using cases
    by (subst filter_write_device_calls[symmetric]) auto
  have br: "length (filter is_plugin_read (new_events w w')) \<le> ?k"
    unfolding k[symmetric] using cases
    by (subst filter_read_device_calls[symmetric]) auto
  have ok: "r = Return (Some True) \<longrightarrow> device_calls (new_events w w') = ?all"
    using cases unfolding k ok_writes_def ok_reads_def by auto
  have shapes: "(\<exists>m e. m < ?k \<and> r \<noteq> Return (Some True) \<and>
              device_calls (new_events w w') =
                map (\<lambda>i. WriteBrickletPlugin port i (?chunks ! i) (Inr ())) [0..<m]
                @ [WriteBrickletPlugin port m (?chunks ! m) (Inl e)])
          \<or> (\<exists>m res. m < ?k \<and> r \<noteq> Return (Some True) \<and> res \<noteq> Inr (?chunks ! m) \<and>
              device_calls (new_events w w') =
                map (\<lambda>i. WriteBrickletPlugin port i (?chunks ! i) (Inr ())) [0..<?k]
                @ map (\<lambda>i. ReadBrickletPlugin port i (Inr (?chunks ! i))) [0..<m]
                @ [ReadBrickletPlugin port m res])
          \<or> (r = Return (Some True) \<and> device_calls (new_events w w') = ?all)"
    using cases
  proof (elim disjE exE conjE)
    fix m e
    assume "m < length ?chunks" "r \<noteq> Return (Some True)"
      "device_calls (new_events w w') =
         ok_writes port 0 ?chunks m @ [WriteBrickletPlugin port m (?chunks ! m) (Inl e)]"
    then have "m < ?k \<and> r \<noteq> Return (Some True) \<and>
              device_calls (new_events w w') =
                map (\<lambda>i. WriteBrickletPlugin port i (?chunks ! i) (Inr ())) [0..<m]
                @ [WriteBrickletPlugin port m (?chunks ! m) (Inl e)]"
      unfolding k by (simp add: ok_writes_def)
    then show ?thesis by blast
  next
    fix m res
    assume "m < length ?chunks" "r \<noteq> Return (Some True)"
      "device_calls (new_events w w') =
         ok_writes port 0 ?chunks (length ?chunks) @ ok_reads port 0 ?chunks m
         @ [ReadBrickletPlugin port m res]"
      "\<forall>rc. res = Inr rc \<longrightarrow> rc \<noteq> ?chunks ! m \<and> r = Return (Some False) \<and>
               popups (new_events w w') = [PopupFail ''Bricklet''
                     ''Could not flash Bricklet plugin: Verification error'']"
    then have "m < ?k \<and> r \<noteq> Return (Some True) \<and> res \<noteq> Inr (?chunks ! m) \<and>
              device_calls (new_events w w') =
                map (\<lambda>i. WriteBrickletPlugin port i (?chunks ! i) (Inr ())) [0..<?k]
                @ map (\<lambda>i. ReadBrickletPlugin port i (Inr (?chunks ! i))) [0..<m]
                @ [ReadBrickletPlugin port m res]"
      unfolding k by (auto simp: ok_writes_def ok_reads_def)
    then show ?thesis by blast
  next
    assume "r = Return (Some True)"
      "device_calls (new_events w w') =
         ok_writes port 0 ?chunks (length ?chunks) @ ok_reads port 0 ?chunks (length ?chunks)"
    then have "r = Return (Some True) \<and> device_calls (new_events w w') = ?all"
      unfolding k by (simp add: ok_writes_def ok_reads_def)
    then show ?thesis by blast
  qed
  have coop: "(\<forall>pos chunk d. \<exists>d'. write_bricklet_plugin brick port pos chunk d = (Inr (), d')
                \<and> mem d' = (mem d)(pos \<mapsto> chunk))
          \<and> (\<forall>pos d c. mem d pos = Some c \<longrightarrow>
                (\<exists>d'. read_bricklet_plugin brick port pos d = (Inr c, d') \<and> mem d' = mem d))
          \<longrightarrow> r = Return (Some True)
              \<and> device_calls (new_events w w') = ?all
              \<and> length (filter is_plugin_write (new_events w w')) = ?k
              \<and> length (filter is_plugin_read (new_events w w')) = ?k
              \<and> (\<forall>i < ?k. mem (dev w') i = Some (?chunks ! i))"
  proof (intro impI, elim conjE)
    assume W: "\<forall>pos chunk d. \<exists>d'. write_bricklet_plugin brick port pos chunk d = (Inr (), d')
                \<and> mem d' = (mem d)(pos \<mapsto> chunk)"
      and R: "\<forall>pos d c. mem d pos = Some c \<longrightarrow>
                (\<exists>d'. read_bricklet_plugin brick port pos d = (Inr c, d') \<and> mem d' = mem d)"
    from classic_cooperating_brick[OF assms(1) W R assms(2)]
    have t: "r = Return (Some True)"
      and m: "\<forall>i < ?k. mem (dev w') i = Some (?chunks ! i)"
      unfolding k by blast+
    from t ok have dc: "device_calls (new_events w w') = ?all" by simp
    have fw: "length (filter is_plugin_write (new_events w w')) = ?k"
      by (subst filter_write_device_calls[symmetric], subst dc) (simp add: comp_def)
    have fr: "length (filter is_plugin_read (new_events w w')) = ?k"
      by (subst filter_read_device_calls[symmetric], subst dc) (simp add: comp_def)
    from t dc fw fr m show "r = Return (Some True)
              \<and> device_calls (new_events w w') = ?all
              \<and> length (filter is_plugin_write (new_events w w')) = ?k
              \<and> length (filter is_plugin_read (new_events w w')) = ?k
              \<and> (\<forall>i < ?k. mem (dev w') i = Some (?chunks ! i))"
      by blast
  qed
  show ?thesis
    by (intro conjI k a32 cc bw br ok shapes coop)
qed

theorem classic_chunks_written_and_read_back_witness:
  "length plugin100 \<le> 4084
   \<and> length (split_chunks plugin100 0 []) = 4
   \<and> fst (classic_run None) = Return (Some True)
   \<and> device_calls (new_events brick_world (snd (classic_run None))) =
        map (\<lambda>i. WriteBrickletPlugin ''a'' i (split_chunks plugin100 0 [] ! i) (Inr ()))
          [0..<4]
        @ map (\<lambda>i. ReadBrickletPlugin ''a'' i (Inr (split_chunks plugin100 0 [] ! i)))
          [0..<4]
   \<and> length (filter is_plugin_write (new_events brick_world (snd (classic_run None)))) = 4
   \<and> length (filter is_plugin_read (new_events brick_world (snd (classic_run None)))) = 4
   \<and> map_of (dev (snd (classic_run None))) 0 = Some (split_chunks plugin100 0 [] ! 0)
   \<and> map_of (dev (snd (classic_run None))) 1 = Some (split_chunks plugin100 0 [] ! 1)
   \<and> map_of (dev (snd (classic_run None))) 2 = Some (split_chunks plugin100 0 [] ! 2)
   \<and> map_of (dev (snd (classic_run None))) 3 = Some (split_chunks plugin100 0 [] ! 3)"
proof -
  have h1: "length plugin100 \<le> 4084" by (simp add: plugin100_def)
  have h2: "write_bricklet_plugin_classic test_ec plugin100 (memory_brick None) ''a''
      ''plugin.bin'' brick_world = (fst (classic_run None), snd (classic_run None))"
    by (simp add: classic_run_def)
  have W: "\<forall>pos chunk d. \<exists>d'. write_bricklet_plugin (memory_brick None) ''a'' pos chunk d = (Inr (), d')
                \<and> map_of d' = (map_of d)(pos \<mapsto> chunk)"
    by (simp add: memory_brick_def)
  have R: "\<forall>pos d c. map_of d pos = Some c \<longrightarrow>
                (\<exists>d'. read_bricklet_plugin (memory_brick None) ''a'' pos d = (Inr c, d')
                   \<and> map_of d' = map_of d)"
    by (simp add: memory_brick_def)
  have h4: "(length plugin100 + 31) div 32 = 4" by (simp add: plugin100_def)
  from classic_chunks_written_and_read_back[OF h1 h2, of map_of] W R h1
  have all: "length (split_chunks plugin100 0 []) = 4
   \<and> fst (classic_run None) = Return (Some True)
   \<and> device_calls (new_events brick_world (snd (classic_run None))) =
        map (\<lambda>i. WriteBrickletPlugin ''a'' i (split_chunks plugin100 0 [] ! i) (Inr ()))
          [0..<4]
        @ map (\<lambda>i. ReadBrickletPlugin ''a'' i (Inr (split_chunks plugin100 0 [] ! i)))
          [0..<4]
   \<and> length (filter is_plugin_write (new_events brick_world (snd (classic_run None)))) = 4
   \<and> length (filter is_plugin_read (new_events brick_world (snd (classic_run None)))) = 4"
    and m: "\<forall>i < 4. map_of (dev (snd (classic_run None))) i = Some (split_chunks plugin100 0 [] ! i)"
    unfolding h4 by simp_all
  from m have "map_of (dev (snd (classic_run None))) 0 = Some (split_chunks plugin100 0 [] ! 0)"
    "map_of (dev (snd (classic_run None))) 1 = Some (split_chunks plugin100 0 [] ! 1)"
    "map_of (dev (snd (classic_run None))) 2 = Some (split_chunks plugin100 0 [] ! 2)"
    "map_of (dev (snd (classic_run None))) 3 = Some (split_chunks plugin100 0 [] ! 3)"
    by auto
  with all h1 show ?thesis by simp
qed

lemma not_in_ok_writes: "ReadBrickletPlugin port i res \<notin> set (ok_writes port' pos chunks m)"
  by (auto simp: ok_writes_def)

lemma in_ok_reads:
  "ReadBrickletPlugin port i (Inr rc) \<in> set (ok_reads port 0 chunks m) \<Longrightarrow> rc = chunks ! i"
  by (auto simp: ok_reads_def)

text \<open>
  Claim C8, as amended. When the read-back of chunk \<open>i\<close> differs from the chunk written, the
  verification stops there: chunks 0 to \<open>i - 1\<close> were read back intact, chunk \<open>i\<close> is the last
  one read, the function returns \<^verbatim>\<open>False\<close>, and the one message shown is the fixed text
  \<^verbatim>\<open>Could not flash Bricklet plugin: Verification error\<close>, which does not name the chunk.
\<close>


theorem classic_verification_error_report:
  assumes "length plugin \<le> 4084"
    and "write_bricklet_plugin_classic ec plugin brick port name w = (r, w')"
    and "ReadBrickletPlugin port i (Inr read_chunk) \<in> set (new_events w w')"
    and "read_chunk \<noteq> split_chunks plugin 0 [] ! i"
  shows "r = Return (Some False)
       \<and> popups (new_events w w') =
           [PopupFail ''Bricklet'' ''Could not flash Bricklet plugin: Verification error'']
       \<and> i < length (split_chunks plugin 0 [])
       \<and> filter is_plugin_read (new_events w w') =
           map (\<lambda>j. ReadBrickletPlugin port j (Inr (split_chunks plugin 0 [] ! j))) [0..<i]
           @ [ReadBrickletPlugin port i (Inr read_chunk)]"
proof -
  let ?chunks = "split_chunks plugin 0 []"
  let ?ev = "ReadBrickletPlugin port i (Inr read_chunk)"
  have mem: "?ev \<in> set (device_calls (new_events w w'))"
    using assms(3) by (simp add: device_calls_def)
  have fr: "filter is_plugin_read (new_events w w')
      = filter is_plugin_read (device_calls (new_events w w'))"
    by (simp add: filter_read_device_calls)
  from classic_run_cases[OF assms(1,2)]
  consider (wfail) m e where "device_calls (new_events w w') =
              ok_writes port 0 ?chunks m @ [WriteBrickletPlugin port m (?chunks ! m) (Inl e)]"
    | (vfail) m res where "m < length ?chunks" "device_calls (new_events w w') =
              ok_writes port 0 ?chunks (length ?chunks) @ ok_reads port 0 ?chunks m
              @ [ReadBrickletPlugin port m res]"
            "\<forall>rc. res = Inr rc \<longrightarrow> rc \<noteq> ?chunks ! m \<and> r = Return (Some False) \<and>
               popups (new_events w w') = [PopupFail ''Bricklet''
                     ''Could not flash Bricklet plugin: Verification error'']"
    | (ok) "device_calls (new_events w w') =
              ok_writes port 0 ?chunks (length ?chunks) @ ok_reads port 0 ?chunks (length ?chunks)"
    by blast
  then show ?thesis
  proof cases
    case wfail
    with mem show ?thesis by (auto simp: not_in_ok_writes)
  next
    case ok
    with mem assms(4) show ?thesis by (auto simp: not_in_ok_writes dest: in_ok_reads)
  next
    case vfail
    from mem vfail(2) assms(4) have e: "?ev = ReadBrickletPlugin port m res"
      by (auto simp: not_in_ok_writes dest: in_ok_reads)
    then have im: "i = m" and res: "res = Inr read_chunk" by auto
    from vfail(3) res have "r = Return (Some False)"
      "popups (new_events w w') = [PopupFail ''Bricklet''
                     ''Could not flash Bricklet plugin: Verification error'']"
      by auto
    moreover have "filter is_plugin_read (new_events w w') =
        ok_reads port 0 ?chunks i @ [ReadBrickletPlugin port i (Inr read_chunk)]"
      unfolding fr vfail(2) using im res by simp
    ultimately show ?thesis using vfail(1) im by (simp add: ok_reads_def)
  qed
qed

theorem classic_verification_error_report_witness:
  "length plugin100 \<le> 4084
   \<and> ReadBrickletPlugin ''a'' 2 (Inr []) \<in> set (new_events brick_world (snd (classic_run (Some 2))))
   \<and> [] \<noteq> split_chunks plugin100 0 [] ! 2
   \<and> fst (classic_run (Some 2)) = Return (Some False)
   \<and> popups (new_events brick_world (snd (classic_run (Some 2)))) =
           [PopupFail ''Bricklet'' ''Could not flash Bricklet plugin: Verification error'']
   \<and> filter is_plugin_read (new_events brick_world (snd (classic_run (Some 2)))) =
           map (\<lambda>j. ReadBrickletPlugin ''a'' j (Inr (split_chunks plugin100 0 [] ! j))) [0..<2]
           @ [ReadBrickletPlugin ''a'' 2 (Inr [])]"
proof -
  have h1: "length plugin100 \<le> 4084" by (simp add: plugin100_def)
  have h2: "write_bricklet_plugin_classic test_ec plugin100 (memory_brick (Some 2)) ''a''
      ''plugin.bin'' brick_world = (fst (classic_run (Some 2)), snd (classic_run (Some 2)))"
    by (simp add: classic_run_def)
  have h3: "ReadBrickletPlugin ''a'' 2 (Inr [])
      \<in> set (new_events brick_world (snd (classic_run (Some 2))))"
    by code_simp
  have h4: "[] \<noteq> split_chunks plugin100 0 [] ! 2" by code_simp
  from classic_verification_error_report[OF h1 h2 h3 h4] h1 h3 h4 show ?thesis by simp
qed

text \<open>
  Claim C8 as stated fails: a mismatch at chunk 0 and a mismatch at chunk 2 of the same
  100-byte plugin end in the same result and the same message, so the error that is reported
  does not tell which chunk failed.
\<close>

theorem classic_verification_error_omits_chunk_index:
  "ReadBrickletPlugin ''a'' 0 (Inr []) \<in> set (trace (snd (classic_run (Some 0))))
   \<and> ReadBrickletPlugin ''a'' 2 (Inr []) \<in> set (trace (snd (classic_run (Some 2))))
   \<and> fst (classic_run (Some 0)) = fst (classic_run (Some 2))
   \<and> popups (trace (snd (classic_run (Some 0)))) = popups (trace (snd (classic_run (Some 2))))
   \<and> popups (trace (snd (classic_run (Some 2)))) =
        [PopupFail ''Bricklet'' ''Could not flash Bricklet plugin: Verification error'']"
  by code_simp


section \<open>The bootloader mode loops end\<close>

lemma set_loop_trace:
  "counter + n = 10 \<Longrightarrow>
   \<exists>r w' excs last. set_comcu_bootloader_mode_loop bricklet mode counter w = Some (r, w')
     \<and> length excs \<le> n
     \<and> trace w' = trace w @ failed_sets mode excs @ [SetBootloaderMode mode last]
     \<and> (case r of Some s \<Rightarrow> last = Inr s
                  | None \<Rightarrow> length excs = n \<and> (\<exists>e. last = Inl e))"
proof (induction n arbitrary: counter w)
  case 0
  then have c10: "counter = 10" by simp
  obtain res w1 where c: "call (set_bootloader_mode bricklet mode) (SetBootloaderMode mode) w = (res, w1)"
    by (cases "call (set_bootloader_mode bricklet mode) (SetBootloaderMode mode) w") auto
  have t1: "trace w1 = trace w @ [SetBootloaderMode mode res]" using call_trace[OF c] .
  show ?case
  proof (cases res)
    case (Inl e)
    with c c10 have "set_comcu_bootloader_mode_loop bricklet mode counter w = Some (None, w1)"
      by (subst set_comcu_bootloader_mode_loop.simps) simp
    with t1 Inl c10 show ?thesis
      by (intro exI[of _ None] exI[of _ w1] exI[of _ "[]"] exI[of _ res])
         (simp add: failed_sets_def)
  next
    case (Inr s)
    with c have "set_comcu_bootloader_mode_loop bricklet mode counter w = Some (Some s, w1)"
      by (subst set_comcu_bootloader_mode_loop.simps) simp
    with t1 Inr show ?thesis
      by (intro exI[of _ "Some s"] exI[of _ w1] exI[of _ "[]"] exI[of _ res])
         (simp add: failed_sets_def)
  qed
next
  case (Suc n)
  then have lt: "counter < 10" and n: "(counter + 1) + n = 10" by auto
  obtain res w1 where c: "call (set_bootloader_mode bricklet mode) (SetBootloaderMode mode) w = (res, w1)"
    by (cases "call (set_bootloader_mode bricklet mode) (SetBootloaderMode mode) w") auto
  have t1: "trace w1 = trace w @ [SetBootloaderMode mode res]" using call_trace[OF c] .
  show ?case
  proof (cases res)
    case (Inr s)
    with c have "set_comcu_bootloader_mode_loop bricklet mode counter w = Some (Some s, w1)"
      by (subst set_comcu_bootloader_mode_loop.simps) simp
    with t1 Inr show ?thesis
      by (intro exI[of _ "Some s"] exI[of _ w1] exI[of _ "[]"] exI[of _ res])
         (simp add: failed_sets_def)
  next
    case (Inl e)
    from Suc.IH[OF n, of "sleep 250 w1"] obtain r w' excs last where
      rec: "set_comcu_bootloader_mode_loop bricklet mode (counter + 1) (sleep 250 w1) = Some (r, w')"
      and len: "length excs \<le> n"
      and tr: "trace w' = trace (sleep 250 w1) @ failed_sets mode excs @ [SetBootloaderMode mode last]"
      and cs: "(case r of Some s \<Rightarrow> last = Inr s
                  | None \<Rightarrow> length excs = n \<and> (\<exists>e. last = Inl e))"
      by blast
    from Inl c lt rec have "set_comcu_bootloader_mode_loop bricklet mode counter w = Some (r, w')"
      by (subst set_comcu_bootloader_mode_loop.simps) simp
    moreover have "length (e # excs) \<le> Suc n" using len lt by simp
    moreover have "trace w' = trace w @ failed_sets mode (e # excs) @ [SetBootloaderMode mode last]"
      using tr t1 Inl by (simp add: failed_sets_def ui_defs)
    moreover have "(case r of Some s \<Rightarrow> last = Inr s
                  | None \<Rightarrow> length (e # excs) = Suc n \<and> (\<exists>e. last = Inl e))"
      using cs lt by (auto split: option.splits)
    ultimately show ?thesis by blast
  qed
qed

lemma wait_loop_trace:
  "counter + n = 10 \<Longrightarrow>
   \<exists>ok w' rs last. wait_for_comcu_bootloader_mode_loop bricklet mode counter w = Some (ok, w')
     \<and> length rs \<le> n \<and> (\<forall>x \<in> set rs. x \<noteq> Inr mode)
     \<and> trace w' = trace w @ failed_polls rs @ [GetBootloaderMode last]
     \<and> (if ok then last = Inr mode else length rs = n \<and> last \<noteq> Inr mode)"
proof (induction n arbitrary: counter w)
  case 0
  then have c10: "counter = 10" by simp
  obtain res w1 where c: "call (get_bootloader_mode bricklet) GetBootloaderMode w = (res, w1)"
    by (cases "call (get_bootloader_mode bricklet) GetBootloaderMode w") auto
  have t1: "trace w1 = trace w @ [GetBootloaderMode res]" using call_trace[OF c] .
  from c c10 have "wait_for_comcu_bootloader_mode_loop bricklet mode counter w
      = Some (res = Inr mode, w1)"
    by (subst wait_for_comcu_bootloader_mode_loop.simps) simp
  with t1 c10 show ?case
    by (intro exI[of _ "res = Inr mode"] exI[of _ w1] exI[of _ "[]"] exI[of _ res])
       (simp add: failed_polls_def)
next
  case (Suc n)
  then have lt: "counter < 10" and n: "(counter + 1) + n = 10" by auto
  obtain res w1 where c: "call (get_bootloader_mode bricklet) GetBootloaderMode w = (res, w1)"
    by (cases "call (get_bootloader_mode bricklet) GetBootloaderMode w") auto
  have t1: "trace w1 = trace w @ [GetBootloaderMode res]" using call_trace[OF c] .
  show ?case
  proof (cases "res = Inr mode")
    case True
    with c have "wait_for_comcu_bootloader_mode_loop bricklet mode counter w = Some (True, w1)"
      by (subst wait_for_comcu_bootloader_mode_loop.simps) simp
    with t1 True show ?thesis
      by (intro exI[of _ True] exI[of _ w1] exI[of _ "[]"] exI[of _ res])
         (simp add: failed_polls_def)
  next
    case False
    from Suc.IH[OF n, of "sleep 250 w1"] obtain ok w' rs last where
      rec: "wait_for_comcu_bootloader_mode_loop bricklet mode (counter + 1) (sleep 250 w1) = Some (ok, w')"
      and len: "length rs \<le> n" and ne: "\<forall>x \<in> set rs. x \<noteq> Inr mode"
      and tr: "trace w' = trace (sleep 250 w1) @ failed_polls rs @ [GetBootloaderMode last]"
      and cs: "(if ok then last = Inr mode else length rs = n \<and> last \<noteq> Inr mode)"
      by blast
    from False c lt rec have "wait_for_comcu_bootloader_mode_loop bricklet mode counter w = Some (ok, w')"
      by (subst wait_for_comcu_bootloader_mode_loop.simps) simp
    moreover have "length (res # rs) \<le> Suc n" using len lt by simp
    moreover have "\<forall>x \<in> set (res # rs). x \<noteq> Inr mode" using ne False by simp
    moreover have "trace w' = trace w @ failed_polls (res # rs) @ [GetBootloaderMode last]"
      using tr t1 by (simp add: failed_polls_def ui_defs)
    moreover have "(if ok then last = Inr mode else length (res # rs) = Suc n \<and> last \<noteq> Inr mode)"
      using cs lt by (auto split: if_splits)
    ultimately show ?thesis by blast
  qed
qed

lemma set_comcu_trace:
  "\<exists>r w' excs last.
      set_comcu_bootloader_mode bricklet mode w = Some (r, w')
      \<and> length excs \<le> 10
      \<and> trace w' = trace w @ failed_sets mode excs @ [SetBootloaderMode mode last]
      \<and> (case r of Some s \<Rightarrow> last = Inr s
                   | None \<Rightarrow> length excs = 10 \<and> (\<exists>e. last = Inl e))"
  using set_loop_trace[of 0 10 bricklet mode w] by (simp add: set_comcu_bootloader_mode_def)

lemma wait_for_comcu_trace:
  "\<exists>ok w' rs last.
      wait_for_comcu_bootloader_mode bricklet mode w = Some (ok, w')
      \<and> length rs \<le> 10 \<and> (\<forall>x \<in> set rs. x \<noteq> Inr mode)
      \<and> trace w' = trace w @ failed_polls rs @ [GetBootloaderMode last]
      \<and> (if ok then last = Inr mode else length rs = 10 \<and> last \<noteq> Inr mode)"
  using wait_loop_trace[of 0 10 bricklet mode w] by (simp add: wait_for_comcu_bootloader_mode_def)

lemma set_comcu_total:
  "\<exists>r w'. set_comcu_bootloader_mode bricklet mode w = Some (r, w')"
  using set_comcu_trace[of bricklet mode w] by blast

lemma wait_for_comcu_total:
  "\<exists>r w'. wait_for_comcu_bootloader_mode bricklet mode w = Some (r, w')"
  using wait_for_comcu_trace[of bricklet mode w] by blast

lemma comcu_attempt_total:
  "\<exists>r w'. comcu_attempt bricklet plugin name attempt w = Some (r, w')"
proof -
  obtain r1 w1 where s1: "set_comcu_bootloader_mode bricklet BOOTLOADER_MODE_BOOTLOADER w = Some (r1, w1)"
    using set_comcu_total by blast
  obtain ok w2 where s2: "(if r1 = None then Some (False, w1)
                else wait_for_comcu_bootloader_mode bricklet BOOTLOADER_MODE_BOOTLOADER w1) = Some (ok, w2)"
    using wait_for_comcu_total[of bricklet BOOTLOADER_MODE_BOOTLOADER w1] by (cases "r1 = None") auto
  show ?thesis
  proof (cases ok)
    case False
    with s1 s2 show ?thesis by (simp add: comcu_attempt_def Let_def)
  next
    case True
    let ?w3 = "progress Show (progress (SetValue 0) (progress (SetMaximum (length plugin))
                     (progress (SetLabelText (''Writing plugin'' @ attempt_str_of attempt @ '': '' @ name))
                        w2)))"
    obtain r4 w4 where s4: "comcu_write_loop bricklet plugin (attempt = 0) 0 (MAX_SKIPPED_PAGES + 1) ?w3 = (r4, w4)"
      by (cases "comcu_write_loop bricklet plugin (attempt = 0) 0 (MAX_SKIPPED_PAGES + 1) ?w3") auto
    show ?thesis
    proof (cases r4)
      case (Some r)
      with True s1 s2 s4 show ?thesis by (simp add: comcu_attempt_def Let_def)
    next
      case None
      let ?w5 = "progress Show (progress (SetValue 0) (progress (SetMaximum 0)
                     (progress (SetLabelText
                        (''Changing from bootloader mode to firmware mode'' @ attempt_str_of attempt)) w4)))"
      obtain r6 w6 where s6: "set_comcu_bootloader_mode bricklet BOOTLOADER_MODE_FIRMWARE ?w5 = Some (r6, w6)"
        using set_comcu_total by blast
      with None True s1 s2 s4 show ?thesis
        by (cases r6) (simp_all add: comcu_attempt_def Let_def)
    qed
  qed
qed

lemma comcu_attempts_total:
  "\<exists>r w'. comcu_attempts bricklet plugin name attempts error_str w = Some (r, w')"
proof (induction attempts arbitrary: error_str w)
  case Nil
  show ?case by simp
next
  case (Cons attempt rest)
  obtain r w1 where a: "comcu_attempt bricklet plugin name attempt w = Some (r, w1)"
    using comcu_attempt_total by blast
  show ?case
  proof (cases r)
    case (Continue e)
    with a Cons.IH[of e w1] show ?thesis by simp
  qed (use a in simp_all)
qed

lemma write_bricklet_plugin_comcu_total:
  "\<exists>r w'. write_bricklet_plugin_comcu zip_file bricklet name w = Some (r, w')"
proof (cases zip_file)
  case (Inl e)
  then show ?thesis by (auto simp: write_bricklet_plugin_comcu_def Let_def)
next
  case (Inr zf)
  show ?thesis
  proof (cases "find_firmware zf (namelist zf) name")
    case (Inl e)
    with Inr show ?thesis by (auto simp: write_bricklet_plugin_comcu_def Let_def)
  next
    case found: (Inr p)
    obtain name' data where p: "p = (name', data)" by (cases p)
    show ?thesis
    proof (cases data)
      case None
      with Inr found p show ?thesis by (auto simp: write_bricklet_plugin_comcu_def Let_def)
    next
      case (Some plugin)
      let ?w1 = "progress Show (progress (SetValue 0) (progress (SetMaximum 0)
                 (progress (SetLabelText ''Starting bootloader mode'') w)))"
      obtain r w2 where a: "comcu_attempts bricklet plugin name' [0, 1] [] ?w1 = Some (r, w2)"
        using comcu_attempts_total by blast
      obtain ok w3 where f: "wait_for_comcu_bootloader_mode bricklet BOOTLOADER_MODE_FIRMWARE w2 = Some (ok, w3)"
        using wait_for_comcu_total by blast
      from Inr found p Some a f show ?thesis
        by (cases r; cases ok) (auto simp: write_bricklet_plugin_comcu_def Let_def)
    qed
  qed
qed

text \<open>
  Claim C7, as amended. \<^verbatim>\<open>set_comcu_bootloader_mode\<close> and \<^verbatim>\<open>wait_for_comcu_bootloader_mode\<close>
  always return. Each makes at most 11 tries: at most 10 tries that fail, each followed by a
  sleep of 250 ms (2.5 s in all), and one more. Only after 10 failed tries and a failing 11th
  do they give up (\<^verbatim>\<open>None\<close>, \<^verbatim>\<open>False\<close>). When the request for bootloader mode gives up, or
  the device never reports bootloader mode, the attempt ends the flash operation with
  \<^verbatim>\<open>False\<close> and the message that the device did not enter bootloader mode; and the whole
  flash operation returns for every device.
\<close>

theorem comcu_mode_loops_bounded:
  "(\<exists>r w' excs last.
      set_comcu_bootloader_mode bricklet mode w = Some (r, w')
      \<and> length excs \<le> 10
      \<and> new_events w w' = failed_sets mode excs @ [SetBootloaderMode mode last]
      \<and> (case r of Some s \<Rightarrow> last = Inr s
                   | None \<Rightarrow> length excs = 10 \<and> (\<exists>e. last = Inl e)))
   \<and> (\<exists>ok w' rs last.
      wait_for_comcu_bootloader_mode bricklet mode w = Some (ok, w')
      \<and> length rs \<le> 10 \<and> (\<forall>x \<in> set rs. x \<noteq> Inr mode)
      \<and> new_events w w' = failed_polls rs @ [GetBootloaderMode last]
      \<and> (if ok then last = Inr mode else length rs = 10 \<and> last \<noteq> Inr mode))
   \<and> (\<forall>w1. set_comcu_bootloader_mode bricklet BOOTLOADER_MODE_BOOTLOADER w = Some (None, w1) \<longrightarrow>
         comcu_attempt bricklet plugin name attempt w =
           Some (Returned False,
                 popup_fail ''Bricklet''
                   (''Device did not enter bootloader mode in 2.5 seconds'' @ attempt_str_of attempt)
                   (progress Cancel w1)))
   \<and> (\<forall>s w1 w2. set_comcu_bootloader_mode bricklet BOOTLOADER_MODE_BOOTLOADER w = Some (Some s, w1)
         \<and> wait_for_comcu_bootloader_mode bricklet BOOTLOADER_MODE_BOOTLOADER w1 = Some (False, w2) \<longrightarrow>
         comcu_attempt bricklet plugin name attempt w =
           Some (Returned False,
                 popup_fail ''Bricklet''
                   (''Device did not enter bootloader mode in 2.5 seconds'' @ attempt_str_of attempt)
                   (progress Cancel w2)))
   \<and> (\<exists>r w'. write_bricklet_plugin_comcu zip_file bricklet name w = Some (r, w'))"
proof (intro conjI)
  from set_comcu_trace[of bricklet mode w] obtain r w' excs last where
    "set_comcu_bootloader_mode bricklet mode w = Some (r, w')"
    "length excs \<le> 10"
    "trace w' = trace w @ failed_sets mode excs @ [SetBootloaderMode mode last]"
    "(case r of Some s \<Rightarrow> last = Inr s
                   | None \<Rightarrow> length excs = 10 \<and> (\<exists>e. last = Inl e))"
    by blast
  then have "set_comcu_bootloader_mode bricklet mode w = Some (r, w')
      \<and> length excs \<le> 10
      \<and> new_events w w' = failed_sets mode excs @ [SetBootloaderMode mode last]
      \<and> (case r of Some s \<Rightarrow> last = Inr s
                   | None \<Rightarrow> length excs = 10 \<and> (\<exists>e. last = Inl e))"
    by (simp add: new_events_def)
  then show "\<exists>r w' excs last.
      set_comcu_bootloader_mode bricklet mode w = Some (r, w')
      \<and> length excs \<le> 10
      \<and> new_events w w' = failed_sets mode excs @ [SetBootloaderMode mode last]
      \<and> (case r of Some s \<Rightarrow> last = Inr s
                   | None \<Rightarrow> length excs = 10 \<and> (\<exists>e. last = Inl e))"
    by blast
next
  from wait_for_comcu_trace[of bricklet mode w] obtain ok w' rs last where
    "wait_for_comcu_bootloader_mode bricklet mode w = Some (ok, w')"
    "length rs \<le> 10" "\<forall>x \<in> set rs. x \<noteq> Inr mode"
    "trace w' = trace w @ failed_polls rs @ [GetBootloaderMode last]"
    "(if ok then last = Inr mode else length rs = 10 \<and> last \<noteq> Inr mode)"
    by blast
  then have "wait_for_comcu_bootloader_mode bricklet mode w = Some (ok, w')
      \<and> length rs \<le> 10 \<and> (\<forall>x \<in> set rs. x \<noteq> Inr mode)
      \<and> new_events w w' = failed_polls rs @ [GetBootloaderMode last]
      \<and> (if ok then last = Inr mode else length rs = 10 \<and> last \<noteq> Inr mode)"
    by (simp add: new_events_def)
  then show "\<exists>ok w' rs last.
      wait_for_comcu_bootloader_mode bricklet mode w = Some (ok, w')
      \<and> length rs \<le> 10 \<and> (\<forall>x \<in> set rs. x \<noteq> Inr mode)
      \<and> new_events w w' = failed_polls rs @ [GetBootloaderMode last]
      \<and> (if ok then last = Inr mode else length rs = 10 \<and> last \<noteq> Inr mode)"
    by blast
next
  show "\<forall>w1. set_comcu_bootloader_mode bricklet BOOTLOADER_MODE_BOOTLOADER w = Some (None, w1) \<longrightarrow>
         comcu_attempt bricklet plugin name attempt w =
           Some (Returned False,
                 popup_fail ''Bricklet''
                   (''Device did not enter bootloader mode in 2.5 seconds'' @ attempt_str_of attempt)
                   (progress Cancel w1))"
    by (simp add: comcu_attempt_def Let_def)
next
  show "\<forall>s w1 w2. set_comcu_bootloader_mode bricklet BOOTLOADER_MODE_BOOTLOADER w = Some (Some s, w1)
         \<and> wait_for_comcu_bootloader_mode bricklet BOOTLOADER_MODE_BOOTLOADER w1 = Some (False, w2) \<longrightarrow>
         comcu_attempt bricklet plugin name attempt w =
           Some (Returned False,
                 popup_fail ''Bricklet''
                   (''Device did not enter bootloader mode in 2.5 seconds'' @ attempt_str_of attempt)
                   (progress Cancel w2))"
    by (simp add: comcu_attempt_def Let_def)
next
  show "\<exists>r w'. write_bricklet_plugin_comcu zip_file bricklet name w = Some (r, w')"
    by (rule write_bricklet_plugin_comcu_total)
qed

text \<open>
  Claim C7 as stated fails: a device that never answers is asked 11 times, not 10, with the
  10 sleeps between the tries (21 events in all).
\<close>

theorem comcu_mode_request_eleven_tries:
  "set_comcu_bootloader_mode dead_bricklet BOOTLOADER_MODE_BOOTLOADER dead_world =
     Some (None,
           \<lparr>dev = (),
            trace = concat (replicate 10 [SetBootloaderMode 0 (Inl timeout_error), Sleep 250])
                    @ [SetBootloaderMode 0 (Inl timeout_error)]\<rparr>)
   \<and> length (concat (replicate 10 [SetBootloaderMode 0 (Inl timeout_error), Sleep 250])
              @ [SetBootloaderMode 0 (Inl timeout_error)]) = 21"
  by code_simp

theorem comcu_mode_loops_bounded_witness:
  "set_comcu_bootloader_mode dead_bricklet BOOTLOADER_MODE_BOOTLOADER dead_world =
     Some (None,
           \<lparr>dev = (),
            trace = failed_sets 0 (replicate 10 timeout_error)
                    @ [SetBootloaderMode 0 (Inl timeout_error)]\<rparr>)
   \<and> comcu_attempt dead_bricklet [] ''firmware.bin'' 0 dead_world =
       Some (Returned False,
             popup_fail ''Bricklet''
               (''Device did not enter bootloader mode in 2.5 seconds'' @ attempt_str_of 0)
               (progress Cancel
                 \<lparr>dev = (),
                  trace = failed_sets 0 (replicate 10 timeout_error)
                          @ [SetBootloaderMode 0 (Inl timeout_error)]\<rparr>))
   \<and> set_comcu_bootloader_mode sim_bricklet BOOTLOADER_MODE_BOOTLOADER (sim_world stuck_sim) =
       Some (Some 0, \<lparr>dev = stuck_sim, trace = [SetBootloaderMode 0 (Inr 0)]\<rparr>)
   \<and> wait_for_comcu_bootloader_mode sim_bricklet BOOTLOADER_MODE_BOOTLOADER
         \<lparr>dev = stuck_sim, trace = [SetBootloaderMode 0 (Inr 0)]\<rparr> =
       Some (False,
             \<lparr>dev = stuck_sim,
              trace = [SetBootloaderMode 0 (Inr 0)] @ failed_polls (replicate 10 (Inr 1))
                      @ [GetBootloaderMode (Inr 1)]\<rparr>)
   \<and> comcu_attempt sim_bricklet [] ''firmware.bin'' 0 (sim_world stuck_sim) =
       Some (Returned False,
             popup_fail ''Bricklet''
               (''Device did not enter bootloader mode in 2.5 seconds'' @ attempt_str_of 0)
               (progress Cancel
                 \<lparr>dev = stuck_sim,
                  trace = [SetBootloaderMode 0 (Inr 0)] @ failed_polls (replicate 10 (Inr 1))
                          @ [GetBootloaderMode (Inr 1)]\<rparr>))"
proof -
  have h1: "set_comcu_bootloader_mode dead_bricklet BOOTLOADER_MODE_BOOTLOADER dead_world =
     Some (None,
           \<lparr>dev = (),
            trace = failed_sets 0 (replicate 10 timeout_error)
                    @ [SetBootloaderMode 0 (Inl timeout_error)]\<rparr>)"
    by code_simp
  have h2: "set_comcu_bootloader_mode sim_bricklet BOOTLOADER_MODE_BOOTLOADER (sim_world stuck_sim) =
       Some (Some 0, \<lparr>dev = stuck_sim, trace = [SetBootloaderMode 0 (Inr 0)]\<rparr>)"
    by code_simp
  have h3: "wait_for_comcu_bootloader_mode sim_bricklet BOOTLOADER_MODE_BOOTLOADER
         \<lparr>dev = stuck_sim, trace = [SetBootloaderMode 0 (Inr 0)]\<rparr> =
       Some (False,
             \<lparr>dev = stuck_sim,
              trace = [SetBootloaderMode 0 (Inr 0)] @ failed_polls (replicate 10 (Inr 1))
                      @ [GetBootloaderMode (Inr 1)]\<rparr>)"
    by code_simp
  from comcu_mode_loops_bounded[of dead_bricklet BOOTLOADER_MODE_BOOTLOADER dead_world "[]"
      "''firmware.bin''" 0 "Inl timeout_error"] h1
  have c1: "comcu_attempt dead_bricklet [] ''firmware.bin'' 0 dead_world =
       Some (Returned False,
             popup_fail ''Bricklet''
               (''Device did not enter bootloader mode in 2.5 seconds'' @ attempt_str_of 0)
               (progress Cancel
                 \<lparr>dev = (),
                  trace = failed_sets 0 (replicate 10 timeout_error)
                          @ [SetBootloaderMode 0 (Inl timeout_error)]\<rparr>))"
    by blast
  from comcu_mode_loops_bounded[of sim_bricklet BOOTLOADER_MODE_BOOTLOADER "sim_world stuck_sim" "[]"
      "''firmware.bin''" 0 "Inl timeout_error"] h2 h3
  have c2: "comcu_attempt sim_bricklet [] ''firmware.bin'' 0 (sim_world stuck_sim) =
       Some (Returned False,
             popup_fail ''Bricklet''
               (''Device did not enter bootloader mode in 2.5 seconds'' @ attempt_str_of 0)
               (progress Cancel
                 \<lparr>dev = stuck_sim,
                  trace = [SetBootloaderMode 0 (Inr 0)] @ failed_polls (replicate 10 (Inr 1))
                          @ [GetBootloaderMode (Inr 1)]\<rparr>))"
    by blast
  from h1 h2 h3 c1 c2 show ?thesis by blast
qed

lemma bw_no_write: "\<forall>e \<in> set es1. \<not> is_write_event e \<Longrightarrow> bw p (es1 @ es2) = bw p es2"
proof (induction es1)
  case Nil
  show ?case by simp
next
  case (Cons e es1)
  then show ?case by (cases e) auto
qed

lemma bw_no_write_Nil: "\<forall>e \<in> set es. \<not> is_write_event e \<Longrightarrow> bw p es = []"
  using bw_no_write[of es p "[]"] by simp

lemma bw_append_indep: "(\<And>q. bw q es2 = X) \<Longrightarrow> bw p (es1 @ es2) = bw p es1 @ X"
proof (induction p es1 rule: bw.induct)
  case (1 p)
  then show ?case by simp
qed (simp_all)

lemma comcu_write_block_trace:
  "comcu_write_block bricklet plugin block_start block_end tries last_exc w = (res, w') \<Longrightarrow>
   \<exists>es. trace w' = trace w @ es \<and> (\<forall>e \<in> set es. is_write_event e) \<and>
     (tries \<noteq> [] \<longrightarrow> (\<exists>r es'. es = SetWriteFirmwarePointer block_start r # es')) \<and>
     ((res = None \<and> tries \<noteq> [] \<and>
         (\<forall>p. bw p es = [(block_start, py_slice plugin block_start block_end)]))
      \<or> ((tries = [] \<longrightarrow> res = last_exc) \<and> (tries \<noteq> [] \<longrightarrow> res \<noteq> None) \<and> (\<forall>p. bw p es = [])))"
proof (induction tries arbitrary: last_exc w)
  case Nil
  then show ?case by simp
next
  case (Cons t tries)
  let ?sl = "py_slice plugin block_start block_end"
  obtain r1 w1 where c1: "call (set_write_firmware_pointer bricklet block_start)
                (SetWriteFirmwarePointer block_start) w = (r1, w1)"
    by (cases "call (set_write_firmware_pointer bricklet block_start)
                (SetWriteFirmwarePointer block_start) w") auto
  have t1: "trace w1 = trace w @ [SetWriteFirmwarePointer block_start r1]"
    using call_trace[OF c1] .
  show ?case
  proof (cases r1)
    case (Inl e)
    with c1 Cons.prems have rec: "comcu_write_block bricklet plugin block_start block_end tries (Some e) w1 = (res, w')"
      by simp
    from Cons.IH[OF rec] obtain es where
      es: "trace w' = trace w1 @ es" "\<forall>e \<in> set es. is_write_event e"
      and d: "(res = None \<and> tries \<noteq> [] \<and> (\<forall>p. bw p es = [(block_start, ?sl)]))
      \<or> ((tries = [] \<longrightarrow> res = Some e) \<and> (tries \<noteq> [] \<longrightarrow> res \<noteq> None) \<and> (\<forall>p. bw p es = []))"
      by blast
    let ?es = "SetWriteFirmwarePointer block_start r1 # es"
    have "trace w' = trace w @ ?es" using es t1 by simp
    moreover have "\<forall>e \<in> set ?es. is_write_event e" using es by simp
    moreover have "t # tries \<noteq> [] \<longrightarrow> (\<exists>r es'. ?es = SetWriteFirmwarePointer block_start r # es')"
      by simp
    moreover have "(res = None \<and> t # tries \<noteq> [] \<and> (\<forall>p. bw p ?es = [(block_start, ?sl)]))
      \<or> ((t # tries = [] \<longrightarrow> res = last_exc) \<and> (t # tries \<noteq> [] \<longrightarrow> res \<noteq> None) \<and> (\<forall>p. bw p ?es = []))"
      using d Inl by auto
    ultimately show ?thesis by blast
  next
    case (Inr u)
    obtain r2 w2 where c2: "call (write_firmware bricklet ?sl) (WriteFirmware ?sl) w1 = (r2, w2)"
      by (cases "call (write_firmware bricklet ?sl) (WriteFirmware ?sl) w1") auto
    have t2: "trace w2 = trace w1 @ [WriteFirmware ?sl r2]"
      using call_trace[OF c2] .
    show ?thesis
    proof (cases r2)
      case r2l: (Inl e)
      with c1 c2 Inr Cons.prems have rec: "comcu_write_block bricklet plugin block_start block_end tries (Some e) w2 = (res, w')"
        by simp
      from Cons.IH[OF rec] obtain es where
        es: "trace w' = trace w2 @ es" "\<forall>e \<in> set es. is_write_event e"
        and d: "(res = None \<and> tries \<noteq> [] \<and> (\<forall>p. bw p es = [(block_start, ?sl)]))
        \<or> ((tries = [] \<longrightarrow> res = Some e) \<and> (tries \<noteq> [] \<longrightarrow> res \<noteq> None) \<and> (\<forall>p. bw p es = []))"
        by blast
      let ?es = "SetWriteFirmwarePointer block_start r1 # WriteFirmware ?sl r2 # es"
      have "trace w' = trace w @ ?es" using es t1 t2 by simp
      moreover have "\<forall>e \<in> set ?es. is_write_event e" using es by simp
      moreover have "t # tries \<noteq> [] \<longrightarrow> (\<exists>r es'. ?es = SetWriteFirmwarePointer block_start r # es')"
        by simp
    moreover have "t # tries \<noteq> [] \<longrightarrow> (\<exists>r es'. ?es = SetWriteFirmwarePointer block_start r # es')"
      by simp
      moreover have "(res = None \<and> t # tries \<noteq> [] \<and> (\<forall>p. bw p ?es = [(block_start, ?sl)]))
        \<or> ((t # tries = [] \<longrightarrow> res = last_exc) \<and> (t # tries \<noteq> [] \<longrightarrow> res \<noteq> None) \<and> (\<forall>p. bw p ?es = []))"
        using d Inr r2l by auto
      ultimately show ?thesis by blast
    next
      case r2r: (Inr status)
      with c1 c2 Inr Cons.prems have "res = None" "w' = w2" by auto
      with t1 t2 Inr r2r show ?thesis
        by (intro exI[of _ "[SetWriteFirmwarePointer block_start r1, WriteFirmware ?sl r2]"]) auto
    qed
  qed
qed

declare pages_to_write.simps [simp del]

lemma write_event_kinds:
  "is_write_event e \<Longrightarrow> \<not> is_mode_event e \<and> \<not> is_popup e"
  by (cases e) auto

lemma popups_write_events: "\<forall>e \<in> set es. is_write_event e \<Longrightarrow> popups es = []"
  by (induction es) (auto dest: write_event_kinds)

lemma comcu_write_page_trace:
  "comcu_write_page bricklet plugin position offs w = (r, w') \<Longrightarrow>
   \<exists>es. trace w' = trace w @ es \<and> (\<forall>e \<in> set es. \<not> is_mode_event e) \<and>
     (offs \<noteq> [] \<longrightarrow> (\<exists>res es'. es = SetWriteFirmwarePointer (position + hd offs) res # es')) \<and>
     ((r = None \<and> popups es = [] \<and>
        (\<forall>p. bw p es = map (\<lambda>off. (position + off, py_slice plugin (position + off) (position + off + 64))) offs))
      \<or> (r = Some False \<and> (\<exists>msg. popups es = [PopupFail ''Bricklet'' msg]) \<and>
          (\<exists>n < length offs. \<forall>p. bw p es = map (\<lambda>off. (position + off, py_slice plugin (position + off) (position + off + 64))) (take n offs))))"
proof (induction offs arbitrary: w)
  case Nil
  then show ?case by simp
next
  case (Cons off offs)
  let ?f = "\<lambda>off. (position + off, py_slice plugin (position + off) (position + off + 64))"
  obtain rb w1 where b: "comcu_write_block bricklet plugin (position + off) (position + off + 64) [0, 1, 2] None w = (rb, w1)"
    by (cases "comcu_write_block bricklet plugin (position + off) (position + off + 64) [0, 1, 2] None w") auto
  from comcu_write_block_trace[OF b] obtain esb where
    t1: "trace w1 = trace w @ esb" and wr: "\<forall>e \<in> set esb. is_write_event e"
    and hd: "\<exists>r es'. esb = SetWriteFirmwarePointer (position + off) r # es'"
    and d: "(rb = None \<and> (\<forall>p. bw p esb = [?f off])) \<or> (rb \<noteq> None \<and> (\<forall>p. bw p esb = []))"
    by auto
  have nm: "\<forall>e \<in> set esb. \<not> is_mode_event e"
    using wr by (auto dest: write_event_kinds)
  have np: "popups esb = []"
    using wr by (rule popups_write_events)
  show ?case
  proof (cases rb)
    case (Some e)
    let ?es = "esb @ [Progress Cancel, PopupFail ''Bricklet'' (''Could not write plugin: '' @ str_exn e)]"
    from Some b Cons.prems have "r = Some False"
      "w' = popup_fail ''Bricklet'' (''Could not write plugin: '' @ str_exn e) (progress Cancel w1)"
      by (auto simp: Let_def)
    then have "trace w' = trace w @ ?es" using t1 by (simp add: ui_defs)
    moreover have "\<forall>e \<in> set ?es. \<not> is_mode_event e" using nm by simp
    moreover have "\<exists>res es'. ?es = SetWriteFirmwarePointer (position + hd (off # offs)) res # es'"
      using hd by auto
    moreover have "\<exists>msg. popups ?es = [PopupFail ''Bricklet'' msg]" using np by simp
    moreover have "\<forall>p. bw p ?es = map ?f (take 0 (off # offs))"
      using d Some by (simp add: bw_append_indep)
    ultimately show ?thesis using \<open>r = Some False\<close> by (intro exI[of _ ?es]) auto
  next
    case None
    with b Cons.prems have rec: "comcu_write_page bricklet plugin position offs w1 = (r, w')"
      by (simp add: Let_def)
    from Cons.IH[OF rec] obtain es where
      t2: "trace w' = trace w1 @ es" and nm2: "\<forall>e \<in> set es. \<not> is_mode_event e"
      and d2: "(r = None \<and> popups es = [] \<and> (\<forall>p. bw p es = map ?f offs))
      \<or> (r = Some False \<and> (\<exists>msg. popups es = [PopupFail ''Bricklet'' msg]) \<and>
          (\<exists>n < length offs. \<forall>p. bw p es = map ?f (take n offs)))"
      by blast
    let ?es = "esb @ es"
    have b1: "\<forall>p. bw p esb = [?f off]" using d None by simp
    have "trace w' = trace w @ ?es" using t1 t2 by simp
    moreover have "\<forall>e \<in> set ?es. \<not> is_mode_event e" using nm nm2 by auto
    moreover have "\<exists>res es'. ?es = SetWriteFirmwarePointer (position + hd (off # offs)) res # es'"
      using hd by auto
    moreover have "(r = None \<and> popups ?es = [] \<and> (\<forall>p. bw p ?es = map ?f (off # offs)))
      \<or> (r = Some False \<and> (\<exists>msg. popups ?es = [PopupFail ''Bricklet'' msg]) \<and>
          (\<exists>n < length (off # offs). \<forall>p. bw p ?es = map ?f (take n (off # offs))))"
    proof (rule disjE[OF d2])
      assume a: "r = None \<and> popups es = [] \<and> (\<forall>p. bw p es = map ?f offs)"
      then have "\<forall>p. bw p ?es = map ?f (off # offs)"
        using b1 by (simp add: bw_append_indep)
      with a np show ?thesis by simp
    next
      assume a: "r = Some False \<and> (\<exists>msg. popups es = [PopupFail ''Bricklet'' msg]) \<and>
          (\<exists>n < length offs. \<forall>p. bw p es = map ?f (take n offs))"
      then obtain n where n: "n < length offs" "\<forall>p. bw p es = map ?f (take n offs)" by blast
      then have "\<forall>p. bw p ?es = map ?f (take (Suc n) (off # offs))"
        using b1 by (simp add: bw_append_indep)
      with n(1) have "\<exists>n < length (off # offs). \<forall>p. bw p ?es = map ?f (take n (off # offs))"
        by (intro exI[of _ "Suc n"]) simp
      with a np show ?thesis by simp
    qed
    ultimately show ?thesis by (intro exI[of _ ?es]) auto
  qed
qed

lemma loop_unfold:
  "comcu_write_loop bricklet plugin allow_skipping position skipped_pages w =
     (if position < length plugin then
        if skips_page plugin allow_skipping position skipped_pages
        then comcu_write_loop bricklet plugin allow_skipping (position + 256)
               (skipped_pages + 1) w
        else
          (case comcu_write_page bricklet plugin position [0, 64, 128, 192] w of
             (Some r, w1) \<Rightarrow> (Some r, w1)
           | (None, w1) \<Rightarrow>
               comcu_write_loop bricklet plugin allow_skipping (position + 256) 0
                 (progress (SetValue (position + 256)) w1))
      else (None, w))"
  by (subst comcu_write_loop.simps) (simp only: skips_page_def XMC1_PAGE_SIZE_def)

lemma loop_stop:
  "\<not> position < length plugin \<Longrightarrow>
   comcu_write_loop bricklet plugin allow_skipping position skipped_pages w = (None, w)"
  by (subst loop_unfold) (simp only: if_False)

lemma loop_skip:
  "position < length plugin \<Longrightarrow> skips_page plugin allow_skipping position skipped_pages \<Longrightarrow>
   comcu_write_loop bricklet plugin allow_skipping position skipped_pages w =
     comcu_write_loop bricklet plugin allow_skipping (position + 256) (skipped_pages + 1) w"
  by (subst loop_unfold) (simp only: if_True)

lemma loop_write:
  "position < length plugin \<Longrightarrow> \<not> skips_page plugin allow_skipping position skipped_pages \<Longrightarrow>
   comcu_write_loop bricklet plugin allow_skipping position skipped_pages w =
     (case comcu_write_page bricklet plugin position [0, 64, 128, 192] w of
        (Some r, w1) \<Rightarrow> (Some r, w1)
      | (None, w1) \<Rightarrow>
          comcu_write_loop bricklet plugin allow_skipping (position + 256) 0
            (progress (SetValue (position + 256)) w1))"
  by (subst loop_unfold) (simp only: if_True if_False)

lemma pages_unfold:
  "pages_to_write plugin allow_skipping position skipped_pages =
     (if position < length plugin then
        if skips_page plugin allow_skipping position skipped_pages
        then pages_to_write plugin allow_skipping (position + 256) (skipped_pages + 1)
        else position # pages_to_write plugin allow_skipping (position + 256) 0
      else [])"
  by (subst pages_to_write.simps) (simp only: skips_page_def XMC1_PAGE_SIZE_def)

lemma pages_stop:
  "\<not> position < length plugin \<Longrightarrow> pages_to_write plugin allow_skipping position skipped_pages = []"
  by (subst pages_unfold) (simp only: if_False)

lemma pages_skip:
  "position < length plugin \<Longrightarrow> skips_page plugin allow_skipping position skipped_pages \<Longrightarrow>
   pages_to_write plugin allow_skipping position skipped_pages =
     pages_to_write plugin allow_skipping (position + 256) (skipped_pages + 1)"
  by (subst pages_unfold) (simp only: if_True)

lemma pages_write:
  "position < length plugin \<Longrightarrow> \<not> skips_page plugin allow_skipping position skipped_pages \<Longrightarrow>
   pages_to_write plugin allow_skipping position skipped_pages =
     position # pages_to_write plugin allow_skipping (position + 256) 0"
  by (subst pages_unfold) (simp only: if_True if_False)

lemma comcu_write_loop_trace:
  "comcu_write_loop bricklet plugin allow_skipping position skipped_pages w = (r, w') \<Longrightarrow>
   \<exists>es ys. trace w' = trace w @ es \<and> (\<forall>e \<in> set es. \<not> is_mode_event e) \<and>
     (\<forall>p. bw p es @ ys = planned_writes plugin allow_skipping position skipped_pages) \<and>
     ((r = None \<and> ys = [] \<and> popups es = [])
      \<or> (r = Some False \<and> (\<exists>msg. popups es = [PopupFail ''Bricklet'' msg])))"
proof (induction "length plugin - position" arbitrary: position skipped_pages w rule: less_induct)
  case less
  show ?case
  proof (cases "position < length plugin")
    case False
    with less.prems have "r = None" "w' = w" by (simp_all add: loop_stop)
    with False show ?thesis
      by (intro exI[of _ "[]"]) (simp add: planned_writes_def pages_stop)
  next
    case True
    then have lt: "length plugin - (position + 256) < length plugin - position" by simp
    show ?thesis
    proof (cases "skips_page plugin allow_skipping position skipped_pages")
      case skip: True
      from less.prems have "comcu_write_loop bricklet plugin allow_skipping (position + 256)
          (skipped_pages + 1) w = (r, w')"
        by (simp add: loop_skip[OF True skip])
      from less.hyps[OF lt this] show ?thesis
        by (simp add: planned_writes_def pages_skip[OF True skip])
    next
      case noskip: False
      have pl: "planned_writes plugin allow_skipping position skipped_pages =
          page_writes plugin position @ planned_writes plugin allow_skipping (position + 256) 0"
        by (simp add: planned_writes_def pages_write[OF True noskip])
      obtain rp w1 where pg: "comcu_write_page bricklet plugin position [0, 64, 128, 192] w = (rp, w1)"
        by (cases "comcu_write_page bricklet plugin position [0, 64, 128, 192] w") auto
      let ?f = "\<lambda>off. (position + off, py_slice plugin (position + off) (position + off + 64))"
      from comcu_write_page_trace[OF pg] obtain esp where
        t1: "trace w1 = trace w @ esp" and nm: "\<forall>e \<in> set esp. \<not> is_mode_event e"
        and d: "(rp = None \<and> popups esp = [] \<and> (\<forall>p. bw p esp = map ?f [0, 64, 128, 192]))
          \<or> (rp = Some False \<and> (\<exists>msg. popups esp = [PopupFail ''Bricklet'' msg]) \<and>
              (\<exists>n < length [0, 64, 128, 192::nat]. \<forall>p. bw p esp = map ?f (take n [0, 64, 128, 192])))"
        by blast
      show ?thesis
      proof (rule disjE[OF d])
        assume a: "rp = Some False \<and> (\<exists>msg. popups esp = [PopupFail ''Bricklet'' msg]) \<and>
              (\<exists>n < length [0, 64, 128, 192::nat]. \<forall>p. bw p esp = map ?f (take n [0, 64, 128, 192]))"
        then obtain n where "\<forall>p. bw p esp = map ?f (take n [0, 64, 128, 192])"
          by blast
        then have n: "\<forall>p. bw p esp = take n (page_writes plugin position)"
          unfolding page_writes_def by (metis take_map)
        from a pg less.prems have "r = Some False" "w' = w1"
          by (simp_all add: loop_write[OF True noskip])
        moreover have "\<forall>p. bw p esp @ (drop n (page_writes plugin position)
            @ planned_writes plugin allow_skipping (position + 256) 0)
            = planned_writes plugin allow_skipping position skipped_pages"
          using n pl by simp
        ultimately show ?thesis using t1 nm a
          by (intro exI[of _ esp] exI[of _ "drop n (page_writes plugin position)
            @ planned_writes plugin allow_skipping (position + 256) 0"]) simp
      next
        assume a: "rp = None \<and> popups esp = [] \<and> (\<forall>p. bw p esp = map ?f [0, 64, 128, 192])"
        then have bp: "\<forall>p. bw p esp = page_writes plugin position"
          by (simp add: page_writes_def)
        let ?w2 = "progress (SetValue (position + 256)) w1"
        from a pg less.prems have rec: "comcu_write_loop bricklet plugin allow_skipping (position + 256) 0 ?w2 = (r, w')"
          by (simp add: loop_write[OF True noskip])
        from less.hyps[OF lt rec] obtain es ys where
          t2: "trace w' = trace ?w2 @ es" and nm2: "\<forall>e \<in> set es. \<not> is_mode_event e"
          and b2: "\<forall>p. bw p es @ ys = planned_writes plugin allow_skipping (position + 256) 0"
          and d2: "(r = None \<and> ys = [] \<and> popups es = [])
            \<or> (r = Some False \<and> (\<exists>msg. popups es = [PopupFail ''Bricklet'' msg]))"
          by blast
        let ?es = "esp @ Progress (SetValue (position + 256)) # es"
        have ind: "\<And>q. bw q (Progress (SetValue (position + 256)) # es) = bw None es"
        proof -
          fix q
          from b2 have "bw q es @ ys = bw None es @ ys" by simp
          then show "bw q (Progress (SetValue (position + 256)) # es) = bw None es" by simp
        qed
        have "trace w' = trace w @ ?es" using t1 t2 by (simp add: ui_defs)
        moreover have "\<forall>e \<in> set ?es. \<not> is_mode_event e" using nm nm2 by auto
        moreover have "\<forall>p. bw p ?es @ ys = planned_writes plugin allow_skipping position skipped_pages"
          using bw_append_indep[of "Progress (SetValue (position + 256)) # es" "bw None es" _ esp, OF ind]
            bp b2 pl by simp
        moreover have "(r = None \<and> ys = [] \<and> popups ?es = [])
            \<or> (r = Some False \<and> (\<exists>msg. popups ?es = [PopupFail ''Bricklet'' msg]))"
          using d2 a by auto
        ultimately show ?thesis by blast
      qed
    qed
  qed
qed

lemma first_page_not_skipped:
  "\<not> skips_page plugin allow_skipping position (MAX_SKIPPED_PAGES + 1)"
  by (simp add: skips_page_def)

lemma last_page_not_skipped:
  "length plugin - position \<le> 256 \<Longrightarrow> \<not> skips_page plugin allow_skipping position skipped_pages"
  by (simp add: skips_page_def XMC1_PAGE_SIZE_def)

lemma no_skipping: "\<not> skips_page plugin False position skipped_pages"
  by (simp add: skips_page_def)

lemma pages_first:
  "0 < length plugin \<Longrightarrow>
   pages_to_write plugin allow_skipping 0 (MAX_SKIPPED_PAGES + 1) =
     0 # pages_to_write plugin allow_skipping 256 0"
  using pages_write[OF _ first_page_not_skipped, of 0 plugin allow_skipping] by simp

lemma pages_last:
  "position < length plugin \<Longrightarrow> 256 dvd length plugin \<Longrightarrow> 256 dvd position \<Longrightarrow>
   \<exists>xs. pages_to_write plugin allow_skipping position skipped_pages = xs @ [length plugin - 256]"
proof (induction "length plugin - position" arbitrary: position skipped_pages rule: less_induct)
  case less
  from less.prems obtain a b where ab: "length plugin = 256 * a" "position = 256 * b"
    unfolding dvd_def by blast
  with less.prems(1) have "b < a" by simp
  then have ge: "position + 256 \<le> length plugin" using ab by simp
  show ?case
  proof (cases "position + 256 = length plugin")
    case True
    then have ns: "\<not> skips_page plugin allow_skipping position skipped_pages"
      by (intro last_page_not_skipped) simp
    have "pages_to_write plugin allow_skipping (position + 256) 0 = []"
      using True by (simp add: pages_stop)
    with True show ?thesis
      by (simp add: pages_write[OF less.prems(1) ns])
  next
    case False
    with ge have lt: "position + 256 < length plugin" by simp
    have m: "length plugin - (position + 256) < length plugin - position"
      using less.prems(1) by simp
    have d: "256 dvd position + 256" using less.prems(3) by simp
    note IH = less.hyps[OF m lt less.prems(2) d]
    show ?thesis
    proof (cases "skips_page plugin allow_skipping position skipped_pages")
      case True
      from IH[of "skipped_pages + 1"] show ?thesis
        by (simp add: pages_skip[OF less.prems(1) True])
    next
      case False
      from IH[of 0] obtain xs where
        "pages_to_write plugin allow_skipping (position + 256) 0 = xs @ [length plugin - 256]"
        by blast
      then show ?thesis
        by (intro exI[of _ "position # xs"]) (simp add: pages_write[OF less.prems(1) False])
    qed
  qed
qed

lemma pages_no_skipping:
  "256 dvd length plugin \<Longrightarrow> position = 256 * b \<Longrightarrow> position \<le> length plugin \<Longrightarrow>
   pages_to_write plugin False position skipped_pages =
     map (\<lambda>k. 256 * k) [b..<length plugin div 256]"
proof (induction "length plugin - position" arbitrary: position b skipped_pages rule: less_induct)
  case less
  from less.prems obtain a where a: "length plugin = 256 * a" unfolding dvd_def by blast
  show ?case
  proof (cases "position < length plugin")
    case False
    with less.prems a have "b = a" by simp
    with False a show ?thesis by (simp add: pages_stop)
  next
    case True
    with less.prems a have ba: "b < a" by simp
    have m: "length plugin - (position + 256) < length plugin - position" using True by simp
    have p: "position + 256 = 256 * Suc b" using less.prems(2) by simp
    have le: "position + 256 \<le> length plugin" using ba a less.prems(2) by simp
    from less.hyps[OF m less.prems(1) p le, of 0]
    have "pages_to_write plugin False (position + 256) 0 = map (\<lambda>k. 256 * k) [Suc b..<length plugin div 256]" .
    moreover have "[b..<length plugin div 256] = b # [Suc b..<length plugin div 256]"
      using ba a by (simp add: upt_conv_Cons)
    moreover have "pages_to_write plugin False position skipped_pages =
        position # pages_to_write plugin False (position + 256) 0"
      by (rule pages_write[OF True no_skipping])
    ultimately show ?thesis
      using less.prems(2) by simp
  qed
qed

lemma fw_replies_append [simp]: "fw_replies (xs @ ys) = fw_replies xs @ fw_replies ys"
  by (induction xs rule: fw_replies.induct) auto

lemma fw_replies_no_mode: "\<forall>e \<in> set es. \<not> is_mode_event e \<Longrightarrow> fw_replies es = []"
  by (induction es rule: fw_replies.induct) auto

lemma fw_replies_failed_sets [simp]: "fw_replies (failed_sets m excs) = []"
  by (induction excs) (auto simp: failed_sets_def)

lemma fw_replies_failed_polls [simp]: "fw_replies (failed_polls rs) = []"
  by (induction rs) (auto simp: failed_polls_def)

lemma popups_failed_sets [simp]: "popups (failed_sets m excs) = []"
  by (induction excs) (auto simp: failed_sets_def)

lemma popups_failed_polls [simp]: "popups (failed_polls rs) = []"
  by (induction rs) (auto simp: failed_polls_def)

lemma no_write_failed_sets: "\<forall>e \<in> set (failed_sets m excs). \<not> is_write_event e"
  by (induction excs) (auto simp: failed_sets_def)

lemma no_write_failed_polls: "\<forall>e \<in> set (failed_polls rs). \<not> is_write_event e"
  by (induction rs) (auto simp: failed_polls_def)

lemma hd_failed_sets:
  "\<exists>res es'. failed_sets m excs @ [SetBootloaderMode m last_res] = SetBootloaderMode m res # es'"
  by (cases excs) (auto simp: failed_sets_def)

text \<open>The events of a request for a mode, and of the polls for a mode.\<close>

lemma set_comcu_events:
  "set_comcu_bootloader_mode bricklet mode w = Some (r, w') \<Longrightarrow>
   \<exists>es. trace w' = trace w @ es \<and> (\<forall>e \<in> set es. \<not> is_write_event e) \<and> popups es = []
     \<and> (\<exists>res es'. es = SetBootloaderMode mode res # es')
     \<and> (case r of
           None \<Rightarrow> fw_replies es = []
         | Some s \<Rightarrow> \<exists>es0. es = es0 @ [SetBootloaderMode mode (Inr s)] \<and> fw_replies es0 = []
                       \<and> (\<forall>e \<in> set es0. \<not> is_write_event e))"
proof -
  assume a: "set_comcu_bootloader_mode bricklet mode w = Some (r, w')"
  from set_comcu_trace[of bricklet mode w] a obtain excs last_res where
    t: "trace w' = trace w @ failed_sets mode excs @ [SetBootloaderMode mode last_res]"
    and c: "(case r of Some s \<Rightarrow> last_res = Inr s | None \<Rightarrow> length excs = 10 \<and> (\<exists>e. last_res = Inl e))"
    by auto
  let ?es = "failed_sets mode excs @ [SetBootloaderMode mode last_res]"
  have "\<forall>e \<in> set ?es. \<not> is_write_event e" using no_write_failed_sets by auto
  moreover have "popups ?es = []" by simp
  moreover have "\<exists>res es'. ?es = SetBootloaderMode mode res # es'" by (rule hd_failed_sets)
  moreover have "(case r of
           None \<Rightarrow> fw_replies ?es = []
         | Some s \<Rightarrow> \<exists>es0. ?es = es0 @ [SetBootloaderMode mode (Inr s)] \<and> fw_replies es0 = []
                       \<and> (\<forall>e \<in> set es0. \<not> is_write_event e))"
    using c no_write_failed_sets by (auto split: option.splits)
  ultimately show ?thesis using t by blast
qed

lemma wait_for_comcu_events:
  "wait_for_comcu_bootloader_mode bricklet mode w = Some (ok, w') \<Longrightarrow>
   \<exists>rs last_res. trace w' = trace w @ failed_polls rs @ [GetBootloaderMode last_res]
     \<and> (ok \<longleftrightarrow> last_res = Inr mode)"
  using wait_for_comcu_trace[of bricklet mode w] by (auto split: if_splits)

lemma quiet_append: "quiet xs \<Longrightarrow> quiet ys \<Longrightarrow> quiet (xs @ ys)"
  by (auto simp: quiet_def)

lemma quiet_Nil [simp]: "quiet []"
  by (simp add: quiet_def)

lemma quiet_progress [simp]: "quiet (Progress c # es) = quiet es"
  by (simp add: quiet_def)

lemma quiet_bw_left: "quiet xs \<Longrightarrow> bw p (xs @ ys) = bw p ys"
  by (simp add: quiet_def bw_no_write)

lemma quiet_bw_right: "quiet ys \<Longrightarrow> bw p (xs @ ys) = bw p xs"
  using bw_append_indep[of ys "[]" p xs] by (simp add: quiet_def bw_no_write_Nil)

lemma quiet_fw: "quiet es \<Longrightarrow> fw_replies es = []"
  by (simp add: quiet_def)

lemma quiet_popups: "quiet es \<Longrightarrow> popups es = []"
  by (simp add: quiet_def)

lemma set_bootloader_quiet:
  "set_comcu_bootloader_mode bricklet BOOTLOADER_MODE_BOOTLOADER w = Some (r, w') \<Longrightarrow>
   \<exists>es res es'. trace w' = trace w @ es \<and> quiet es
     \<and> es = SetBootloaderMode BOOTLOADER_MODE_BOOTLOADER res # es'"
proof -
  assume a: "set_comcu_bootloader_mode bricklet BOOTLOADER_MODE_BOOTLOADER w = Some (r, w')"
  from set_comcu_events[OF a] obtain es where
    t: "trace w' = trace w @ es" and nw: "\<forall>e \<in> set es. \<not> is_write_event e" and pp: "popups es = []"
    and hd: "\<exists>res es'. es = SetBootloaderMode BOOTLOADER_MODE_BOOTLOADER res # es'"
    and c: "(case r of
           None \<Rightarrow> fw_replies es = []
         | Some s \<Rightarrow> \<exists>es0. es = es0 @ [SetBootloaderMode BOOTLOADER_MODE_BOOTLOADER (Inr s)]
                       \<and> fw_replies es0 = [] \<and> (\<forall>e \<in> set es0. \<not> is_write_event e))"
    by blast
  from c have "fw_replies es = []"
    by (auto split: option.splits simp: BOOTLOADER_MODE_BOOTLOADER_def BOOTLOADER_MODE_FIRMWARE_def)
  with t nw pp hd show ?thesis unfolding quiet_def by blast
qed

lemma wait_for_quiet:
  "wait_for_comcu_bootloader_mode bricklet mode w = Some (ok, w') \<Longrightarrow>
   \<exists>es. trace w' = trace w @ es \<and> quiet es"
proof -
  assume a: "wait_for_comcu_bootloader_mode bricklet mode w = Some (ok, w')"
  from wait_for_comcu_events[OF a] obtain rs last_res where
    "trace w' = trace w @ failed_polls rs @ [GetBootloaderMode last_res]" by blast
  moreover have "quiet (failed_polls rs @ [GetBootloaderMode last_res])"
    using no_write_failed_polls by (auto simp: quiet_def)
  ultimately show ?thesis by blast
qed

lemma set_firmware_events:
  "set_comcu_bootloader_mode bricklet BOOTLOADER_MODE_FIRMWARE w = Some (r, w') \<Longrightarrow>
   (r = None \<and> (\<exists>es. trace w' = trace w @ es \<and> quiet es))
   \<or> (\<exists>s es0. r = Some s \<and> quiet es0
        \<and> trace w' = trace w @ es0 @ [SetBootloaderMode BOOTLOADER_MODE_FIRMWARE (Inr s)])"
proof -
  assume a: "set_comcu_bootloader_mode bricklet BOOTLOADER_MODE_FIRMWARE w = Some (r, w')"
  from set_comcu_events[OF a] obtain es where
    t: "trace w' = trace w @ es" and nw: "\<forall>e \<in> set es. \<not> is_write_event e" and pp: "popups es = []"
    and c: "(case r of
           None \<Rightarrow> fw_replies es = []
         | Some s \<Rightarrow> \<exists>es0. es = es0 @ [SetBootloaderMode BOOTLOADER_MODE_FIRMWARE (Inr s)]
                       \<and> fw_replies es0 = [] \<and> (\<forall>e \<in> set es0. \<not> is_write_event e))"
    by blast
  show ?thesis
  proof (cases r)
    case None
    with c t nw pp show ?thesis by (auto simp: quiet_def)
  next
    case (Some s)
    with c obtain es0 where e0: "es = es0 @ [SetBootloaderMode BOOTLOADER_MODE_FIRMWARE (Inr s)]"
      "fw_replies es0 = []" "\<forall>e \<in> set es0. \<not> is_write_event e" by auto
    with pp have "quiet es0" by (simp add: quiet_def)
    with Some e0 t show ?thesis by auto
  qed
qed

lemma bw_no_write_right: "\<forall>e \<in> set ys. \<not> is_write_event e \<Longrightarrow> bw p (xs @ ys) = bw p xs"
  using bw_append_indep[of ys "[]" p xs] by (simp add: bw_no_write_Nil)

lemma comcu_attempt_trace:
  assumes a: "comcu_attempt bricklet plugin name attempt w = Some (r, w')"
  shows "\<exists>es res es'. trace w' = trace w @ es
     \<and> es = SetBootloaderMode BOOTLOADER_MODE_BOOTLOADER res # es'
     \<and> (case r of
          Break \<Rightarrow>
            \<exists>es0 s. es = es0 @ [SetBootloaderMode BOOTLOADER_MODE_FIRMWARE (Inr s)]
              \<and> (s = 0 \<or> s = 2) \<and> fw_replies es0 = [] \<and> popups es0 = []
              \<and> (\<forall>p. bw p es0 = planned_writes plugin (attempt = 0) 0 (MAX_SKIPPED_PAGES + 1))
        | Continue str \<Rightarrow>
            \<exists>es0. es = es0 @ [SetBootloaderMode BOOTLOADER_MODE_FIRMWARE (Inr 5)]
              \<and> fw_replies es0 = [] \<and> popups es0 = []
              \<and> (\<forall>p. bw p es0 = planned_writes plugin (attempt = 0) 0 (MAX_SKIPPED_PAGES + 1))
              \<and> str = ''CRC Mismatch (Error 5)''
        | Returned x \<Rightarrow>
            \<not> x \<and> (fw_replies es = [] \<or> (\<exists>s. fw_replies es = [s] \<and> s \<noteq> 0 \<and> s \<noteq> 2 \<and> s \<noteq> 5))
              \<and> (\<exists>ys. \<forall>p. bw p es @ ys = planned_writes plugin (attempt = 0) 0 (MAX_SKIPPED_PAGES + 1))
              \<and> (fw_replies es \<noteq> [] \<longrightarrow>
                    (\<forall>p. bw p es = planned_writes plugin (attempt = 0) 0 (MAX_SKIPPED_PAGES + 1)))
              \<and> (\<exists>msg. popups es = [PopupFail ''Bricklet'' msg]))"
proof -
  let ?pl = "planned_writes plugin (attempt = 0) 0 (MAX_SKIPPED_PAGES + 1)"
  let ?B = BOOTLOADER_MODE_BOOTLOADER
  let ?F = BOOTLOADER_MODE_FIRMWARE
  obtain r1 w1 where s1: "set_comcu_bootloader_mode bricklet ?B w = Some (r1, w1)"
    using set_comcu_total by blast
  from set_bootloader_quiet[OF s1] obtain e1 res e1' where
    t1: "trace w1 = trace w @ e1" and q1: "quiet e1" and h1: "e1 = SetBootloaderMode ?B res # e1'"
    by blast
  have fail: "\<exists>es res es'. trace w' = trace w @ es \<and> es = SetBootloaderMode ?B res # es'
      \<and> \<not> False \<and> (fw_replies es = [] \<or> (\<exists>s. fw_replies es = [s] \<and> s \<noteq> 0 \<and> s \<noteq> 2 \<and> s \<noteq> 5))
      \<and> (\<exists>ys. \<forall>p. bw p es @ ys = ?pl) \<and> (fw_replies es \<noteq> [] \<longrightarrow> (\<forall>p. bw p es = ?pl))
      \<and> (\<exists>msg. popups es = [PopupFail ''Bricklet'' msg])"
    if q: "quiet q" and tr: "trace w' = trace w @ e1 @ q @ [Progress Cancel, PopupFail ''Bricklet'' msg]"
    for q msg
  proof -
    let ?es = "e1 @ q @ [Progress Cancel, PopupFail ''Bricklet'' msg]"
    have qq: "quiet (e1 @ q @ [Progress Cancel])" using q1 q by (auto simp: quiet_def)
    have "fw_replies ?es = []" using q1 q by (auto simp: quiet_def)
    moreover have "\<forall>p. bw p ?es @ ?pl = ?pl"
    proof
      fix p
      have "\<forall>e \<in> set ?es. \<not> is_write_event e" using q1 q by (auto simp: quiet_def)
      from bw_no_write_Nil[OF this] show "bw p ?es @ ?pl = ?pl" by simp
    qed
    moreover have "popups ?es = [PopupFail ''Bricklet'' msg]" using q1 q by (auto simp: quiet_def)
    moreover have "?es = SetBootloaderMode ?B res # (e1' @ q @ [Progress Cancel, PopupFail ''Bricklet'' msg])"
      using h1 by simp
    ultimately show ?thesis using tr by blast
  qed
  show ?thesis
  proof (cases r1)
    case None
    with a s1 have "r = Returned False"
      "w' = popup_fail ''Bricklet''
                      (''Device did not enter bootloader mode in 2.5 seconds'' @ attempt_str_of attempt)
                      (progress Cancel w1)"
      by (simp_all add: comcu_attempt_def Let_def)
    with t1 fail[of "[]"] show ?thesis by (simp add: ui_defs)
  next
    case (Some s0)
    obtain ok w2 where s2: "wait_for_comcu_bootloader_mode bricklet ?B w1 = Some (ok, w2)"
      using wait_for_comcu_total by blast
    from wait_for_quiet[OF s2] obtain e2 where t2: "trace w2 = trace w1 @ e2" and q2: "quiet e2"
      by blast
    show ?thesis
    proof (cases ok)
      case False
      with a s1 s2 Some have "r = Returned False"
        "w' = popup_fail ''Bricklet''
                      (''Device did not enter bootloader mode in 2.5 seconds'' @ attempt_str_of attempt)
                      (progress Cancel w2)"
        by (simp_all add: comcu_attempt_def Let_def)
      with t1 t2 fail[OF q2] show ?thesis by (simp add: ui_defs)
    next
      case True
      let ?w3 = "progress Show (progress (SetValue 0) (progress (SetMaximum (length plugin))
                     (progress (SetLabelText (''Writing plugin'' @ attempt_str_of attempt @ '': '' @ name))
                        w2)))"
      let ?e3 = "[Progress (SetLabelText (''Writing plugin'' @ attempt_str_of attempt @ '': '' @ name)),
                  Progress (SetMaximum (length plugin)), Progress (SetValue 0), Progress Show]"
      have t3: "trace ?w3 = trace w @ e1 @ e2 @ ?e3" using t1 t2 by (simp add: ui_defs)
      have q3: "quiet (e2 @ ?e3)" using q2 by (auto simp: quiet_def)
      obtain r4 w4 where s4: "comcu_write_loop bricklet plugin (attempt = 0) 0 (MAX_SKIPPED_PAGES + 1) ?w3 = (r4, w4)"
        by (cases "comcu_write_loop bricklet plugin (attempt = 0) 0 (MAX_SKIPPED_PAGES + 1) ?w3") auto
      from comcu_write_loop_trace[OF s4] obtain e4 ys where
        t4: "trace w4 = trace ?w3 @ e4" and nm4: "\<forall>e \<in> set e4. \<not> is_mode_event e"
        and b4: "\<forall>p. bw p e4 @ ys = ?pl"
        and d4: "(r4 = None \<and> ys = [] \<and> popups e4 = [])
          \<or> (r4 = Some False \<and> (\<exists>msg. popups e4 = [PopupFail ''Bricklet'' msg]))"
        by blast
      have f4: "fw_replies e4 = []" using nm4 by (rule fw_replies_no_mode)
      have bpre: "\<And>p X. bw p (e1 @ (e2 @ ?e3) @ X) = bw p X"
        using q1 q3 by (simp only: quiet_bw_left)
      show ?thesis
      proof (cases r4)
        case r4s: (Some x)
        with d4 obtain msg where x: "x = False" and p4: "popups e4 = [PopupFail ''Bricklet'' msg]"
          by auto
        from r4s a s1 s2 Some True s4 have "r = Returned x" "w' = w4"
          by (simp_all add: comcu_attempt_def Let_def)
        let ?es = "e1 @ (e2 @ ?e3) @ e4"
        have "trace w' = trace w @ ?es" using \<open>w' = w4\<close> t4 t3 by simp
        moreover have "?es = SetBootloaderMode ?B res # (e1' @ (e2 @ ?e3) @ e4)" using h1 by simp
        moreover have "fw_replies ?es = []" using q1 q3 f4 by (auto simp: quiet_def)
        moreover have "\<forall>p. bw p ?es @ ys = ?pl" using b4 bpre[of _ e4] by simp
        moreover have "popups ?es = [PopupFail ''Bricklet'' msg]"
          using q1 q3 p4 by (auto simp: quiet_def)
        ultimately show ?thesis using \<open>r = Returned x\<close> x by (intro exI[of _ ?es]) auto
      next
        case r4n: None
        with d4 have ys: "ys = []" and p4: "popups e4 = []" by auto
        let ?w5 = "progress Show (progress (SetValue 0) (progress (SetMaximum 0)
                     (progress (SetLabelText
                        (''Changing from bootloader mode to firmware mode'' @ attempt_str_of attempt)) w4)))"
        let ?e5 = "[Progress (SetLabelText
                        (''Changing from bootloader mode to firmware mode'' @ attempt_str_of attempt)),
                    Progress (SetMaximum 0), Progress (SetValue 0), Progress Show]"
        have t5: "trace ?w5 = trace w @ e1 @ (e2 @ ?e3) @ e4 @ ?e5" using t4 t3 by (simp add: ui_defs)
        obtain r6 w6 where s6: "set_comcu_bootloader_mode bricklet ?F ?w5 = Some (r6, w6)"
          using set_comcu_total by blast
        have unf: "comcu_attempt bricklet plugin name attempt w =
            (case r6 of
               None \<Rightarrow> Some (Returned False,
                        popup_fail ''Bricklet'' ''Device did not enter firmware mode in 2.5 seconds''
                          (progress Cancel w6))
             | Some mode_ret \<Rightarrow>
                  if mode_ret = 0 \<or> mode_ret = 2 then Some (Break, w6)
                  else if mode_ret = 5 then Some (Continue (comcu_error_str mode_ret), w6)
                  else
                    Some (Returned False,
                          popup_fail ''Bricklet''
                            (''Could not change from bootloader mode to firmware mode: ''
                               @ comcu_error_str mode_ret)
                            (progress Cancel w6)))"
          using s1 s2 Some True s4 r4n s6
          by (simp add: comcu_attempt_def Let_def split: option.splits)
        have bq: "\<And>p q. quiet q \<Longrightarrow> bw p (e1 @ (e2 @ ?e3) @ e4 @ ?e5 @ q) = ?pl"
        proof -
          fix p q assume "quiet q"
          then have "quiet (?e5 @ q)" by (auto simp: quiet_def)
          then have "bw p (e4 @ ?e5 @ q) = bw p e4" by (rule quiet_bw_right)
          with b4 ys bpre[of p "e4 @ ?e5 @ q"] show "bw p (e1 @ (e2 @ ?e3) @ e4 @ ?e5 @ q) = ?pl"
            by simp
        qed
        have fq: "\<And>q. quiet q \<Longrightarrow> fw_replies (e1 @ (e2 @ ?e3) @ e4 @ ?e5 @ q) = []
            \<and> popups (e1 @ (e2 @ ?e3) @ e4 @ ?e5 @ q) = []"
          using q1 q3 f4 p4 by (auto simp: quiet_def)
        from set_firmware_events[OF s6]
        show ?thesis
        proof (elim disjE conjE exE)
          fix e6 assume n: "r6 = None" and t6: "trace w6 = trace ?w5 @ e6" and q6: "quiet e6"
          let ?msg = "''Device did not enter firmware mode in 2.5 seconds''"
          let ?es = "e1 @ (e2 @ ?e3) @ e4 @ ?e5 @ e6 @ [Progress Cancel, PopupFail ''Bricklet'' ?msg]"
          from n unf a have "r = Returned False"
            "w' = popup_fail ''Bricklet'' ?msg (progress Cancel w6)" by simp_all
          then have "trace w' = trace w @ ?es" using t6 t5 by (simp add: ui_defs)
          moreover have "?es = SetBootloaderMode ?B res # (e1' @ (e2 @ ?e3) @ e4 @ ?e5 @ e6 @ [Progress Cancel, PopupFail ''Bricklet'' ?msg])"
            using h1 by simp
          moreover have "fw_replies ?es = []" using fq[OF q6] by simp
          moreover have "popups ?es = [PopupFail ''Bricklet'' ?msg]" using fq[OF q6] by simp
          moreover have "\<forall>p. bw p ?es @ [] = ?pl"
          proof
            fix p
            have "bw p ((e1 @ (e2 @ ?e3) @ e4 @ ?e5 @ e6) @ [Progress Cancel, PopupFail ''Bricklet'' ?msg])
                = bw p (e1 @ (e2 @ ?e3) @ e4 @ ?e5 @ e6)"
              by (rule bw_no_write_right) simp
            with bq[OF q6, of p] show "bw p ?es @ [] = ?pl" by simp
          qed
          ultimately show ?thesis using \<open>r = Returned False\<close> by (intro exI[of _ ?es]) auto
        next
          fix s e6 assume sm: "r6 = Some s" and q6: "quiet e6"
            and t6: "trace w6 = trace ?w5 @ e6 @ [SetBootloaderMode ?F (Inr s)]"
          let ?esz = "e1 @ (e2 @ ?e3) @ e4 @ ?e5 @ e6"
          have es0: "fw_replies ?esz = []" "popups ?esz = []" "\<forall>p. bw p ?esz = ?pl"
            using fq[OF q6] bq[OF q6] by simp_all
          have hd0: "?esz @ [SetBootloaderMode ?F (Inr s)]
              = SetBootloaderMode ?B res # (e1' @ (e2 @ ?e3) @ e4 @ ?e5 @ e6 @ [SetBootloaderMode ?F (Inr s)])"
            using h1 by simp
          consider (ok) "s = 0 \<or> s = 2" | (crc) "s = 5" | (other) "s \<noteq> 0" "s \<noteq> 2" "s \<noteq> 5"
            by blast
          then show ?thesis
          proof cases
            case ok
            with sm unf a have "r = Break" "w' = w6" by auto
            then have "trace w' = trace w @ ?esz @ [SetBootloaderMode ?F (Inr s)]"
              using t6 t5 by simp
            with hd0 es0 ok \<open>r = Break\<close> show ?thesis
              by (intro exI[of _ "?esz @ [SetBootloaderMode ?F (Inr s)]"]) auto
          next
            case crc
            with sm unf a have "r = Continue ''CRC Mismatch (Error 5)''" "w' = w6" by auto
            then have "trace w' = trace w @ ?esz @ [SetBootloaderMode ?F (Inr s)]"
              using t6 t5 by simp
            with hd0 es0 crc \<open>r = Continue ''CRC Mismatch (Error 5)''\<close> show ?thesis
              by (intro exI[of _ "?esz @ [SetBootloaderMode ?F (Inr s)]"]) auto
          next
            case other
            let ?msg = "''Could not change from bootloader mode to firmware mode: '' @ comcu_error_str s"
            let ?es = "?esz @ [SetBootloaderMode ?F (Inr s), Progress Cancel, PopupFail ''Bricklet'' ?msg]"
            from other sm unf a have "r = Returned False"
              "w' = popup_fail ''Bricklet'' ?msg (progress Cancel w6)" by auto
            then have "trace w' = trace w @ ?es" using t6 t5 by (simp add: ui_defs)
            moreover have "?es = SetBootloaderMode ?B res # (e1' @ (e2 @ ?e3) @ e4 @ ?e5 @ e6
                @ [SetBootloaderMode ?F (Inr s), Progress Cancel, PopupFail ''Bricklet'' ?msg])"
              using h1 by simp
            moreover have "fw_replies ?es = [s]" using es0(1) by simp
            moreover have "popups ?es = [PopupFail ''Bricklet'' ?msg]" using es0(2) by simp
            moreover have "\<forall>p. bw p ?es @ [] = ?pl"
            proof
              fix p
              have "bw p ?es = bw p ?esz"
                by (rule bw_no_write_right) simp
              with es0(3) show "bw p ?es @ [] = ?pl" by simp
            qed
            ultimately show ?thesis using \<open>r = Returned False\<close> other
              by (intro exI[of _ ?es]) auto
          qed
        qed
      qed
    qed
  qed
qed

lemma final_confirmation:
  assumes "(case wait_for_comcu_bootloader_mode bricklet BOOTLOADER_MODE_FIRMWARE w2 of
              None \<Rightarrow> None
            | Some (False, w3) \<Rightarrow>
                Some (False,
                      popup_fail ''Bricklet'' ''Device did not enter firmware mode in 2.5 seconds''
                        (progress Cancel w3))
            | Some (True, w3) \<Rightarrow> Some (True, w3)) = Some (r, w')"
  shows "\<exists>rs last_res. trace w' = trace w2 @ confirmation r rs last_res
           \<and> (r \<longleftrightarrow> last_res = Inr BOOTLOADER_MODE_FIRMWARE)"
proof -
  obtain ok w3 where s: "wait_for_comcu_bootloader_mode bricklet BOOTLOADER_MODE_FIRMWARE w2 = Some (ok, w3)"
    using wait_for_comcu_total by blast
  from wait_for_comcu_events[OF s] obtain rs last_res where
    t: "trace w3 = trace w2 @ failed_polls rs @ [GetBootloaderMode last_res]"
    and c: "ok \<longleftrightarrow> last_res = Inr BOOTLOADER_MODE_FIRMWARE" by blast
  from assms s have "r = ok"
    "w' = (if ok then w3 else popup_fail ''Bricklet'' ''Device did not enter firmware mode in 2.5 seconds''
                        (progress Cancel w3))"
    by (cases ok; simp)+
  with t c show ?thesis
    by (intro exI[of _ rs] exI[of _ last_res]) (simp add: confirmation_def ui_defs)
qed

lemma strip_head:
  "SetBootloaderMode BOOTLOADER_MODE_BOOTLOADER res # es' =
     es0 @ [SetBootloaderMode BOOTLOADER_MODE_FIRMWARE (Inr s)] \<Longrightarrow>
   \<exists>es3. es' = es3 @ [SetBootloaderMode BOOTLOADER_MODE_FIRMWARE (Inr s)]
     \<and> es0 = SetBootloaderMode BOOTLOADER_MODE_BOOTLOADER res # es3"
  by (cases es0) (auto simp: BOOTLOADER_MODE_BOOTLOADER_def BOOTLOADER_MODE_FIRMWARE_def)

lemma skip_head:
  "fw_replies (SetBootloaderMode BOOTLOADER_MODE_BOOTLOADER res # es) = fw_replies es"
  "popups (SetBootloaderMode BOOTLOADER_MODE_BOOTLOADER res # es) = popups es"
  "bw p (SetBootloaderMode BOOTLOADER_MODE_BOOTLOADER res # es) = bw p es"
  by (cases res; simp add: BOOTLOADER_MODE_BOOTLOADER_def BOOTLOADER_MODE_FIRMWARE_def)+

lemma comcu_run_cases:
  assumes zf: "zip_file = Inr zf"
    and ff: "find_firmware zf (namelist zf) name = Inr (fw_name, Some plugin)"
    and mg: "regular_plugin_upto plugin \<noteq> - 1"
    and pg: "length plugin mod XMC1_PAGE_SIZE = 0"
    and run: "write_bricklet_plugin_comcu zip_file bricklet name w = Some (r, w')"
  obtains
    (abort) es where
      "new_events w w' = starting @ es" "\<not> r"
      "fw_replies es = [] \<or> (\<exists>s. fw_replies es = [s] \<and> s \<noteq> 0 \<and> s \<noteq> 2 \<and> s \<noteq> 5)"
      "\<exists>ys. \<forall>p. bw p es @ ys = planned_writes plugin True 0 (MAX_SKIPPED_PAGES + 1)"
      "fw_replies es \<noteq> [] \<longrightarrow>
         (\<forall>p. bw p es = planned_writes plugin True 0 (MAX_SKIPPED_PAGES + 1))"
      "\<exists>msg. popups es = [PopupFail ''Bricklet'' msg]"
  | (accept) es1 s rs last_res where
      "new_events w w' = starting @ es1
         @ SetBootloaderMode BOOTLOADER_MODE_FIRMWARE (Inr s) # confirmation r rs last_res"
      "s = 0 \<or> s = 2" "fw_replies es1 = []" "popups es1 = []"
      "\<forall>p. bw p es1 = planned_writes plugin True 0 (MAX_SKIPPED_PAGES + 1)"
      "r \<longleftrightarrow> last_res = Inr BOOTLOADER_MODE_FIRMWARE"
  | (retry_abort) es1 res es2 where
      "new_events w w' = starting @ es1
         @ SetBootloaderMode BOOTLOADER_MODE_FIRMWARE (Inr 5)
         # SetBootloaderMode BOOTLOADER_MODE_BOOTLOADER res # es2"
      "fw_replies es1 = []" "popups es1 = []"
      "\<forall>p. bw p es1 = planned_writes plugin True 0 (MAX_SKIPPED_PAGES + 1)"
      "\<not> r"
      "fw_replies es2 = [] \<or> (\<exists>s. fw_replies es2 = [s] \<and> s \<noteq> 0 \<and> s \<noteq> 2 \<and> s \<noteq> 5)"
      "\<exists>ys. \<forall>p. bw p es2 @ ys = planned_writes plugin False 0 (MAX_SKIPPED_PAGES + 1)"
      "fw_replies es2 \<noteq> [] \<longrightarrow>
         (\<forall>p. bw p es2 = planned_writes plugin False 0 (MAX_SKIPPED_PAGES + 1))"
      "\<exists>msg. popups es2 = [PopupFail ''Bricklet'' msg]"
  | (retry_accept) es1 res es3 s rs last_res where
      "new_events w w' = starting @ es1
         @ SetBootloaderMode BOOTLOADER_MODE_FIRMWARE (Inr 5)
         # SetBootloaderMode BOOTLOADER_MODE_BOOTLOADER res
         # es3 @ SetBootloaderMode BOOTLOADER_MODE_FIRMWARE (Inr s) # confirmation r rs last_res"
      "fw_replies es1 = []" "popups es1 = []"
      "\<forall>p. bw p es1 = planned_writes plugin True 0 (MAX_SKIPPED_PAGES + 1)"
      "s = 0 \<or> s = 2" "fw_replies es3 = []" "popups es3 = []"
      "\<forall>p. bw p es3 = planned_writes plugin False 0 (MAX_SKIPPED_PAGES + 1)"
      "r \<longleftrightarrow> last_res = Inr BOOTLOADER_MODE_FIRMWARE"
  | (retry_crc) es1 res es3 where
      "new_events w w' = starting @ es1
         @ SetBootloaderMode BOOTLOADER_MODE_FIRMWARE (Inr 5)
         # SetBootloaderMode BOOTLOADER_MODE_BOOTLOADER res
         # es3 @ SetBootloaderMode BOOTLOADER_MODE_FIRMWARE (Inr 5) # crc_failure"
      "fw_replies es1 = []" "popups es1 = []"
      "\<forall>p. bw p es1 = planned_writes plugin True 0 (MAX_SKIPPED_PAGES + 1)"
      "\<not> r" "fw_replies es3 = []" "popups es3 = []"
      "\<forall>p. bw p es3 = planned_writes plugin False 0 (MAX_SKIPPED_PAGES + 1)"
proof -
  let ?B = BOOTLOADER_MODE_BOOTLOADER
  let ?F = BOOTLOADER_MODE_FIRMWARE
  let ?w1 = "progress Show (progress (SetValue 0) (progress (SetMaximum 0)
                 (progress (SetLabelText ''Starting bootloader mode'') w)))"
  have t1: "trace ?w1 = trace w @ starting" by (simp add: ui_defs starting_def)
  have unf: "write_bricklet_plugin_comcu zip_file bricklet name w =
      (case comcu_attempts bricklet plugin fw_name [0, 1] [] ?w1 of
                   None \<Rightarrow> None
                 | Some (Returned r, w2) \<Rightarrow> Some (r, w2)
                 | Some (Continue error_str, w2) \<Rightarrow>
                     Some (False,
                           popup_fail ''Bricklet''
                             (''Could not change from bootloader mode to firmware mode: ''
                                @ error_str)
                             (progress Cancel w2))
                 | Some (Break, w2) \<Rightarrow>
                     (case wait_for_comcu_bootloader_mode bricklet BOOTLOADER_MODE_FIRMWARE w2 of
                        None \<Rightarrow> None
                      | Some (False, w3) \<Rightarrow>
                          Some (False,
                                popup_fail ''Bricklet''
                                  ''Device did not enter firmware mode in 2.5 seconds''
                                  (progress Cancel w3))
                      | Some (True, w3) \<Rightarrow> Some (True, w3)))"
    using zf ff mg pg by (simp add: write_bricklet_plugin_comcu_def Let_def)
  obtain ra wa where a1: "comcu_attempt bricklet plugin fw_name 0 ?w1 = Some (ra, wa)"
    using comcu_attempt_total by blast
  from comcu_attempt_trace[OF a1] have "\<exists>ea resa ea'. trace wa = trace ?w1 @ ea
      \<and> ea = SetBootloaderMode ?B resa # ea'
      \<and> (case ra of
          Break \<Rightarrow>
            \<exists>es0 s. ea = es0 @ [SetBootloaderMode ?F (Inr s)]
              \<and> (s = 0 \<or> s = 2) \<and> fw_replies es0 = [] \<and> popups es0 = []
              \<and> (\<forall>p. bw p es0 = planned_writes plugin True 0 (MAX_SKIPPED_PAGES + 1))
        | Continue str \<Rightarrow>
            \<exists>es0. ea = es0 @ [SetBootloaderMode ?F (Inr 5)]
              \<and> fw_replies es0 = [] \<and> popups es0 = []
              \<and> (\<forall>p. bw p es0 = planned_writes plugin True 0 (MAX_SKIPPED_PAGES + 1))
              \<and> str = ''CRC Mismatch (Error 5)''
        | Returned x \<Rightarrow>
            \<not> x \<and> (fw_replies ea = [] \<or> (\<exists>s. fw_replies ea = [s] \<and> s \<noteq> 0 \<and> s \<noteq> 2 \<and> s \<noteq> 5))
              \<and> (\<exists>ys. \<forall>p. bw p ea @ ys = planned_writes plugin True 0 (MAX_SKIPPED_PAGES + 1))
              \<and> (fw_replies ea \<noteq> [] \<longrightarrow>
                    (\<forall>p. bw p ea = planned_writes plugin True 0 (MAX_SKIPPED_PAGES + 1)))
              \<and> (\<exists>msg. popups ea = [PopupFail ''Bricklet'' msg]))"
    by (simp only: simp_thms)
  then obtain ea resa ea' where
    ta: "trace wa = trace ?w1 @ ea" and ha: "ea = SetBootloaderMode ?B resa # ea'"
    and ca: "(case ra of
          Break \<Rightarrow>
            \<exists>es0 s. ea = es0 @ [SetBootloaderMode ?F (Inr s)]
              \<and> (s = 0 \<or> s = 2) \<and> fw_replies es0 = [] \<and> popups es0 = []
              \<and> (\<forall>p. bw p es0 = planned_writes plugin True 0 (MAX_SKIPPED_PAGES + 1))
        | Continue str \<Rightarrow>
            \<exists>es0. ea = es0 @ [SetBootloaderMode ?F (Inr 5)]
              \<and> fw_replies es0 = [] \<and> popups es0 = []
              \<and> (\<forall>p. bw p es0 = planned_writes plugin True 0 (MAX_SKIPPED_PAGES + 1))
              \<and> str = ''CRC Mismatch (Error 5)''
        | Returned x \<Rightarrow>
            \<not> x \<and> (fw_replies ea = [] \<or> (\<exists>s. fw_replies ea = [s] \<and> s \<noteq> 0 \<and> s \<noteq> 2 \<and> s \<noteq> 5))
              \<and> (\<exists>ys. \<forall>p. bw p ea @ ys = planned_writes plugin True 0 (MAX_SKIPPED_PAGES + 1))
              \<and> (fw_replies ea \<noteq> [] \<longrightarrow>
                    (\<forall>p. bw p ea = planned_writes plugin True 0 (MAX_SKIPPED_PAGES + 1)))
              \<and> (\<exists>msg. popups ea = [PopupFail ''Bricklet'' msg]))"
    by blast
  show ?thesis
  proof (cases ra)
    case (Returned x)
    with a1 unf run have "r = x" "w' = wa" by simp_all
    with ta t1 have "new_events w w' = starting @ ea" by (simp add: new_events_def)
    with ca Returned \<open>r = x\<close> show ?thesis by (intro abort[of ea]) simp_all
  next
    case Break
    with ca obtain es1 s where e1: "ea = es1 @ [SetBootloaderMode ?F (Inr s)]" "s = 0 \<or> s = 2"
      "fw_replies es1 = []" "popups es1 = []"
      "\<forall>p. bw p es1 = planned_writes plugin True 0 (MAX_SKIPPED_PAGES + 1)"
      by auto
    from Break a1 unf run have "(case wait_for_comcu_bootloader_mode bricklet BOOTLOADER_MODE_FIRMWARE wa of
                        None \<Rightarrow> None
                      | Some (False, w3) \<Rightarrow>
                          Some (False,
                                popup_fail ''Bricklet''
                                  ''Device did not enter firmware mode in 2.5 seconds''
                                  (progress Cancel w3))
                      | Some (True, w3) \<Rightarrow> Some (True, w3)) = Some (r, w')"
      by simp
    from final_confirmation[OF this] obtain rs last_res where
      "trace w' = trace wa @ confirmation r rs last_res" "r \<longleftrightarrow> last_res = Inr ?F" by blast
    with ta t1 e1(1) have "new_events w w' = starting @ es1 @ SetBootloaderMode ?F (Inr s) # confirmation r rs last_res"
      by (simp add: new_events_def)
    with e1 \<open>r \<longleftrightarrow> last_res = Inr ?F\<close> show ?thesis
      by (intro accept[of es1 s rs last_res]) simp_all
  next
    case (Continue str)
    with ca obtain es1 where e1: "ea = es1 @ [SetBootloaderMode ?F (Inr 5)]"
      "fw_replies es1 = []" "popups es1 = []"
      "\<forall>p. bw p es1 = planned_writes plugin True 0 (MAX_SKIPPED_PAGES + 1)"
      by auto
    obtain rb wb where a2: "comcu_attempt bricklet plugin fw_name 1 wa = Some (rb, wb)"
      using comcu_attempt_total by blast
    have neq: "((1::nat) = 0) = False" by simp
    from comcu_attempt_trace[OF a2] have "\<exists>eb resb eb'. trace wb = trace wa @ eb
      \<and> eb = SetBootloaderMode ?B resb # eb'
      \<and> (case rb of
          Break \<Rightarrow>
            \<exists>es0 s. eb = es0 @ [SetBootloaderMode ?F (Inr s)]
              \<and> (s = 0 \<or> s = 2) \<and> fw_replies es0 = [] \<and> popups es0 = []
              \<and> (\<forall>p. bw p es0 = planned_writes plugin False 0 (MAX_SKIPPED_PAGES + 1))
        | Continue str \<Rightarrow>
            \<exists>es0. eb = es0 @ [SetBootloaderMode ?F (Inr 5)]
              \<and> fw_replies es0 = [] \<and> popups es0 = []
              \<and> (\<forall>p. bw p es0 = planned_writes plugin False 0 (MAX_SKIPPED_PAGES + 1))
              \<and> str = ''CRC Mismatch (Error 5)''
        | Returned x \<Rightarrow>
            \<not> x \<and> (fw_replies eb = [] \<or> (\<exists>s. fw_replies eb = [s] \<and> s \<noteq> 0 \<and> s \<noteq> 2 \<and> s \<noteq> 5))
              \<and> (\<exists>ys. \<forall>p. bw p eb @ ys = planned_writes plugin False 0 (MAX_SKIPPED_PAGES + 1))
              \<and> (fw_replies eb \<noteq> [] \<longrightarrow>
                    (\<forall>p. bw p eb = planned_writes plugin False 0 (MAX_SKIPPED_PAGES + 1)))
              \<and> (\<exists>msg. popups eb = [PopupFail ''Bricklet'' msg]))"
      by (simp only: neq)
    then obtain eb resb eb' where
      tb: "trace wb = trace wa @ eb" and hb: "eb = SetBootloaderMode ?B resb # eb'"
      and cb: "(case rb of
          Break \<Rightarrow>
            \<exists>es0 s. eb = es0 @ [SetBootloaderMode ?F (Inr s)]
              \<and> (s = 0 \<or> s = 2) \<and> fw_replies es0 = [] \<and> popups es0 = []
              \<and> (\<forall>p. bw p es0 = planned_writes plugin False 0 (MAX_SKIPPED_PAGES + 1))
        | Continue str \<Rightarrow>
            \<exists>es0. eb = es0 @ [SetBootloaderMode ?F (Inr 5)]
              \<and> fw_replies es0 = [] \<and> popups es0 = []
              \<and> (\<forall>p. bw p es0 = planned_writes plugin False 0 (MAX_SKIPPED_PAGES + 1))
              \<and> str = ''CRC Mismatch (Error 5)''
        | Returned x \<Rightarrow>
            \<not> x \<and> (fw_replies eb = [] \<or> (\<exists>s. fw_replies eb = [s] \<and> s \<noteq> 0 \<and> s \<noteq> 2 \<and> s \<noteq> 5))
              \<and> (\<exists>ys. \<forall>p. bw p eb @ ys = planned_writes plugin False 0 (MAX_SKIPPED_PAGES + 1))
              \<and> (fw_replies eb \<noteq> [] \<longrightarrow>
                    (\<forall>p. bw p eb = planned_writes plugin False 0 (MAX_SKIPPED_PAGES + 1)))
              \<and> (\<exists>msg. popups eb = [PopupFail ''Bricklet'' msg]))"
      by blast
    have att: "comcu_attempts bricklet plugin fw_name [0, 1] [] ?w1 =
        (case rb of Continue e \<Rightarrow> Some (Continue e, wb) | x \<Rightarrow> Some (x, wb))"
      using a1 a2 Continue by (cases rb) simp_all
    have pre: "\<And>X. trace w' = trace wb @ X \<Longrightarrow>
        new_events w w' = starting @ es1 @ SetBootloaderMode ?F (Inr 5) # SetBootloaderMode ?B resb # eb' @ X"
      using ta tb t1 e1(1) hb by (simp add: new_events_def)
    show ?thesis
    proof (cases rb)
      case (Returned x)
      with att unf run have "r = x" "w' = wb" by simp_all
      with pre[of "[]"] have ne: "new_events w w' = starting @ es1 @ SetBootloaderMode ?F (Inr 5) # SetBootloaderMode ?B resb # eb'"
        by simp
      have q: "fw_replies eb' = fw_replies eb" "popups eb' = popups eb" "\<And>p. bw p eb' = bw p eb"
        unfolding hb by (simp_all only: skip_head)
      from cb Returned \<open>r = x\<close> q have "\<not> r \<and> (fw_replies eb' = [] \<or> (\<exists>s. fw_replies eb' = [s] \<and> s \<noteq> 0 \<and> s \<noteq> 2 \<and> s \<noteq> 5))
                 \<and> (\<exists>ys. \<forall>p. bw p eb' @ ys = planned_writes plugin False 0 (MAX_SKIPPED_PAGES + 1))
                 \<and> (fw_replies eb' \<noteq> [] \<longrightarrow>
                       (\<forall>p. bw p eb' = planned_writes plugin False 0 (MAX_SKIPPED_PAGES + 1)))
                 \<and> (\<exists>msg. popups eb' = [PopupFail ''Bricklet'' msg])"
        by simp
      with ne e1 show ?thesis
        by (intro retry_abort[of es1 resb eb']) simp_all
    next
      case Break
      with cb obtain es0 s where e0: "eb = es0 @ [SetBootloaderMode ?F (Inr s)]" "s = 0 \<or> s = 2"
        "fw_replies es0 = []" "popups es0 = []"
        "\<forall>p. bw p es0 = planned_writes plugin False 0 (MAX_SKIPPED_PAGES + 1)"
        by auto
      from strip_head[OF e0(1)[unfolded hb]] obtain es3 where
        e3a: "eb' = es3 @ [SetBootloaderMode ?F (Inr s)]" "es0 = SetBootloaderMode ?B resb # es3"
        by blast
      from e0 e3a have e3: "eb' = es3 @ [SetBootloaderMode ?F (Inr s)]" "s = 0 \<or> s = 2"
        "fw_replies es3 = []" "popups es3 = []"
        "\<forall>p. bw p es3 = planned_writes plugin False 0 (MAX_SKIPPED_PAGES + 1)"
        by (simp_all add: skip_head)
      from Break att unf run have "(case wait_for_comcu_bootloader_mode bricklet BOOTLOADER_MODE_FIRMWARE wb of
                        None \<Rightarrow> None
                      | Some (False, w3) \<Rightarrow>
                          Some (False,
                                popup_fail ''Bricklet''
                                  ''Device did not enter firmware mode in 2.5 seconds''
                                  (progress Cancel w3))
                      | Some (True, w3) \<Rightarrow> Some (True, w3)) = Some (r, w')"
        by simp
      from final_confirmation[OF this] obtain rs last_res where
        f: "trace w' = trace wb @ confirmation r rs last_res" "r \<longleftrightarrow> last_res = Inr ?F" by blast
      from pre[OF f(1)] e3(1) have "new_events w w' = starting @ es1 @ SetBootloaderMode ?F (Inr 5)
          # SetBootloaderMode ?B resb # es3 @ SetBootloaderMode ?F (Inr s) # confirmation r rs last_res"
        by simp
      with e1 e3 f(2) show ?thesis
        by (intro retry_accept[of es1 resb es3 s rs last_res]) simp_all
    next
      case c2: (Continue str2)
      with cb obtain es0 where e0: "eb = es0 @ [SetBootloaderMode ?F (Inr 5)]"
        "fw_replies es0 = []" "popups es0 = []"
        "\<forall>p. bw p es0 = planned_writes plugin False 0 (MAX_SKIPPED_PAGES + 1)"
        and str2: "str2 = ''CRC Mismatch (Error 5)''"
        by auto
      from strip_head[OF e0(1)[unfolded hb]] obtain es3 where
        e3a: "eb' = es3 @ [SetBootloaderMode ?F (Inr 5)]" "es0 = SetBootloaderMode ?B resb # es3"
        by blast
      from e0 e3a have e3: "eb' = es3 @ [SetBootloaderMode ?F (Inr 5)]"
        "fw_replies es3 = []" "popups es3 = []"
        "\<forall>p. bw p es3 = planned_writes plugin False 0 (MAX_SKIPPED_PAGES + 1)"
        by (simp_all add: skip_head)
      from c2 att unf run str2 have "r = False" "w' = popup_fail ''Bricklet''
                             (''Could not change from bootloader mode to firmware mode: ''
                                @ ''CRC Mismatch (Error 5)'')
                             (progress Cancel wb)"
        by simp_all
      then have "trace w' = trace wb @ crc_failure" by (simp add: ui_defs crc_failure_def)
      from pre[OF this] e3(1) have "new_events w w' = starting @ es1 @ SetBootloaderMode ?F (Inr 5)
          # SetBootloaderMode ?B resb # es3 @ SetBootloaderMode ?F (Inr 5) # crc_failure"
        by simp
      with e1 e3 \<open>r = False\<close> show ?thesis
        by (intro retry_crc[of es1 resb es3]) simp_all
    qed
  qed
qed

lemma planned_no_skipping:
  "length plugin mod XMC1_PAGE_SIZE = 0 \<Longrightarrow>
   planned_writes plugin False 0 skipped_pages = whole_image plugin"
proof -
  assume "length plugin mod XMC1_PAGE_SIZE = 0"
  then have "256 dvd length plugin" by (simp add: XMC1_PAGE_SIZE_def dvd_eq_mod_eq_0)
  from pages_no_skipping[OF this, of 0 0 skipped_pages]
  show ?thesis by (simp add: planned_writes_def whole_image_def comp_def)
qed

lemma fw_replies_starting [simp]: "fw_replies starting = []"
  by (simp add: starting_def)

lemma popups_starting [simp]: "popups starting = []"
  by (simp add: starting_def)

lemma bw_starting [simp]: "bw p (starting @ es) = bw p es"
  by (simp add: starting_def)

lemma fw_replies_confirmation [simp]: "fw_replies (confirmation ok rs last_res) = []"
  by (simp add: confirmation_def)

lemma popups_confirmation:
  "popups (confirmation ok rs last_res) =
     (if ok then [] else [PopupFail ''Bricklet'' ''Device did not enter firmware mode in 2.5 seconds''])"
  by (simp add: confirmation_def)

lemma no_write_confirmation: "\<forall>e \<in> set (confirmation ok rs last_res). \<not> is_write_event e"
  using no_write_failed_polls by (auto simp: confirmation_def)

lemma bw_confirmation [simp]: "bw p (confirmation ok rs last_res) = []"
  by (rule bw_no_write_Nil[OF no_write_confirmation])

lemma fw_reply_F [simp]:
  "fw_replies (SetBootloaderMode BOOTLOADER_MODE_FIRMWARE (Inr s) # es) = s # fw_replies es"
  by simp

lemma fw_reply_B [simp]:
  "fw_replies (SetBootloaderMode BOOTLOADER_MODE_BOOTLOADER res # es) = fw_replies es"
  by (rule skip_head)

lemma bw_mode [simp]: "bw p (SetBootloaderMode m res # es) = bw p es"
  by (cases res) simp_all

lemma popups_mode [simp]: "popups (SetBootloaderMode m res # es) = popups es"
  by simp

lemma bw_app_planned: "(\<forall>p. bw p xs = X) \<Longrightarrow> (\<And>q. bw q ys = Y) \<Longrightarrow> bw p (xs @ ys) = X @ Y"
  using bw_append_indep[of ys Y p xs] by simp

lemma coop_set_bootloader:
  assumes c: "cooperating bricklet good mode" and i: "good (dev w)"
  shows "\<exists>s w1. set_comcu_bootloader_mode bricklet BOOTLOADER_MODE_BOOTLOADER w = Some (Some s, w1)
     \<and> good (dev w1) \<and> mode (dev w1) = BOOTLOADER_MODE_BOOTLOADER
     \<and> trace w1 = trace w @ [SetBootloaderMode BOOTLOADER_MODE_BOOTLOADER (Inr s)]"
proof -
  from c i obtain s d' where
    "set_bootloader_mode bricklet BOOTLOADER_MODE_BOOTLOADER (dev w) = (Inr s, d')"
    "good d'" "mode d' = BOOTLOADER_MODE_BOOTLOADER"
    unfolding cooperating_def by blast
  then show ?thesis
    by (subst set_comcu_bootloader_mode_def, subst set_comcu_bootloader_mode_loop.simps)
       (simp add: call_def)
qed

lemma coop_set_firmware:
  assumes c: "cooperating bricklet good mode" and i: "good (dev w)"
  shows "\<exists>s w1. set_comcu_bootloader_mode bricklet BOOTLOADER_MODE_FIRMWARE w = Some (Some s, w1)
     \<and> good (dev w1) \<and> (s = 0 \<or> s = 2 \<longrightarrow> mode (dev w1) = BOOTLOADER_MODE_FIRMWARE)
     \<and> trace w1 = trace w @ [SetBootloaderMode BOOTLOADER_MODE_FIRMWARE (Inr s)]"
proof -
  from c i obtain s d' where
    "set_bootloader_mode bricklet BOOTLOADER_MODE_FIRMWARE (dev w) = (Inr s, d')"
    "good d'" "s = 0 \<or> s = 2 \<longrightarrow> mode d' = BOOTLOADER_MODE_FIRMWARE"
    unfolding cooperating_def by blast
  then show ?thesis
    by (subst set_comcu_bootloader_mode_def, subst set_comcu_bootloader_mode_loop.simps)
       (simp add: call_def)
qed

lemma coop_wait:
  assumes c: "cooperating bricklet good mode" and i: "good (dev w)" and m: "mode (dev w) = md"
  shows "\<exists>w1. wait_for_comcu_bootloader_mode bricklet md w = Some (True, w1)
     \<and> good (dev w1) \<and> mode (dev w1) = md
     \<and> trace w1 = trace w @ [GetBootloaderMode (Inr md)]"
proof -
  from c i obtain d' where
    "get_bootloader_mode bricklet (dev w) = (Inr (mode (dev w)), d')"
    "good d'" "mode d' = mode (dev w)"
    unfolding cooperating_def by blast
  with m show ?thesis
    by (subst wait_for_comcu_bootloader_mode_def, subst wait_for_comcu_bootloader_mode_loop.simps)
       (simp add: call_def)
qed

lemma coop_write_block:
  assumes c: "cooperating bricklet good mode" and i: "good (dev w)"
  shows "\<exists>w1. comcu_write_block bricklet plugin block_start block_end (t # tries) last_exc w = (None, w1)
     \<and> good (dev w1) \<and> mode (dev w1) = mode (dev w)"
proof -
  from c i obtain d1 where
    p: "set_write_firmware_pointer bricklet block_start (dev w) = (Inr (), d1)"
    and i1: "good d1" and m1: "mode d1 = mode (dev w)"
    unfolding cooperating_def by blast
  from c i1 obtain s d2 where
    wr: "write_firmware bricklet (py_slice plugin block_start block_end) d1 = (Inr s, d2)"
    and i2: "good d2" and m2: "mode d2 = mode d1"
    unfolding cooperating_def by blast
  from p wr i2 m2 m1 show ?thesis by (simp add: call_def)
qed

lemma coop_write_page:
  assumes c: "cooperating bricklet good mode" and i: "good (dev w)"
  shows "\<exists>w1. comcu_write_page bricklet plugin position offs w = (None, w1)
     \<and> good (dev w1) \<and> mode (dev w1) = mode (dev w)"
  using i
proof (induction offs arbitrary: w)
  case Nil
  then show ?case by simp
next
  case (Cons off offs)
  from coop_write_block[OF c Cons.prems, of plugin "position + off" "position + off + 64" 0 "[1, 2]" None]
  obtain w1 where b: "comcu_write_block bricklet plugin (position + off) (position + off + 64)
        [0, 1, 2] None w = (None, w1)"
    and i1: "good (dev w1)" and m1: "mode (dev w1) = mode (dev w)" by blast
  from Cons.IH[OF i1] obtain w2 where
    "comcu_write_page bricklet plugin position offs w1 = (None, w2)"
    "good (dev w2)" "mode (dev w2) = mode (dev w1)" by blast
  with b m1 show ?case by (simp add: Let_def)
qed

lemma coop_write_loop:
  assumes c: "cooperating bricklet good mode" and i: "good (dev w)"
  shows "\<exists>w1. comcu_write_loop bricklet plugin allow_skipping position skipped_pages w = (None, w1)
     \<and> good (dev w1) \<and> mode (dev w1) = mode (dev w)"
  using i
proof (induction "length plugin - position" arbitrary: position skipped_pages w rule: less_induct)
  case less
  show ?case
  proof (cases "position < length plugin")
    case False
    with less.prems show ?thesis by (simp add: loop_stop)
  next
    case True
    then have lt: "length plugin - (position + 256) < length plugin - position" by simp
    show ?thesis
    proof (cases "skips_page plugin allow_skipping position skipped_pages")
      case sk: True
      from less.hyps[OF lt less.prems, of "skipped_pages + 1"] show ?thesis
        by (simp add: loop_skip[OF True sk])
    next
      case sk: False
      from coop_write_page[OF c less.prems, of plugin position "[0, 64, 128, 192]"]
      obtain w1 where p: "comcu_write_page bricklet plugin position [0, 64, 128, 192] w = (None, w1)"
        and i1: "good (dev w1)" and m1: "mode (dev w1) = mode (dev w)" by blast
      let ?w2 = "progress (SetValue (position + 256)) w1"
      have i2: "good (dev ?w2)" using i1 by (simp add: ui_defs)
      have m2: "mode (dev ?w2) = mode (dev w)" using m1 by (simp add: ui_defs)
      from less.hyps[OF lt i2, of 0] obtain w3 where
        "comcu_write_loop bricklet plugin allow_skipping (position + 256) 0 ?w2 = (None, w3)"
        "good (dev w3)" "mode (dev w3) = mode (dev ?w2)" by blast
      with p m2 show ?thesis
        by (simp add: loop_write[OF True sk])
    qed
  qed
qed

lemma coop_attempt:
  assumes c: "cooperating bricklet good mode" and i: "good (dev w)"
  shows "\<exists>s r w1 es. comcu_attempt bricklet plugin name attempt w = Some (r, w1)
     \<and> good (dev w1) \<and> trace w1 = trace w @ es \<and> fw_replies es = [s]
     \<and> r = (if s = 0 \<or> s = 2 then Break
            else if s = 5 then Continue ''CRC Mismatch (Error 5)'' else Returned False)
     \<and> (s = 0 \<or> s = 2 \<longrightarrow> mode (dev w1) = BOOTLOADER_MODE_FIRMWARE)"
proof -
  let ?B = BOOTLOADER_MODE_BOOTLOADER
  let ?F = BOOTLOADER_MODE_FIRMWARE
  from coop_set_bootloader[OF c i] obtain s0 w1 where
    s1: "set_comcu_bootloader_mode bricklet ?B w = Some (Some s0, w1)"
    and i1: "good (dev w1)" and m1: "mode (dev w1) = ?B"
    and t1: "trace w1 = trace w @ [SetBootloaderMode ?B (Inr s0)]" by blast
  from coop_wait[OF c i1 m1] obtain w2 where
    s2: "wait_for_comcu_bootloader_mode bricklet ?B w1 = Some (True, w2)"
    and i2: "good (dev w2)"
    and t2: "trace w2 = trace w1 @ [GetBootloaderMode (Inr ?B)]" by blast
  let ?w3 = "progress Show (progress (SetValue 0) (progress (SetMaximum (length plugin))
                     (progress (SetLabelText (''Writing plugin'' @ attempt_str_of attempt @ '': '' @ name))
                        w2)))"
  have i3: "good (dev ?w3)" using i2 by (simp add: ui_defs)
  from coop_write_loop[OF c i3, of plugin "attempt = 0" 0 "MAX_SKIPPED_PAGES + 1"] obtain w4 where
    s4: "comcu_write_loop bricklet plugin (attempt = 0) 0 (MAX_SKIPPED_PAGES + 1) ?w3 = (None, w4)"
    and i4: "good (dev w4)" by blast
  from comcu_write_loop_trace[OF s4] obtain e4 where
    t4: "trace w4 = trace ?w3 @ e4" and n4: "\<forall>e \<in> set e4. \<not> is_mode_event e" by blast
  have f4: "fw_replies e4 = []" using n4 by (rule fw_replies_no_mode)
  let ?w5 = "progress Show (progress (SetValue 0) (progress (SetMaximum 0)
                     (progress (SetLabelText
                        (''Changing from bootloader mode to firmware mode'' @ attempt_str_of attempt)) w4)))"
  have i5: "good (dev ?w5)" using i4 by (simp add: ui_defs)
  from coop_set_firmware[OF c i5] obtain s w6 where
    s6: "set_comcu_bootloader_mode bricklet ?F ?w5 = Some (Some s, w6)"
    and i6: "good (dev w6)" and m6: "s = 0 \<or> s = 2 \<longrightarrow> mode (dev w6) = ?F"
    and t6: "trace w6 = trace ?w5 @ [SetBootloaderMode ?F (Inr s)]" by blast
  let ?pre = "[SetBootloaderMode ?B (Inr s0), GetBootloaderMode (Inr ?B),
       Progress (SetLabelText (''Writing plugin'' @ attempt_str_of attempt @ '': '' @ name)),
       Progress (SetMaximum (length plugin)), Progress (SetValue 0), Progress Show] @ e4
     @ [Progress (SetLabelText
                        (''Changing from bootloader mode to firmware mode'' @ attempt_str_of attempt)),
        Progress (SetMaximum 0), Progress (SetValue 0), Progress Show,
        SetBootloaderMode ?F (Inr s)]"
  have t6': "trace w6 = trace w @ ?pre"
    using t1 t2 t4 t6 by (simp add: ui_defs)
  have neq: "?B \<noteq> ?F"
    by (simp add: BOOTLOADER_MODE_BOOTLOADER_def BOOTLOADER_MODE_FIRMWARE_def)
  have fpre: "fw_replies ?pre = [s]"
    using f4 neq by simp
  let ?w7 = "popup_fail ''Bricklet''
                            (''Could not change from bootloader mode to firmware mode: ''
                               @ comcu_error_str s)
                            (progress Cancel w6)"
  have att: "comcu_attempt bricklet plugin name attempt w =
      (if s = 0 \<or> s = 2 then Some (Break, w6)
       else if s = 5 then Some (Continue (comcu_error_str s), w6)
       else Some (Returned False, ?w7))"
    using s1 s2 s4 s6 by (simp add: comcu_attempt_def Let_def)
  consider (ok) "s = 0 \<or> s = 2" | (crc) "s = 5" | (other) "s \<noteq> 0" "s \<noteq> 2" "s \<noteq> 5"
    by blast
  then show ?thesis
  proof cases
    case ok
    with att i6 m6 t6' fpre show ?thesis
      by (intro exI[of _ s] exI[of _ Break] exI[of _ w6] exI[of _ ?pre]) simp
  next
    case crc
    with att i6 t6' fpre show ?thesis
      by (intro exI[of _ s] exI[of _ "Continue ''CRC Mismatch (Error 5)''"] exI[of _ w6]
            exI[of _ ?pre]) simp
  next
    case other
    let ?es = "?pre @ [Progress Cancel, PopupFail ''Bricklet''
         (''Could not change from bootloader mode to firmware mode: '' @ comcu_error_str s)]"
    have t7: "trace ?w7 = trace w @ ?es" using t6' by (simp add: ui_defs)
    have f7: "fw_replies ?es = [s]" using f4 neq by simp
    have i7: "good (dev ?w7)" using i6 by (simp add: ui_defs)
    from other att have a: "comcu_attempt bricklet plugin name attempt w = Some (Returned False, ?w7)"
      by simp
    from a i7 t7 f7 other show ?thesis
      by (intro exI[of _ s] exI[of _ "Returned False"] exI[of _ ?w7] exI[of _ ?es])
         (simp only: simp_thms if_False)
  qed
qed

lemma coop_run:
  assumes zf: "zip_file = Inr zf"
    and ff: "find_firmware zf (namelist zf) name = Inr (fw_name, Some plugin)"
    and mg: "regular_plugin_upto plugin \<noteq> - 1"
    and pg: "length plugin mod XMC1_PAGE_SIZE = 0"
    and run: "write_bricklet_plugin_comcu zip_file bricklet name w = Some (r, w')"
    and c: "cooperating bricklet good mode" and i: "good (dev w)"
  shows "\<exists>s. (fw_replies (new_events w w') = [s] \<and> s \<noteq> 5 \<or> fw_replies (new_events w w') = [5, s])
           \<and> (r \<longleftrightarrow> s = 0 \<or> s = 2)"
proof -
  let ?B = BOOTLOADER_MODE_BOOTLOADER
  let ?F = BOOTLOADER_MODE_FIRMWARE
  let ?w1 = "progress Show (progress (SetValue 0) (progress (SetMaximum 0)
                 (progress (SetLabelText ''Starting bootloader mode'') w)))"
  have t1: "trace ?w1 = trace w @ starting" by (simp add: ui_defs starting_def)
  have i1: "good (dev ?w1)" using i by (simp add: ui_defs)
  have unf: "write_bricklet_plugin_comcu zip_file bricklet name w =
      (case comcu_attempts bricklet plugin fw_name [0, 1] [] ?w1 of
                   None \<Rightarrow> None
                 | Some (Returned r, w2) \<Rightarrow> Some (r, w2)
                 | Some (Continue error_str, w2) \<Rightarrow>
                     Some (False,
                           popup_fail ''Bricklet''
                             (''Could not change from bootloader mode to firmware mode: ''
                                @ error_str)
                             (progress Cancel w2))
                 | Some (Break, w2) \<Rightarrow>
                     (case wait_for_comcu_bootloader_mode bricklet BOOTLOADER_MODE_FIRMWARE w2 of
                        None \<Rightarrow> None
                      | Some (False, w3) \<Rightarrow>
                          Some (False,
                                popup_fail ''Bricklet''
                                  ''Device did not enter firmware mode in 2.5 seconds''
                                  (progress Cancel w3))
                      | Some (True, w3) \<Rightarrow> Some (True, w3)))"
    using zf ff mg pg by (simp add: write_bricklet_plugin_comcu_def Let_def)
  from coop_attempt[OF c i1, of plugin fw_name 0] obtain s ra wa ea where
    a1: "comcu_attempt bricklet plugin fw_name 0 ?w1 = Some (ra, wa)"
    and ia: "good (dev wa)" and ta: "trace wa = trace ?w1 @ ea" and fa: "fw_replies ea = [s]"
    and ra: "ra = (if s = 0 \<or> s = 2 then Break
            else if s = 5 then Continue ''CRC Mismatch (Error 5)'' else Returned False)"
    and ma: "s = 0 \<or> s = 2 \<longrightarrow> mode (dev wa) = ?F" by blast
  consider (ok) "s = 0 \<or> s = 2" | (crc) "s = 5" | (other) "s \<noteq> 0" "s \<noteq> 2" "s \<noteq> 5"
    by blast
  then show ?thesis
  proof cases
    case ok
    with ra have rb: "ra = Break" by simp
    from ok ma have "mode (dev wa) = ?F" by simp
    from coop_wait[OF c ia this] obtain w3 where
      wt: "wait_for_comcu_bootloader_mode bricklet ?F wa = Some (True, w3)"
      and t3: "trace w3 = trace wa @ [GetBootloaderMode (Inr ?F)]" by blast
    from run unf a1 rb wt have "r = True" "w' = w3" by simp_all
    with t3 ta t1 have "new_events w w' = starting @ ea @ [GetBootloaderMode (Inr ?F)]"
      by (simp add: new_events_def)
    with fa have "fw_replies (new_events w w') = [s]" by simp
    with ok \<open>r = True\<close> show ?thesis by (intro exI[of _ s]) auto
  next
    case other
    with ra have rb: "ra = Returned False" by simp
    from run unf a1 rb have "r = False" "w' = wa" by simp_all
    with ta t1 have "new_events w w' = starting @ ea" by (simp add: new_events_def)
    with fa have "fw_replies (new_events w w') = [s]" by simp
    with other \<open>r = False\<close> show ?thesis by (intro exI[of _ s]) simp
  next
    case crc
    with ra have rb: "ra = Continue ''CRC Mismatch (Error 5)''" by simp
    from coop_attempt[OF c ia, of plugin fw_name 1] obtain s2 rc wc ec where
      a2: "comcu_attempt bricklet plugin fw_name 1 wa = Some (rc, wc)"
      and ic: "good (dev wc)" and tc: "trace wc = trace wa @ ec" and fc: "fw_replies ec = [s2]"
      and rc: "rc = (if s2 = 0 \<or> s2 = 2 then Break
            else if s2 = 5 then Continue ''CRC Mismatch (Error 5)'' else Returned False)"
      and mc: "s2 = 0 \<or> s2 = 2 \<longrightarrow> mode (dev wc) = ?F" by blast
    have att: "comcu_attempts bricklet plugin fw_name [0, 1] [] ?w1 =
        (case rc of Continue e \<Rightarrow> Some (Continue e, wc) | _ \<Rightarrow> Some (rc, wc))"
      using a1 rb a2 by (cases rc) simp_all
    consider (ok2) "s2 = 0 \<or> s2 = 2" | (crc2) "s2 = 5" | (other2) "s2 \<noteq> 0" "s2 \<noteq> 2" "s2 \<noteq> 5"
      by blast
    then show ?thesis
    proof cases
      case ok2
      with rc have rd: "rc = Break" by simp
      from ok2 mc have "mode (dev wc) = ?F" by simp
      from coop_wait[OF c ic this] obtain w3 where
        wt: "wait_for_comcu_bootloader_mode bricklet ?F wc = Some (True, w3)"
        and t3: "trace w3 = trace wc @ [GetBootloaderMode (Inr ?F)]" by blast
      from run unf att rd wt have "r = True" "w' = w3" by simp_all
      with t3 tc ta t1 have "new_events w w' = starting @ ea @ ec @ [GetBootloaderMode (Inr ?F)]"
        by (simp add: new_events_def)
      with fa fc crc have "fw_replies (new_events w w') = [5, s2]" by simp
      with ok2 \<open>r = True\<close> show ?thesis by (intro exI[of _ s2]) auto
    next
      case other2
      with rc have rd: "rc = Returned False" by simp
      from run unf att rd have "r = False" "w' = wc" by simp_all
      with tc ta t1 have "new_events w w' = starting @ ea @ ec" by (simp add: new_events_def)
      with fa fc crc have "fw_replies (new_events w w') = [5, s2]" by simp
      with other2 \<open>r = False\<close> show ?thesis by (intro exI[of _ s2]) simp
    next
      case crc2
      with rc have rd: "rc = Continue ''CRC Mismatch (Error 5)''" by simp
      let ?w4 = "popup_fail ''Bricklet''
                   (''Could not change from bootloader mode to firmware mode: ''
                      @ ''CRC Mismatch (Error 5)'')
                   (progress Cancel wc)"
      from run unf att rd have "r = False" "w' = ?w4" by simp_all
      with tc ta t1 have "new_events w w' = starting @ ea @ ec @ [Progress Cancel,
          PopupFail ''Bricklet'' (''Could not change from bootloader mode to firmware mode: ''
                      @ ''CRC Mismatch (Error 5)'')]"
        by (simp add: new_events_def ui_defs)
      with fa fc crc have "fw_replies (new_events w w') = [5, s2]" by simp
      with crc2 \<open>r = False\<close> show ?thesis by (intro exI[of _ s2]) simp
    qed
  qed
qed

lemma find_magic_none:
  "find_magic plugin js = - 1 \<longleftrightarrow> (\<forall>i \<in> set js. \<not> magic_ends_at plugin i)"
  by (induction js) (auto simp: magic_ends_at_def)

lemma regular_plugin_upto_none:
  "regular_plugin_upto plugin = - 1 \<longleftrightarrow>
     (\<forall>i. 4 \<le> i \<and> i < length plugin - 12 \<longrightarrow> \<not> magic_ends_at plugin i)"
  by (auto simp: regular_plugin_upto_def find_magic_none)

lemma find_magic_first:
  "find_magic plugin js = int i \<longleftrightarrow>
     (\<exists>xs ys. js = xs @ i # ys \<and> magic_ends_at plugin i \<and> (\<forall>j \<in> set xs. \<not> magic_ends_at plugin j))"
proof (induction js)
  case Nil
  show ?case by simp
next
  case (Cons a js)
  show ?case
  proof (cases "magic_ends_at plugin a")
    case True
    then have "find_magic plugin (a # js) = int a" by (simp add: magic_ends_at_def)
    moreover have "(\<exists>xs ys. a # js = xs @ i # ys \<and> magic_ends_at plugin i
        \<and> (\<forall>j \<in> set xs. \<not> magic_ends_at plugin j)) \<longleftrightarrow> a = i"
    proof
      assume "\<exists>xs ys. a # js = xs @ i # ys \<and> magic_ends_at plugin i
        \<and> (\<forall>j \<in> set xs. \<not> magic_ends_at plugin j)"
      then obtain xs ys where e: "a # js = xs @ i # ys" and n: "\<forall>j \<in> set xs. \<not> magic_ends_at plugin j"
        by blast
      show "a = i"
      proof (cases xs)
        case Nil
        with e show ?thesis by simp
      next
        case (Cons x xs')
        with e have "x = a" by simp
        with Cons n True show ?thesis by simp
      qed
    next
      assume "a = i"
      with True show "\<exists>xs ys. a # js = xs @ i # ys \<and> magic_ends_at plugin i
        \<and> (\<forall>j \<in> set xs. \<not> magic_ends_at plugin j)"
        by (intro exI[of _ "[]"] exI[of _ js]) simp
    qed
    ultimately show ?thesis by auto
  next
    case False
    then have f: "find_magic plugin (a # js) = find_magic plugin js"
      by (auto simp: magic_ends_at_def)
    have "(\<exists>xs ys. a # js = xs @ i # ys \<and> magic_ends_at plugin i
        \<and> (\<forall>j \<in> set xs. \<not> magic_ends_at plugin j)) \<longleftrightarrow>
      (\<exists>xs ys. js = xs @ i # ys \<and> magic_ends_at plugin i
        \<and> (\<forall>j \<in> set xs. \<not> magic_ends_at plugin j))"
    proof
      assume "\<exists>xs ys. a # js = xs @ i # ys \<and> magic_ends_at plugin i
        \<and> (\<forall>j \<in> set xs. \<not> magic_ends_at plugin j)"
      then obtain xs ys where e: "a # js = xs @ i # ys" and m: "magic_ends_at plugin i"
        and n: "\<forall>j \<in> set xs. \<not> magic_ends_at plugin j" by blast
      show "\<exists>xs ys. js = xs @ i # ys \<and> magic_ends_at plugin i
        \<and> (\<forall>j \<in> set xs. \<not> magic_ends_at plugin j)"
      proof (cases xs)
        case Nil
        with e m False show ?thesis by simp
      next
        case (Cons x xs')
        with e n m show ?thesis by (intro exI[of _ xs'] exI[of _ ys]) simp
      qed
    next
      assume "\<exists>xs ys. js = xs @ i # ys \<and> magic_ends_at plugin i
        \<and> (\<forall>j \<in> set xs. \<not> magic_ends_at plugin j)"
      then obtain xs ys where "js = xs @ i # ys" "magic_ends_at plugin i"
        "\<forall>j \<in> set xs. \<not> magic_ends_at plugin j" by blast
      with False show "\<exists>xs ys. a # js = xs @ i # ys \<and> magic_ends_at plugin i
        \<and> (\<forall>j \<in> set xs. \<not> magic_ends_at plugin j)"
        by (intro exI[of _ "a # xs"] exI[of _ ys]) simp
    qed
    with f Cons.IH show ?thesis by simp
  qed
qed

lemma magic_page_found: "regular_plugin_upto magic_page \<noteq> - 1"
proof -
  have "magic_ends_at magic_page 243"
    by (simp add: magic_ends_at_def magic_page_def nth_append)
  moreover have "length magic_page = 256" by (simp add: magic_page_def)
  ultimately show ?thesis unfolding regular_plugin_upto_none by (intro notI) auto
qed

lemma sim_cooperating: "cooperating sim_bricklet sim_follows sim_mode"
  unfolding cooperating_def sim_bricklet_def sim_follows_def
  by (simp add: BOOTLOADER_MODE_BOOTLOADER_def BOOTLOADER_MODE_FIRMWARE_def split: list.splits)

lemma comcu_crc_shapes:
  assumes "zip_file = Inr zf"
    and "find_firmware zf (namelist zf) name = Inr (fw_name, Some plugin)"
    and "regular_plugin_upto plugin \<noteq> - 1"
    and "length plugin mod XMC1_PAGE_SIZE = 0"
    and "write_bricklet_plugin_comcu zip_file bricklet name w = Some (r, w')"
  shows "length (fw_replies (new_events w w')) \<le> 2
    \<and> (\<forall>s rest. fw_replies (new_events w w') = s # rest \<and> (s = 0 \<or> s = 2) \<longrightarrow>
          rest = [] \<and>
          (\<exists>es1 rs last_res.
             new_events w w' =
               es1 @ SetBootloaderMode BOOTLOADER_MODE_FIRMWARE (Inr s) # confirmation r rs last_res
             \<and> fw_replies es1 = []
             \<and> (r \<longleftrightarrow> last_res = Inr BOOTLOADER_MODE_FIRMWARE)))
    \<and> (\<forall>rest. fw_replies (new_events w w') = 5 # rest \<longrightarrow>
          (\<exists>es1 res es2 ys.
             new_events w w' =
               es1 @ SetBootloaderMode BOOTLOADER_MODE_FIRMWARE (Inr 5)
                   # SetBootloaderMode BOOTLOADER_MODE_BOOTLOADER res # es2
             \<and> fw_replies es1 = [] \<and> fw_replies es2 = rest
             \<and> block_writes es2 @ ys = whole_image plugin
             \<and> (rest \<noteq> [] \<longrightarrow> ys = [])))
    \<and> (fw_replies (new_events w w') = [5, 5] \<longrightarrow>
          \<not> r \<and> popups (new_events w w') =
            [PopupFail ''Bricklet''
               ''Could not change from bootloader mode to firmware mode: CRC Mismatch (Error 5)''])"
proof -
  let ?F = BOOTLOADER_MODE_FIRMWARE
  let ?B = BOOTLOADER_MODE_BOOTLOADER
  let ?P2 = "planned_writes plugin False 0 (MAX_SKIPPED_PAGES + 1)"
  let ?fr = "fw_replies (new_events w w')"
  let ?crc = "[PopupFail ''Bricklet''
               ''Could not change from bootloader mode to firmware mode: CRC Mismatch (Error 5)'']"
  have P2: "?P2 = whole_image plugin" using assms(4) by (rule planned_no_skipping)
  from assms show ?thesis
  proof (cases rule: comcu_run_cases)
    case (abort es)
    have fr: "?fr = [] \<or> (\<exists>s. ?fr = [s] \<and> s \<noteq> 0 \<and> s \<noteq> 2 \<and> s \<noteq> 5)"
      using abort(3) by (simp add: abort(1))
    have c1: "length ?fr \<le> 2" using fr by auto
    have c2: "\<forall>s rest. ?fr = s # rest \<and> (s = 0 \<or> s = 2) \<longrightarrow>
          rest = [] \<and>
          (\<exists>es1 rs last_res.
             new_events w w' =
               es1 @ SetBootloaderMode ?F (Inr s) # confirmation r rs last_res
             \<and> fw_replies es1 = []
             \<and> (r \<longleftrightarrow> last_res = Inr ?F))"
      using fr by auto
    have c3: "\<forall>rest. ?fr = 5 # rest \<longrightarrow>
          (\<exists>es1 res es2 ys.
             new_events w w' =
               es1 @ SetBootloaderMode ?F (Inr 5) # SetBootloaderMode ?B res # es2
             \<and> fw_replies es1 = [] \<and> fw_replies es2 = rest
             \<and> block_writes es2 @ ys = whole_image plugin
             \<and> (rest \<noteq> [] \<longrightarrow> ys = []))"
      using fr by auto
    have c4: "?fr = [5, 5] \<longrightarrow> \<not> r \<and> popups (new_events w w') = ?crc"
      using fr by auto
    show ?thesis by (intro conjI c1 c2 c3 c4)
  next
    case (accept es1 s rs last_res)
    have fr: "?fr = [s]" using accept(3) by (simp add: accept(1))
    have c1: "length ?fr \<le> 2" using fr by simp
    have ex: "\<exists>es1' rs last_res.
             new_events w w' =
               es1' @ SetBootloaderMode ?F (Inr s) # confirmation r rs last_res
             \<and> fw_replies es1' = []
             \<and> (r \<longleftrightarrow> last_res = Inr ?F)"
      using accept(3,6)
      by (intro exI[of _ "starting @ es1"] exI[of _ rs] exI[of _ last_res]) (simp add: accept(1))
    have c2: "\<forall>s' rest. ?fr = s' # rest \<and> (s' = 0 \<or> s' = 2) \<longrightarrow>
          rest = [] \<and>
          (\<exists>es1 rs last_res.
             new_events w w' =
               es1 @ SetBootloaderMode ?F (Inr s') # confirmation r rs last_res
             \<and> fw_replies es1 = []
             \<and> (r \<longleftrightarrow> last_res = Inr ?F))"
      unfolding fr using ex by auto
    have c3: "\<forall>rest. ?fr = 5 # rest \<longrightarrow>
          (\<exists>es1 res es2 ys.
             new_events w w' =
               es1 @ SetBootloaderMode ?F (Inr 5) # SetBootloaderMode ?B res # es2
             \<and> fw_replies es1 = [] \<and> fw_replies es2 = rest
             \<and> block_writes es2 @ ys = whole_image plugin
             \<and> (rest \<noteq> [] \<longrightarrow> ys = []))"
      unfolding fr using accept(2) by auto
    have c4: "?fr = [5, 5] \<longrightarrow> \<not> r \<and> popups (new_events w w') = ?crc"
      unfolding fr by simp
    show ?thesis by (intro conjI c1 c2 c3 c4)
  next
    case (retry_abort es1 res es2)
    have fr: "?fr = 5 # fw_replies es2" using retry_abort(2) by (simp add: retry_abort(1))
    have c1: "length ?fr \<le> 2" unfolding fr using retry_abort(6) by auto
    have c2: "\<forall>s rest. ?fr = s # rest \<and> (s = 0 \<or> s = 2) \<longrightarrow>
          rest = [] \<and>
          (\<exists>es1 rs last_res.
             new_events w w' =
               es1 @ SetBootloaderMode ?F (Inr s) # confirmation r rs last_res
             \<and> fw_replies es1 = []
             \<and> (r \<longleftrightarrow> last_res = Inr ?F))"
      unfolding fr by simp
    have ex: "\<exists>es1' res' es2' ys.
             new_events w w' =
               es1' @ SetBootloaderMode ?F (Inr 5) # SetBootloaderMode ?B res' # es2'
             \<and> fw_replies es1' = [] \<and> fw_replies es2' = fw_replies es2
             \<and> block_writes es2' @ ys = whole_image plugin
             \<and> (fw_replies es2 \<noteq> [] \<longrightarrow> ys = [])"
    proof (cases "fw_replies es2 = []")
      case True
      from retry_abort(7) obtain ys where "\<forall>p. bw p es2 @ ys = ?P2" by blast
      with True retry_abort(2) P2 show ?thesis
        by (intro exI[of _ "starting @ es1"] exI[of _ res] exI[of _ es2] exI[of _ ys])
           (simp add: block_writes_def retry_abort(1))
    next
      case False
      with retry_abort(8) have "\<forall>p. bw p es2 = ?P2" by simp
      with retry_abort(2) P2 show ?thesis
        by (intro exI[of _ "starting @ es1"] exI[of _ res] exI[of _ es2] exI[of _ "[]"])
           (simp add: block_writes_def retry_abort(1))
    qed
    have c3: "\<forall>rest. ?fr = 5 # rest \<longrightarrow>
          (\<exists>es1 res es2 ys.
             new_events w w' =
               es1 @ SetBootloaderMode ?F (Inr 5) # SetBootloaderMode ?B res # es2
             \<and> fw_replies es1 = [] \<and> fw_replies es2 = rest
             \<and> block_writes es2 @ ys = whole_image plugin
             \<and> (rest \<noteq> [] \<longrightarrow> ys = []))"
      unfolding fr using ex by simp
    have c4: "?fr = [5, 5] \<longrightarrow> \<not> r \<and> popups (new_events w w') = ?crc"
      unfolding fr using retry_abort(6) by auto
    show ?thesis by (intro conjI c1 c2 c3 c4)
  next
    case (retry_accept es1 res es3 s rs last_res)
    let ?es2 = "es3 @ SetBootloaderMode ?F (Inr s) # confirmation r rs last_res"
    have fr: "?fr = [5, s]" using retry_accept(2,6) by (simp add: retry_accept(1))
    have b: "block_writes ?es2 = whole_image plugin"
      unfolding block_writes_def
      using bw_app_planned[of es3 ?P2 "SetBootloaderMode ?F (Inr s) # confirmation r rs last_res" "[]"]
        retry_accept(8) P2 by simp
    have c1: "length ?fr \<le> 2" unfolding fr by simp
    have c2: "\<forall>s rest. ?fr = s # rest \<and> (s = 0 \<or> s = 2) \<longrightarrow>
          rest = [] \<and>
          (\<exists>es1 rs last_res.
             new_events w w' =
               es1 @ SetBootloaderMode ?F (Inr s) # confirmation r rs last_res
             \<and> fw_replies es1 = []
             \<and> (r \<longleftrightarrow> last_res = Inr ?F))"
      unfolding fr by simp
    have ex: "\<exists>es1' res' es2' ys.
             new_events w w' =
               es1' @ SetBootloaderMode ?F (Inr 5) # SetBootloaderMode ?B res' # es2'
             \<and> fw_replies es1' = [] \<and> fw_replies es2' = [s]
             \<and> block_writes es2' @ ys = whole_image plugin
             \<and> ys = []"
      using retry_accept(2,6) b
      by (intro exI[of _ "starting @ es1"] exI[of _ res] exI[of _ ?es2] exI[of _ "[]"])
         (simp add: retry_accept(1))
    have c3: "\<forall>rest. ?fr = 5 # rest \<longrightarrow>
          (\<exists>es1 res es2 ys.
             new_events w w' =
               es1 @ SetBootloaderMode ?F (Inr 5) # SetBootloaderMode ?B res # es2
             \<and> fw_replies es1 = [] \<and> fw_replies es2 = rest
             \<and> block_writes es2 @ ys = whole_image plugin
             \<and> (rest \<noteq> [] \<longrightarrow> ys = []))"
      unfolding fr using ex by simp
    have c4: "?fr = [5, 5] \<longrightarrow> \<not> r \<and> popups (new_events w w') = ?crc"
      unfolding fr using retry_accept(5) by auto
    show ?thesis by (intro conjI c1 c2 c3 c4)
  next
    case (retry_crc es1 res es3)
    let ?es2 = "es3 @ SetBootloaderMode ?F (Inr 5) # crc_failure"
    have fr: "?fr = [5, 5]"
      using retry_crc(2,6) by (simp add: retry_crc(1) crc_failure_def)
    have pp: "popups (new_events w w') = ?crc"
      using retry_crc(3,7) by (simp add: retry_crc(1) crc_failure_def)
    have b: "block_writes ?es2 = whole_image plugin"
      unfolding block_writes_def
      using bw_app_planned[of es3 ?P2 "SetBootloaderMode ?F (Inr 5) # crc_failure" "[]"]
        retry_crc(8) P2 by (simp add: crc_failure_def)
    have c1: "length ?fr \<le> 2" unfolding fr by simp
    have c2: "\<forall>s rest. ?fr = s # rest \<and> (s = 0 \<or> s = 2) \<longrightarrow>
          rest = [] \<and>
          (\<exists>es1 rs last_res.
             new_events w w' =
               es1 @ SetBootloaderMode ?F (Inr s) # confirmation r rs last_res
             \<and> fw_replies es1 = []
             \<and> (r \<longleftrightarrow> last_res = Inr ?F))"
      unfolding fr by simp
    have ex: "\<exists>es1' res' es2' ys.
             new_events w w' =
               es1' @ SetBootloaderMode ?F (Inr 5) # SetBootloaderMode ?B res' # es2'
             \<and> fw_replies es1' = [] \<and> fw_replies es2' = [5]
             \<and> block_writes es2' @ ys = whole_image plugin
             \<and> ys = []"
      using retry_crc(2,6) b
      by (intro exI[of _ "starting @ es1"] exI[of _ res] exI[of _ ?es2] exI[of _ "[]"])
         (simp add: retry_crc(1) crc_failure_def)
    have c3: "\<forall>rest. ?fr = 5 # rest \<longrightarrow>
          (\<exists>es1 res es2 ys.
             new_events w w' =
               es1 @ SetBootloaderMode ?F (Inr 5) # SetBootloaderMode ?B res # es2
             \<and> fw_replies es1 = [] \<and> fw_replies es2 = rest
             \<and> block_writes es2 @ ys = whole_image plugin
             \<and> (rest \<noteq> [] \<longrightarrow> ys = []))"
      unfolding fr using ex by simp
    have c4: "?fr = [5, 5] \<longrightarrow> \<not> r \<and> popups (new_events w w') = ?crc"
      using pp retry_crc(5) by simp
    show ?thesis by (intro conjI c1 c2 c3 c4)
  qed
qed

text \<open>
  Claim C1. For an archive that holds a firmware image of whole pages with the magic number,
  the operation returns, and the answers \<open>fw_replies\<close> of the device to the requests for
  firmware mode decide how it went. There are at most two such answers. When the first answer
  is 0 or 2 there is no second attempt: the final confirmation polls follow at once, and the
  result is \<^verbatim>\<open>True\<close> exactly when the device was then seen in firmware mode. When the first
  answer is 5, bootloader mode is requested again and a second attempt follows, which writes
  the whole image without skipping (all of it when this attempt gets as far as its own request
  for firmware mode). When both answers are 5 the result is \<^verbatim>\<open>False\<close> and the one message shown
  is the CRC mismatch. With a cooperating Bricklet, whose state is \<open>good\<close>, the device is asked
  for firmware mode once, or twice after an answer 5, and the result is \<^verbatim>\<open>True\<close> exactly when
  the last answer is 0 or 2: an answer 0 or 2 to the first attempt gives success without a
  second attempt, and two answers 5 give failure.
\<close>

theorem comcu_crc_retry:
  assumes "zip_file = Inr zf"
    and "find_firmware zf (namelist zf) name = Inr (fw_name, Some plugin)"
    and "regular_plugin_upto plugin \<noteq> - 1"
    and "length plugin mod XMC1_PAGE_SIZE = 0"
  shows "\<exists>r w'. write_bricklet_plugin_comcu zip_file bricklet name w = Some (r, w')
    \<and> length (fw_replies (new_events w w')) \<le> 2
    \<and> (\<forall>s rest. fw_replies (new_events w w') = s # rest \<and> (s = 0 \<or> s = 2) \<longrightarrow>
          rest = [] \<and>
          (\<exists>es1 rs last_res.
             new_events w w' =
               es1 @ SetBootloaderMode BOOTLOADER_MODE_FIRMWARE (Inr s) # confirmation r rs last_res
             \<and> fw_replies es1 = []
             \<and> (r \<longleftrightarrow> last_res = Inr BOOTLOADER_MODE_FIRMWARE)))
    \<and> (\<forall>rest. fw_replies (new_events w w') = 5 # rest \<longrightarrow>
          (\<exists>es1 res es2 ys.
             new_events w w' =
               es1 @ SetBootloaderMode BOOTLOADER_MODE_FIRMWARE (Inr 5)
                   # SetBootloaderMode BOOTLOADER_MODE_BOOTLOADER res # es2
             \<and> fw_replies es1 = [] \<and> fw_replies es2 = rest
             \<and> block_writes es2 @ ys = whole_image plugin
             \<and> (rest \<noteq> [] \<longrightarrow> ys = [])))
    \<and> (fw_replies (new_events w w') = [5, 5] \<longrightarrow>
          \<not> r \<and> popups (new_events w w') =
            [PopupFail ''Bricklet''
               ''Could not change from bootloader mode to firmware mode: CRC Mismatch (Error 5)''])
    \<and> (cooperating bricklet good mode \<and> good (dev w) \<longrightarrow>
          (\<exists>s. (fw_replies (new_events w w') = [s] \<and> s \<noteq> 5
                 \<or> fw_replies (new_events w w') = [5, s])
               \<and> (r \<longleftrightarrow> s = 0 \<or> s = 2)))"
proof -
  from write_bricklet_plugin_comcu_total obtain r w' where
    run: "write_bricklet_plugin_comcu zip_file bricklet name w = Some (r, w')" by blast
  note shapes = comcu_crc_shapes[OF assms run]
  have coop: "cooperating bricklet good mode \<and> good (dev w) \<longrightarrow>
          (\<exists>s. (fw_replies (new_events w w') = [s] \<and> s \<noteq> 5
                 \<or> fw_replies (new_events w w') = [5, s])
               \<and> (r \<longleftrightarrow> s = 0 \<or> s = 2))"
    using coop_run[OF assms run] by blast
  show ?thesis
    by (intro exI[of _ r] exI[of _ w'] conjI run coop shapes[THEN conjunct1]
          shapes[THEN conjunct2, THEN conjunct1]
          shapes[THEN conjunct2, THEN conjunct2, THEN conjunct1]
          shapes[THEN conjunct2, THEN conjunct2, THEN conjunct2])
qed

theorem comcu_crc_retry_witness:
  "find_firmware (test_zip magic_page) (namelist (test_zip magic_page)) ''plugin''
     = Inr (''bricklet_firmware.bin'', Some magic_page)
   \<and> regular_plugin_upto magic_page \<noteq> - 1
   \<and> length magic_page mod XMC1_PAGE_SIZE = 0
   \<and> cooperating sim_bricklet sim_follows sim_mode
   \<and> sim_follows (dev (sim_world crc_sim))
   \<and> (\<exists>r w'. write_bricklet_plugin_comcu (Inr (test_zip magic_page)) sim_bricklet ''plugin''
                 (sim_world crc_sim) = Some (r, w')
        \<and> length (fw_replies (new_events (sim_world crc_sim) w')) \<le> 2
        \<and> (\<exists>s. (fw_replies (new_events (sim_world crc_sim) w') = [s] \<and> s \<noteq> 5
                 \<or> fw_replies (new_events (sim_world crc_sim) w') = [5, s])
               \<and> (r \<longleftrightarrow> s = 0 \<or> s = 2)))"
proof -
  have h2: "find_firmware (test_zip magic_page) (namelist (test_zip magic_page)) ''plugin''
     = Inr (''bricklet_firmware.bin'', Some magic_page)"
    by (simp add: test_zip_def endswith_def)
  have h3: "regular_plugin_upto magic_page \<noteq> - 1" by (rule magic_page_found)
  have h4: "length magic_page mod XMC1_PAGE_SIZE = 0"
    by (simp add: magic_page_def XMC1_PAGE_SIZE_def)
  have h5: "sim_follows (dev (sim_world crc_sim))"
    by (simp add: sim_follows_def sim_world_def crc_sim_def sim0_def)
  from comcu_crc_retry[OF refl h2 h3 h4, of sim_bricklet "sim_world crc_sim" sim_follows sim_mode]
  obtain r w' where
    run: "write_bricklet_plugin_comcu (Inr (test_zip magic_page)) sim_bricklet ''plugin''
                 (sim_world crc_sim) = Some (r, w')"
    and c1: "length (fw_replies (new_events (sim_world crc_sim) w')) \<le> 2"
    and c5: "cooperating sim_bricklet sim_follows sim_mode \<and> sim_follows (dev (sim_world crc_sim)) \<longrightarrow>
          (\<exists>s. (fw_replies (new_events (sim_world crc_sim) w') = [s] \<and> s \<noteq> 5
                 \<or> fw_replies (new_events (sim_world crc_sim) w') = [5, s])
               \<and> (r \<longleftrightarrow> s = 0 \<or> s = 2))"
    by (elim exE conjE) (rule that; assumption)
  from c5 sim_cooperating h5
  have c6: "\<exists>s. (fw_replies (new_events (sim_world crc_sim) w') = [s] \<and> s \<noteq> 5
                 \<or> fw_replies (new_events (sim_world crc_sim) w') = [5, s])
               \<and> (r \<longleftrightarrow> s = 0 \<or> s = 2)"
    by (simp only: simp_thms)
  have ex: "\<exists>r w'. write_bricklet_plugin_comcu (Inr (test_zip magic_page)) sim_bricklet ''plugin''
                 (sim_world crc_sim) = Some (r, w')
        \<and> length (fw_replies (new_events (sim_world crc_sim) w')) \<le> 2
        \<and> (\<exists>s. (fw_replies (new_events (sim_world crc_sim) w') = [s] \<and> s \<noteq> 5
                 \<or> fw_replies (new_events (sim_world crc_sim) w') = [5, s])
               \<and> (r \<longleftrightarrow> s = 0 \<or> s = 2))"
    by (intro exI[of _ r] exI[of _ w'] conjI run c1 c6)
  show ?thesis by (intro conjI h2 h3 h4 h5 sim_cooperating ex)
qed

lemma find_magic_rev_upt:
  "find_magic plugin (rev [a..<n]) = int i \<longleftrightarrow>
     (a \<le> i \<and> i < n \<and> magic_ends_at plugin i
      \<and> (\<forall>j. i < j \<and> j < n \<longrightarrow> \<not> magic_ends_at plugin j))"
proof (induction n)
  case 0
  show ?case by simp
next
  case (Suc n)
  show ?case
  proof (cases "a \<le> n")
    case False
    then show ?thesis by auto
  next
    case True
    then have r: "rev [a..<Suc n] = n # rev [a..<n]" by simp
    show ?thesis
    proof (cases "magic_ends_at plugin n")
      case m: True
      then have "find_magic plugin (rev [a..<Suc n]) = int n"
        unfolding r by (simp add: magic_ends_at_def)
      moreover have "(a \<le> i \<and> i < Suc n \<and> magic_ends_at plugin i
          \<and> (\<forall>j. i < j \<and> j < Suc n \<longrightarrow> \<not> magic_ends_at plugin j)) \<longleftrightarrow> i = n"
        using True m by (auto simp: less_Suc_eq)
      ultimately show ?thesis by (simp only: of_nat_eq_iff) auto
    next
      case m: False
      then have "find_magic plugin (rev [a..<Suc n]) = find_magic plugin (rev [a..<n])"
        unfolding r by (auto simp: magic_ends_at_def)
      moreover have "(a \<le> i \<and> i < Suc n \<and> magic_ends_at plugin i
          \<and> (\<forall>j. i < j \<and> j < Suc n \<longrightarrow> \<not> magic_ends_at plugin j)) \<longleftrightarrow>
         (a \<le> i \<and> i < n \<and> magic_ends_at plugin i
          \<and> (\<forall>j. i < j \<and> j < n \<longrightarrow> \<not> magic_ends_at plugin j))"
        using m by (auto simp: less_Suc_eq)
      ultimately show ?thesis using Suc.IH by (simp only:)
    qed
  qed
qed

lemma regular_plugin_upto_last:
  "regular_plugin_upto plugin = int i \<longleftrightarrow>
     (4 \<le> i \<and> i < length plugin - 12 \<and> magic_ends_at plugin i
      \<and> (\<forall>j. i < j \<and> j < length plugin - 12 \<longrightarrow> \<not> magic_ends_at plugin j))"
  unfolding regular_plugin_upto_def by (rule find_magic_rev_upt)

lemma comcu_no_magic:
  assumes "zip_file = Inr zf"
    and "find_firmware zf (namelist zf) name = Inr (fw_name, Some plugin)"
    and "regular_plugin_upto plugin = - 1"
  shows "write_bricklet_plugin_comcu zip_file bricklet name w =
           Some (False,
                 \<lparr>dev = dev w,
                  trace = trace w @ starting
                    @ [Progress Cancel,
                       PopupFail ''Bricklet'' ''Could not find magic number in firmware'']\<rparr>)"
  using assms
  by (simp add: write_bricklet_plugin_comcu_def Let_def ui_defs emit_def starting_def)

text \<open>
  Claim C6. The scan for the magic number \<^verbatim>\<open>0x78 0x56 0x34 0x12\<close> goes backward over the
  positions \<open>4 \<le> i < len - 12\<close> of its last byte: \<^verbatim>\<open>regular_plugin_upto\<close> is the last such
  position at which the magic number ends, and \<open>-1\<close> exactly when there is none. When there is
  none (in particular when the image does not hold the magic number at all) the operation
  returns \<^verbatim>\<open>False\<close> after it cancelled the progress dialog and showed one message; it made no
  call to the device, whose state is unchanged.
\<close>

theorem comcu_magic_number_absent:
  assumes "zip_file = Inr zf"
    and "find_firmware zf (namelist zf) name = Inr (fw_name, Some plugin)"
  shows "(regular_plugin_upto plugin = - 1 \<longleftrightarrow>
            (\<forall>i. 4 \<le> i \<and> i < length plugin - 12 \<longrightarrow> \<not> magic_ends_at plugin i))
       \<and> (\<forall>i. regular_plugin_upto plugin = int i \<longleftrightarrow>
            (4 \<le> i \<and> i < length plugin - 12 \<and> magic_ends_at plugin i
             \<and> (\<forall>j. i < j \<and> j < length plugin - 12 \<longrightarrow> \<not> magic_ends_at plugin j)))
       \<and> ((\<forall>i. 4 \<le> i \<and> i < length plugin - 12 \<longrightarrow> \<not> magic_ends_at plugin i) \<longrightarrow>
            write_bricklet_plugin_comcu zip_file bricklet name w =
              Some (False,
                    \<lparr>dev = dev w,
                     trace = trace w @ starting
                       @ [Progress Cancel,
                          PopupFail ''Bricklet'' ''Could not find magic number in firmware'']\<rparr>)
            \<and> device_calls (starting
                 @ [Progress Cancel,
                    PopupFail ''Bricklet'' ''Could not find magic number in firmware'']) = [])"
proof (intro conjI allI impI)
  show "regular_plugin_upto plugin = - 1 \<longleftrightarrow>
            (\<forall>i. 4 \<le> i \<and> i < length plugin - 12 \<longrightarrow> \<not> magic_ends_at plugin i)"
    by (rule regular_plugin_upto_none)
next
  fix i
  show "regular_plugin_upto plugin = int i \<longleftrightarrow>
            (4 \<le> i \<and> i < length plugin - 12 \<and> magic_ends_at plugin i
             \<and> (\<forall>j. i < j \<and> j < length plugin - 12 \<longrightarrow> \<not> magic_ends_at plugin j))"
    by (rule regular_plugin_upto_last)
next
  assume "\<forall>i. 4 \<le> i \<and> i < length plugin - 12 \<longrightarrow> \<not> magic_ends_at plugin i"
  then have "regular_plugin_upto plugin = - 1" by (simp only: regular_plugin_upto_none)
  from comcu_no_magic[OF assms this]
  show "write_bricklet_plugin_comcu zip_file bricklet name w =
              Some (False,
                    \<lparr>dev = dev w,
                     trace = trace w @ starting
                       @ [Progress Cancel,
                          PopupFail ''Bricklet'' ''Could not find magic number in firmware'']\<rparr>)" .
next
  show "device_calls (starting
                 @ [Progress Cancel,
                    PopupFail ''Bricklet'' ''Could not find magic number in firmware'']) = []"
    by (simp add: starting_def)
qed

theorem comcu_magic_number_absent_witness:
  "find_firmware (test_zip zero_page) (namelist (test_zip zero_page)) ''plugin''
     = Inr (''bricklet_firmware.bin'', Some zero_page)
   \<and> regular_plugin_upto zero_page = - 1
   \<and> write_bricklet_plugin_comcu (Inr (test_zip zero_page)) sim_bricklet ''plugin'' (sim_world sim0) =
       Some (False,
             \<lparr>dev = sim0,
              trace = starting
                @ [Progress Cancel,
                   PopupFail ''Bricklet'' ''Could not find magic number in firmware'']\<rparr>)"
proof -
  have h2: "find_firmware (test_zip zero_page) (namelist (test_zip zero_page)) ''plugin''
     = Inr (''bricklet_firmware.bin'', Some zero_page)"
    by (simp add: test_zip_def endswith_def)
  have n: "\<forall>i. 4 \<le> i \<and> i < length zero_page - 12 \<longrightarrow> \<not> magic_ends_at zero_page i"
    by (simp add: zero_page_def magic_ends_at_def)
  note t = comcu_magic_number_absent[OF refl h2, of sim_bricklet "sim_world sim0"]
  from t n have a: "regular_plugin_upto zero_page = - 1" by (simp only: simp_thms)
  from t n have b: "write_bricklet_plugin_comcu (Inr (test_zip zero_page)) sim_bricklet ''plugin''
      (sim_world sim0) =
       Some (False,
             \<lparr>dev = dev (sim_world sim0),
              trace = trace (sim_world sim0) @ starting
                @ [Progress Cancel,
                   PopupFail ''Bricklet'' ''Could not find magic number in firmware'']\<rparr>)"
    by (simp only: simp_thms)
  from h2 a b show ?thesis by (simp add: sim_world_def)
qed

section \<open>Claims on TNG modules\<close>








end
